(* ===== verification/Prelude.thy ===== *)
theory Prelude
  imports Main "HOL-Library.Word"
begin

text \<open>
  Shared vocabulary of the development: the Python exceptions the modelled code raises,
  fallible computations as values of a sum type, byte buffers and the three buffer
  operations every serialiser uses (growing with zeros, slicing, overwriting in place).
  Python integers are \<open>int\<close>, byte strings are lists of \<open>8 word\<close>, and offsets and lengths
  are \<open>nat\<close> where the code keeps them non-negative.
\<close>

unbundle bit_operations_syntax

named_theorems fmt_defs \<open>definitions of the wire formats\<close>

section \<open>Exceptions and fallible computations\<close>

text \<open>
  \<open>Diverges\<close> is not an exception: it is the outcome of a loop of the code that never leaves its
  body. The theory of wire sequences relates it to the loop run with any amount of fuel.
\<close>

datatype py_error =
    StructError
  | ValueError
  | KeyError
  | AttributeError
  | AssertionError
  | IndexError
  | TypeError
  | ZeroDivisionError
  | OFPUnknownVersion
  | OtherException
  | Diverges

type_synonym 'a res = "py_error + 'a"

definition rbind :: "'a res \<Rightarrow> ('a \<Rightarrow> 'b res) \<Rightarrow> 'b res" where
  "rbind r f = (case r of Inl e \<Rightarrow> Inl e | Inr x \<Rightarrow> f x)"

definition rassert :: "bool \<Rightarrow> unit res" where
  "rassert b = (if b then Inr () else Inl AssertionError)"

definition rget :: "py_error \<Rightarrow> 'a option \<Rightarrow> 'a res" where
  "rget e x = (case x of None \<Rightarrow> Inl e | Some v \<Rightarrow> Inr v)"

definition rok :: "'a res \<Rightarrow> bool" where
  "rok r = (case r of Inl _ \<Rightarrow> False | Inr _ \<Rightarrow> True)"

lemma rbind_simps [simp]:
  "rbind (Inr x) f = f x"
  "rbind (Inl e) f = Inl e"
  by (simp_all add: rbind_def)

lemma rbind_eq_Inr: "rbind r f = Inr y \<longleftrightarrow> (\<exists>x. r = Inr x \<and> f x = Inr y)"
  by (cases r) auto

lemma rbind_eq_Inl: "rbind r f = Inl e \<longleftrightarrow> r = Inl e \<or> (\<exists>x. r = Inr x \<and> f x = Inl e)"
  by (cases r) auto

lemma rbind_cong [fundef_cong]:
  assumes "r = r'" and "\<And>x. r' = Inr x \<Longrightarrow> f x = g x"
  shows "rbind r f = rbind r' g"
  using assms by (cases r') auto

lemma rbind_assoc: "rbind (rbind r f) g = rbind r (\<lambda>x. rbind (f x) g)"
  by (cases r) auto

lemma rbind_Inr_right [simp]: "rbind r Inr = r"
  by (cases r) auto

lemma rassert_simps [simp]:
  "rassert True = Inr ()"
  "rassert False = Inl AssertionError"
  "rassert b = Inr u \<longleftrightarrow> b"
  by (auto simp: rassert_def)

lemma rget_simps [simp]:
  "rget e None = Inl e"
  "rget e (Some v) = Inr v"
  "rget e x = Inr v \<longleftrightarrow> x = Some v"
  by (auto simp: rget_def split: option.splits)

lemma rok_simps [simp]: "rok (Inr x)" "\<not> rok (Inl e)"
  by (simp_all add: rok_def)

lemma rok_iff: "rok r \<longleftrightarrow> (\<exists>x. r = Inr x)"
  by (cases r) auto

text \<open>A list comprehension whose body may raise.\<close>

fun mapM :: "('a \<Rightarrow> 'b res) \<Rightarrow> 'a list \<Rightarrow> 'b list res" where
  "mapM f [] = Inr []"
| "mapM f (x # xs) = rbind (f x) (\<lambda>y. rbind (mapM f xs) (\<lambda>ys. Inr (y # ys)))"

lemma mapM_Inr_iff: "mapM f xs = Inr ys \<longleftrightarrow> list_all2 (\<lambda>x y. f x = Inr y) xs ys"
proof (induction xs arbitrary: ys)
  case (Cons x xs)
  then show ?case by (cases ys) (auto simp: rbind_eq_Inr)
qed auto

lemma mapM_length: "mapM f xs = Inr ys \<Longrightarrow> length ys = length xs"
  by (auto simp: mapM_Inr_iff list_all2_lengthD)

lemma mapM_set: "mapM f xs = Inr ys \<Longrightarrow> y \<in> set ys \<Longrightarrow> \<exists>x \<in> set xs. f x = Inr y"
  by (induction xs arbitrary: ys) (auto simp: rbind_eq_Inr)

lemma mapM_set_eq: "mapM f xs = Inr ys \<Longrightarrow> set ys = {y. \<exists>x \<in> set xs. f x = Inr y}"
  by (induction xs arbitrary: ys) (auto simp: rbind_eq_Inr)

lemma mapM_total: "(\<And>x. x \<in> set xs \<Longrightarrow> \<exists>y. f x = Inr y) \<Longrightarrow> \<exists>ys. mapM f xs = Inr ys"
  by (induction xs) fastforce+

lemma mapM_total_D: "mapM f xs = Inr ys \<Longrightarrow> x \<in> set xs \<Longrightarrow> \<exists>y. f x = Inr y"
  by (induction xs arbitrary: ys) (auto simp: rbind_eq_Inr)

lemma mapM_perm: "mapM f xs = Inr ys \<Longrightarrow> set xs' = set xs \<Longrightarrow> \<exists>ys'. mapM f xs' = Inr ys' \<and> set ys' = set ys"
  using mapM_total [of xs' f] mapM_total_D [of f xs ys] mapM_set_eq [of f] by fastforce

lemma mapM_map_eq:
  "mapM f xs = Inr ys \<Longrightarrow> (\<And>x y. x \<in> set xs \<Longrightarrow> f x = Inr y \<Longrightarrow> g y = h x) \<Longrightarrow> map g ys = map h xs"
  by (induction xs arbitrary: ys) (auto simp: rbind_eq_Inr)

section \<open>Byte buffers\<close>

type_synonym byte = "8 word"
type_synonym bytes = "byte list"

definition zeros :: "nat \<Rightarrow> bytes" where
  "zeros n = replicate n 0"

definition grow :: "nat \<Rightarrow> bytes \<Rightarrow> bytes" where
  "grow n b = b @ zeros (n - length b)"

definition slice :: "nat \<Rightarrow> nat \<Rightarrow> 'a list \<Rightarrow> 'a list" where
  "slice i j xs = take (j - i) (drop i xs)"

definition overwrite :: "nat \<Rightarrow> 'a list \<Rightarrow> 'a list \<Rightarrow> 'a list" where
  "overwrite i p xs = take i xs @ p @ drop (i + length p) xs"

lemma length_zeros [simp]: "length (zeros n) = n"
  by (simp add: zeros_def)

lemma zeros_0 [simp]: "zeros 0 = []"
  by (simp add: zeros_def)

lemma zeros_eq_Nil [simp]: "zeros n = [] \<longleftrightarrow> n = 0"
  by (simp add: zeros_def)

lemma zeros_add: "zeros (m + n) = zeros m @ zeros n"
  by (simp add: zeros_def replicate_add)

lemma length_grow [simp]: "length (grow n b) = max n (length b)"
  by (simp add: grow_def max_def)

lemma grow_id [simp]: "n \<le> length b \<Longrightarrow> grow n b = b"
  by (simp add: grow_def)

lemma grow_add: "length b \<le> n \<Longrightarrow> grow (n + k) b = grow n b @ zeros k"
proof -
  assume "length b \<le> n"
  then have "n + k - length b = (n - length b) + k" by simp
  then show ?thesis by (simp add: grow_def zeros_add)
qed

lemma grow_append_ge: "length b \<le> n \<Longrightarrow> m = n + length p \<Longrightarrow> grow m (grow n b @ p) = grow n b @ p"
  by (simp add: grow_def)

lemma grow_exact [simp]: "grow n b = b" if "length b = n"
  using that by simp

lemma slice_mid [simp]:
  "i = length pre \<Longrightarrow> j = length pre + length xs \<Longrightarrow> slice i j (pre @ xs @ post) = xs"
  by (simp add: slice_def)

lemma slice_mid0 [simp]: "j = length xs \<Longrightarrow> slice 0 j (xs @ post) = xs"
  by (simp add: slice_def)

lemma length_slice [simp]: "length (slice i j xs) = min (j - i) (length xs - i)"
  by (simp add: slice_def min.commute)

lemma overwrite_mid:
  "i = length pre \<Longrightarrow> length p = length old \<Longrightarrow> overwrite i p (pre @ old @ post) = pre @ p @ post"
  by (simp add: overwrite_def)

lemma length_overwrite [simp]: "i + length p \<le> length xs \<Longrightarrow> length (overwrite i p xs) = length xs"
  by (simp add: overwrite_def)

section \<open>Lookup in a list with distinct keys\<close>

lemma find_distinct:
  "distinct (map f xs) \<Longrightarrow> (List.find (\<lambda>x. f x = k) (rev xs) = Some d) \<longleftrightarrow> d \<in> set xs \<and> f d = k"
proof -
  assume d: "distinct (map f xs)"
  show ?thesis
  proof
    assume "List.find (\<lambda>x. f x = k) (rev xs) = Some d"
    then show "d \<in> set xs \<and> f d = k" by (auto simp: find_Some_iff) (metis nth_mem set_rev length_rev)
  next
    assume a: "d \<in> set xs \<and> f d = k"
    then obtain e where e: "List.find (\<lambda>x. f x = k) (rev xs) = Some e"
      by (cases "List.find (\<lambda>x. f x = k) (rev xs)") (auto simp: find_None_iff)
    then have "e \<in> set xs \<and> f e = k" by (auto simp: find_Some_iff) (metis nth_mem set_rev length_rev)
    with a d have "e = d" by (simp add: distinct_map inj_on_def)
    with e show "List.find (\<lambda>x. f x = k) (rev xs) = Some d" by simp
  qed
qed

section \<open>Bit fields of Python integers\<close>

lemma int_and_mask: "(x :: int) AND mask n = x mod 2 ^ n"
  by (simp flip: take_bit_eq_mask add: take_bit_eq_mod)

lemma int_and_numerals [simp]:
  "(x :: int) AND 255 = x mod 256"
  "(x :: int) AND 127 = x mod 128"
  "(x :: int) AND 1 = x mod 2"
  using int_and_mask [of x 8] int_and_mask [of x 7] int_and_mask [of x 1]
  by (simp_all add: mask_eq_exp_minus_1)

text \<open>Joining a shifted field with a lower one that does not reach it is an addition.\<close>

lemma int_shift_or:
  assumes "0 \<le> l" and "l < 2 ^ k"
  shows "push_bit k n OR l = n * 2 ^ k + (l :: int)"
proof -
  have l: "l = take_bit k l" using assms by (simp add: take_bit_int_eq_self)
  have "push_bit k n AND l = 0"
    by (subst l, rule bit_eqI) (auto simp: bit_simps)
  then have "push_bit k n OR l = push_bit k n + l"
    by (simp add: disjunctive_add_eq_or)
  then show ?thesis by (simp add: push_bit_eq_mult)
qed

end
