(* ===== verification/Py_Struct.thy ===== *)
theory Py_Struct
  imports Prelude
begin

text \<open>
  Python's \<open>struct\<close> module as far as the wire code uses it (network byte order, unsigned
  integers and pad bytes; the little-endian reader of the state keys), the helper
  \<open>msg_pack_into\<close> of \<open>ryu/lib/pack_utils.py\<close> through which every message is written, and
  \<open>round_up\<close> of \<open>ryu/utils.py\<close>.
\<close>

section \<open>Unsigned integers as bytes\<close>

definition fits :: "nat \<Rightarrow> int \<Rightarrow> bool" where
  "fits n i \<longleftrightarrow> 0 \<le> i \<and> i < 256 ^ n"

fun be_bytes :: "nat \<Rightarrow> int \<Rightarrow> bytes" where
  "be_bytes 0 i = []"
| "be_bytes (Suc n) i = be_bytes n (i div 256) @ [word_of_int i]"

definition be_int :: "bytes \<Rightarrow> int" where
  "be_int bs = foldl (\<lambda>a b. a * 256 + uint b) 0 bs"

definition le_int :: "bytes \<Rightarrow> int" where
  "le_int bs = be_int (rev bs)"

lemma length_be_bytes [simp]: "length (be_bytes n i) = n"
  by (induction n arbitrary: i) auto

lemma be_int_Nil [simp]: "be_int [] = 0"
  by (simp add: be_int_def)

lemma be_int_snoc [simp]: "be_int (bs @ [b]) = be_int bs * 256 + uint b"
  by (simp add: be_int_def)

lemma be_int_single [simp]: "be_int [b] = uint b"
  by (simp add: be_int_def)

lemma fits_div: "fits (Suc n) i \<Longrightarrow> fits n (i div 256)"
  by (auto simp: fits_def)

lemma be_int_be_bytes [simp]: "fits n i \<Longrightarrow> be_int (be_bytes n i) = i"
proof (induction n arbitrary: i)
  case 0
  then show ?case by (simp add: fits_def)
next
  case (Suc n)
  from Suc.prems have "be_int (be_bytes n (i div 256)) = i div 256"
    by (intro Suc.IH fits_div)
  moreover have "uint (word_of_int i :: byte) = i mod 256"
    by (simp add: uint_word_of_int)
  ultimately show ?case by simp
qed

lemma fits_be_int: "fits (length bs) (be_int bs)"
proof (induction bs rule: rev_induct)
  case Nil
  then show ?case by (simp add: fits_def)
next
  case (snoc b bs)
  have "uint b < 256" using uint_lt2p [of b] by simp
  moreover have "0 \<le> uint b" by simp
  moreover have "be_int bs * 256 + 256 \<le> 256 ^ length bs * 256"
    using snoc by (simp add: fits_def)
  ultimately show ?case using snoc by (simp add: fits_def mult.commute)
qed

lemma be_bytes_be_int [simp]: "be_bytes (length bs) (be_int bs) = bs"
proof (induction bs rule: rev_induct)
  case Nil
  then show ?case by simp
next
  case (snoc b bs)
  have "uint b < 256" using uint_lt2p [of b] by simp
  then have d: "(be_int bs * 256 + uint b) div 256 = be_int bs" by simp
  have "word_of_int (be_int bs * 256 + uint b) = b"
  proof -
    have "(256 :: byte) = 0" by simp
    then have "word_of_int (be_int bs * 256) = (0 :: byte)"
      by (metis mult_zero_right wi_hom_mult word_of_int_numeral)
    then show ?thesis by simp
  qed
  with d snoc show ?case by simp
qed

lemma be_int_be_bytes_mod: "be_int (be_bytes n i) = i mod 256 ^ n"
proof (induction n arbitrary: i)
  case (Suc n)
  have "uint (word_of_int i :: byte) = i mod 256" by (simp add: uint_word_of_int)
  moreover have "i mod (256 * 256 ^ n) = 256 * (i div 256 mod 256 ^ n) + i mod 256"
    by (simp add: zmod_zmult2_eq)
  ultimately show ?case using Suc by simp
qed simp

lemma word_of_int_mod_256: "(word_of_int (i mod 256) :: byte) = word_of_int i"
  by (rule word_uint_eqI) (simp add: uint_word_of_int)

lemma be_int_Cons: "be_int (c # bs) = uint c * 256 ^ length bs + be_int bs"
  by (induction bs rule: rev_induct) (simp_all flip: append_Cons add: algebra_simps)

lemma fits_simps: "fits 1 i \<longleftrightarrow> 0 \<le> i \<and> i < 256" "fits 2 i \<longleftrightarrow> 0 \<le> i \<and> i < 65536"
  "fits 4 i \<longleftrightarrow> 0 \<le> i \<and> i < 4294967296" "fits 8 i \<longleftrightarrow> 0 \<le> i \<and> i < 18446744073709551616"
  by (simp_all add: fits_def)

lemma be_bytes_numeral: "be_bytes (numeral k) i = be_bytes (pred_numeral k) (i div 256) @ [word_of_int i]"
  by (simp add: numeral_eq_Suc)

section \<open>Format strings\<close>

text \<open>
  A format such as \<open>'!B3xI'\<close> is the list of its items: \<open>UInt\<close> with the width in bytes for
  \<open>B\<close>, \<open>H\<close>, \<open>I\<close>, \<open>Q\<close> and \<open>Pad\<close> for \<open>x\<close>. A \<open>struct.error\<close> is raised for a wrong number of
  arguments, for an integer outside the range of its item and for a buffer too short.
\<close>

datatype fmt_item = Pad nat | UInt nat

type_synonym fmt = "fmt_item list"

abbreviation fB :: fmt_item where "fB \<equiv> UInt 1"
abbreviation fH :: fmt_item where "fH \<equiv> UInt 2"
abbreviation fI :: fmt_item where "fI \<equiv> UInt 4"
abbreviation fQ :: fmt_item where "fQ \<equiv> UInt 8"

fun item_size :: "fmt_item \<Rightarrow> nat" where
  "item_size (Pad n) = n"
| "item_size (UInt n) = n"

definition calcsize :: "fmt \<Rightarrow> nat" where
  "calcsize f = sum_list (map item_size f)"

fun struct_pack :: "fmt \<Rightarrow> int list \<Rightarrow> bytes res" where
  "struct_pack [] [] = Inr []"
| "struct_pack [] (v # vs) = Inl StructError"
| "struct_pack (Pad n # f) vs = rbind (struct_pack f vs) (\<lambda>bs. Inr (zeros n @ bs))"
| "struct_pack (UInt n # f) [] = Inl StructError"
| "struct_pack (UInt n # f) (v # vs) =
     (if fits n v then rbind (struct_pack f vs) (\<lambda>bs. Inr (be_bytes n v @ bs))
      else Inl StructError)"

fun unpack_items :: "fmt \<Rightarrow> bytes \<Rightarrow> int list" where
  "unpack_items [] bs = []"
| "unpack_items (Pad n # f) bs = unpack_items f (drop n bs)"
| "unpack_items (UInt n # f) bs = be_int (take n bs) # unpack_items f (drop n bs)"

definition struct_unpack :: "fmt \<Rightarrow> bytes \<Rightarrow> int list res" where
  "struct_unpack f bs =
     (if length bs = calcsize f then Inr (unpack_items f bs) else Inl StructError)"

definition unpack_from :: "fmt \<Rightarrow> bytes \<Rightarrow> nat \<Rightarrow> int list res" where
  "unpack_from f buf offset =
     (if offset + calcsize f \<le> length buf
      then Inr (unpack_items f (slice offset (offset + calcsize f) buf))
      else Inl StructError)"

lemma calcsize_simps [simp]:
  "calcsize [] = 0"
  "calcsize (x # f) = item_size x + calcsize f"
  by (simp_all add: calcsize_def)

text \<open>The packable argument lists and the bytes they give.\<close>

fun packable :: "fmt \<Rightarrow> int list \<Rightarrow> bool" where
  "packable [] vs \<longleftrightarrow> vs = []"
| "packable (Pad n # f) vs \<longleftrightarrow> packable f vs"
| "packable (UInt n # f) [] \<longleftrightarrow> False"
| "packable (UInt n # f) (v # vs) \<longleftrightarrow> fits n v \<and> packable f vs"

fun packed :: "fmt \<Rightarrow> int list \<Rightarrow> bytes" where
  "packed [] vs = []"
| "packed (Pad n # f) vs = zeros n @ packed f vs"
| "packed (UInt n # f) vs = be_bytes n (hd vs) @ packed f (tl vs)"

lemma struct_pack_eq: "struct_pack f vs = (if packable f vs then Inr (packed f vs) else Inl StructError)"
  by (induction f vs rule: struct_pack.induct) auto

lemma length_packed [simp]: "length (packed f vs) = calcsize f"
  by (induction f vs rule: packed.induct) auto

lemma packed_eq_Nil [simp]: "packed f vs = [] \<longleftrightarrow> calcsize f = 0"
  by (metis length_0_conv length_packed)

lemma unpack_packed: "packable f vs \<Longrightarrow> unpack_items f (packed f vs) = vs"
  by (induction f vs rule: packable.induct) auto

lemma unpack_from_packed [simp]:
  assumes "packable f vs" and "off = length pre"
  shows "unpack_from f (pre @ packed f vs @ post) off = Inr vs"
  using assms by (simp add: unpack_from_def unpack_packed)

lemma unpack_from_packed0 [simp]:
  "packable f vs \<Longrightarrow> unpack_from f (packed f vs @ post) 0 = Inr vs"
  using unpack_from_packed [of f vs 0 "[]" post] by simp

lemma struct_unpack_packed [simp]: "packable f vs \<Longrightarrow> struct_unpack f (packed f vs) = Inr vs"
  by (simp add: struct_unpack_def unpack_packed)

lemma unpack_items_packable:
  "length bs = calcsize f \<Longrightarrow> packable f (unpack_items f bs)"
proof (induction f bs rule: unpack_items.induct)
  case (3 n f bs)
  then have "length (take n bs) = n" by simp
  then have "fits n (be_int (take n bs))" using fits_be_int [of "take n bs"] by simp
  with 3 show ?case by simp
qed auto

text \<open>Whatever is unpacked is within the width of its item.\<close>

lemma unpack_from_packable: "unpack_from f buf off = Inr vs \<Longrightarrow> packable f vs"
  by (auto simp: unpack_from_def unpack_items_packable split: if_splits)

section \<open>Writing into a message buffer\<close>

text \<open>
  \<open>msg_pack_into\<close> grows the buffer with zeros up to the offset, appends when the offset is
  the end, and otherwise writes in place after growing the buffer to the needed length. The
  code also keeps the grown buffer when the packing raises; the exception leaves the
  serialiser, so the model drops the buffer.
\<close>

definition pack_at :: "bytes \<Rightarrow> nat \<Rightarrow> bytes \<Rightarrow> bytes" where
  "pack_at p offset buf =
     (let buf1 = (if length buf < offset then grow offset buf else buf)
      in if length buf1 = offset then buf1 @ p
         else overwrite offset p (grow (offset + length p) buf1))"

definition msg_pack_into :: "fmt \<Rightarrow> bytes \<Rightarrow> nat \<Rightarrow> int list \<Rightarrow> bytes res" where
  "msg_pack_into f buf offset vs = rbind (struct_pack f vs) (\<lambda>p. Inr (pack_at p offset buf))"

text \<open>The same for a format that ends in byte strings written with their own length (\<open>%ds\<close>).\<close>

definition msg_pack_into_s :: "fmt \<Rightarrow> bytes list \<Rightarrow> bytes \<Rightarrow> nat \<Rightarrow> int list \<Rightarrow> bytes res" where
  "msg_pack_into_s f ss buf offset vs =
     rbind (struct_pack f vs) (\<lambda>p. Inr (pack_at (p @ concat ss) offset buf))"

lemma pack_at_append: "length buf \<le> offset \<Longrightarrow> pack_at p offset buf = grow offset buf @ p"
  by (auto simp: pack_at_def)

lemma pack_at_inside:
  assumes "offset = length pre" and "length p = length old" and "old \<noteq> []"
  shows "pack_at p offset (pre @ old @ post) = pre @ p @ post"
  using assms by (auto simp: pack_at_def overwrite_mid)

text \<open>A header that is written after the body it precedes.\<close>

lemma pack_at_header:
  assumes "length buf \<le> offset" and "p \<noteq> []" and "n = offset + length p"
  shows "pack_at p offset (grow n buf @ body) = grow offset buf @ p @ body"
proof -
  have "grow n buf = grow offset buf @ zeros (length p)" using assms by (simp add: grow_add)
  then show ?thesis
    using assms pack_at_inside [of offset "grow offset buf" p "zeros (length p)" body] by simp
qed

lemma length_pack_at [simp]: "length (pack_at p offset buf) = max (length buf) (offset + length p)"
  by (auto simp: pack_at_def Let_def max_def)

lemma msg_pack_into_eq:
  "msg_pack_into f buf offset vs =
     (if packable f vs then Inr (pack_at (packed f vs) offset buf) else Inl StructError)"
  by (simp add: msg_pack_into_def struct_pack_eq)

lemma msg_pack_into_s_eq:
  "msg_pack_into_s f ss buf offset vs =
     (if packable f vs then Inr (pack_at (packed f vs @ concat ss) offset buf) else Inl StructError)"
  by (simp add: msg_pack_into_s_def struct_pack_eq)

section \<open>Rounding\<close>

definition round_up :: "nat \<Rightarrow> nat \<Rightarrow> nat" where
  "round_up x y = ((x + y - 1) div y) * y"

lemma round_up_8:
  "x \<le> round_up x 8" "round_up x 8 < x + 8" "8 dvd round_up x 8"
  unfolding round_up_def by auto

lemma round_up_8_id: "8 dvd x \<Longrightarrow> round_up x 8 = x"
  unfolding round_up_def by (auto simp: dvd_def)

end
