(* ===== verification/OF13_Proto.thy ===== *)
theory OF13_Proto
  imports Py_Struct
begin

text \<open>
  The constants of \<open>ryu/ofproto/ofproto_common.py\<close> and \<open>ryu/ofproto/ofproto_v1_3.py\<close> that the
  modelled code uses: message, action and instruction types, and the layout of the wire
  structures. A \<open>PACK_STR\<close> is the list of its items; the size lemmas are the module's own
  \<open>assert calcsize(...)\<close> statements.
\<close>

section \<open>Common header\<close>

definition OFP_HEADER_PACK_STR :: fmt where [fmt_defs]: "OFP_HEADER_PACK_STR = [fB, fB, fH, fI]"
definition OFP_HEADER_SIZE :: nat where [simp]: "OFP_HEADER_SIZE = 8"
lemma calcsize_OFP_HEADER_PACK_STR [simp]: "calcsize OFP_HEADER_PACK_STR = OFP_HEADER_SIZE"
  by (simp add: fmt_defs)

definition NX_EXPERIMENTER_ID :: int where [simp]: "NX_EXPERIMENTER_ID = 8992"
definition ONF_EXPERIMENTER_ID :: int where [simp]: "ONF_EXPERIMENTER_ID = 1330529792"
definition BEBA_EXPERIMENTER_ID :: int where [simp]: "BEBA_EXPERIMENTER_ID = 3199909562"

section \<open>Message types\<close>

definition OFP_VERSION :: int where [simp]: "OFP_VERSION = 4"
definition MAX_XID :: int where [simp]: "MAX_XID = 4294967295"
definition OFP_NO_BUFFER :: int where [simp]: "OFP_NO_BUFFER = 4294967295"
definition OFPT_HELLO :: int where [simp]: "OFPT_HELLO = 0"
definition OFPT_ERROR :: int where [simp]: "OFPT_ERROR = 1"
definition OFPT_ECHO_REQUEST :: int where [simp]: "OFPT_ECHO_REQUEST = 2"
definition OFPT_ECHO_REPLY :: int where [simp]: "OFPT_ECHO_REPLY = 3"
definition OFPT_EXPERIMENTER :: int where [simp]: "OFPT_EXPERIMENTER = 4"
definition OFPT_FEATURES_REQUEST :: int where [simp]: "OFPT_FEATURES_REQUEST = 5"
definition OFPT_FEATURES_REPLY :: int where [simp]: "OFPT_FEATURES_REPLY = 6"
definition OFPT_GET_CONFIG_REQUEST :: int where [simp]: "OFPT_GET_CONFIG_REQUEST = 7"
definition OFPT_GET_CONFIG_REPLY :: int where [simp]: "OFPT_GET_CONFIG_REPLY = 8"
definition OFPT_SET_CONFIG :: int where [simp]: "OFPT_SET_CONFIG = 9"
definition OFPT_PACKET_IN :: int where [simp]: "OFPT_PACKET_IN = 10"
definition OFPT_FLOW_REMOVED :: int where [simp]: "OFPT_FLOW_REMOVED = 11"
definition OFPT_PORT_STATUS :: int where [simp]: "OFPT_PORT_STATUS = 12"
definition OFPT_PACKET_OUT :: int where [simp]: "OFPT_PACKET_OUT = 13"
definition OFPT_FLOW_MOD :: int where [simp]: "OFPT_FLOW_MOD = 14"
definition OFPT_GROUP_MOD :: int where [simp]: "OFPT_GROUP_MOD = 15"
definition OFPT_PORT_MOD :: int where [simp]: "OFPT_PORT_MOD = 16"
definition OFPT_TABLE_MOD :: int where [simp]: "OFPT_TABLE_MOD = 17"
definition OFPT_MULTIPART_REQUEST :: int where [simp]: "OFPT_MULTIPART_REQUEST = 18"
definition OFPT_MULTIPART_REPLY :: int where [simp]: "OFPT_MULTIPART_REPLY = 19"
definition OFPT_BARRIER_REQUEST :: int where [simp]: "OFPT_BARRIER_REQUEST = 20"
definition OFPT_BARRIER_REPLY :: int where [simp]: "OFPT_BARRIER_REPLY = 21"
definition OFPT_ROLE_REQUEST :: int where [simp]: "OFPT_ROLE_REQUEST = 24"
definition OFPT_ROLE_REPLY :: int where [simp]: "OFPT_ROLE_REPLY = 25"

section \<open>Match and OXM\<close>

definition OFPMT_OXM :: int where [simp]: "OFPMT_OXM = 1"
definition OFPXMC_NXM_0 :: int where [simp]: "OFPXMC_NXM_0 = 0"
definition OFPXMC_NXM_1 :: int where [simp]: "OFPXMC_NXM_1 = 1"
definition OFPXMC_OPENFLOW_BASIC :: int where [simp]: "OFPXMC_OPENFLOW_BASIC = 32768"
definition OFPXMC_EXPERIMENTER :: int where [simp]: "OFPXMC_EXPERIMENTER = 65535"
definition OFP_MATCH_SIZE :: nat where [simp]: "OFP_MATCH_SIZE = 8"

section \<open>Instructions\<close>

definition OFPIT_GOTO_TABLE :: int where [simp]: "OFPIT_GOTO_TABLE = 1"
definition OFPIT_WRITE_METADATA :: int where [simp]: "OFPIT_WRITE_METADATA = 2"
definition OFPIT_WRITE_ACTIONS :: int where [simp]: "OFPIT_WRITE_ACTIONS = 3"
definition OFPIT_APPLY_ACTIONS :: int where [simp]: "OFPIT_APPLY_ACTIONS = 4"
definition OFPIT_CLEAR_ACTIONS :: int where [simp]: "OFPIT_CLEAR_ACTIONS = 5"
definition OFPIT_METER :: int where [simp]: "OFPIT_METER = 6"
definition OFPIT_EXPERIMENTER :: int where [simp]: "OFPIT_EXPERIMENTER = 65535"
definition OFP_INSTRUCTION_GOTO_TABLE_PACK_STR :: fmt where [fmt_defs]: "OFP_INSTRUCTION_GOTO_TABLE_PACK_STR = [fH, fH, fB, Pad 3]"
definition OFP_INSTRUCTION_GOTO_TABLE_SIZE :: nat where [simp]: "OFP_INSTRUCTION_GOTO_TABLE_SIZE = 8"
lemma calcsize_OFP_INSTRUCTION_GOTO_TABLE_PACK_STR [simp]: "calcsize OFP_INSTRUCTION_GOTO_TABLE_PACK_STR = OFP_INSTRUCTION_GOTO_TABLE_SIZE"
  by (simp add: fmt_defs)

definition OFP_INSTRUCTION_WRITE_METADATA_PACK_STR :: fmt where [fmt_defs]: "OFP_INSTRUCTION_WRITE_METADATA_PACK_STR = [fH, fH, Pad 4, fQ, fQ]"
definition OFP_INSTRUCTION_WRITE_METADATA_SIZE :: nat where [simp]: "OFP_INSTRUCTION_WRITE_METADATA_SIZE = 24"
lemma calcsize_OFP_INSTRUCTION_WRITE_METADATA_PACK_STR [simp]: "calcsize OFP_INSTRUCTION_WRITE_METADATA_PACK_STR = OFP_INSTRUCTION_WRITE_METADATA_SIZE"
  by (simp add: fmt_defs)

definition OFP_INSTRUCTION_ACTIONS_PACK_STR :: fmt where [fmt_defs]: "OFP_INSTRUCTION_ACTIONS_PACK_STR = [fH, fH, Pad 4]"
definition OFP_INSTRUCTION_ACTIONS_SIZE :: nat where [simp]: "OFP_INSTRUCTION_ACTIONS_SIZE = 8"
lemma calcsize_OFP_INSTRUCTION_ACTIONS_PACK_STR [simp]: "calcsize OFP_INSTRUCTION_ACTIONS_PACK_STR = OFP_INSTRUCTION_ACTIONS_SIZE"
  by (simp add: fmt_defs)

definition OFP_INSTRUCTION_METER_PACK_STR :: fmt where [fmt_defs]: "OFP_INSTRUCTION_METER_PACK_STR = [fH, fH, fI]"
definition OFP_INSTRUCTION_METER_SIZE :: nat where [simp]: "OFP_INSTRUCTION_METER_SIZE = 8"
lemma calcsize_OFP_INSTRUCTION_METER_PACK_STR [simp]: "calcsize OFP_INSTRUCTION_METER_PACK_STR = OFP_INSTRUCTION_METER_SIZE"
  by (simp add: fmt_defs)


section \<open>Actions\<close>

definition OFPAT_OUTPUT :: int where [simp]: "OFPAT_OUTPUT = 0"
definition OFPAT_COPY_TTL_OUT :: int where [simp]: "OFPAT_COPY_TTL_OUT = 11"
definition OFPAT_COPY_TTL_IN :: int where [simp]: "OFPAT_COPY_TTL_IN = 12"
definition OFPAT_SET_MPLS_TTL :: int where [simp]: "OFPAT_SET_MPLS_TTL = 15"
definition OFPAT_DEC_MPLS_TTL :: int where [simp]: "OFPAT_DEC_MPLS_TTL = 16"
definition OFPAT_PUSH_VLAN :: int where [simp]: "OFPAT_PUSH_VLAN = 17"
definition OFPAT_POP_VLAN :: int where [simp]: "OFPAT_POP_VLAN = 18"
definition OFPAT_PUSH_MPLS :: int where [simp]: "OFPAT_PUSH_MPLS = 19"
definition OFPAT_POP_MPLS :: int where [simp]: "OFPAT_POP_MPLS = 20"
definition OFPAT_SET_QUEUE :: int where [simp]: "OFPAT_SET_QUEUE = 21"
definition OFPAT_GROUP :: int where [simp]: "OFPAT_GROUP = 22"
definition OFPAT_SET_NW_TTL :: int where [simp]: "OFPAT_SET_NW_TTL = 23"
definition OFPAT_DEC_NW_TTL :: int where [simp]: "OFPAT_DEC_NW_TTL = 24"
definition OFPAT_SET_FIELD :: int where [simp]: "OFPAT_SET_FIELD = 25"
definition OFPAT_PUSH_PBB :: int where [simp]: "OFPAT_PUSH_PBB = 26"
definition OFPAT_POP_PBB :: int where [simp]: "OFPAT_POP_PBB = 27"
definition OFPAT_EXPERIMENTER :: int where [simp]: "OFPAT_EXPERIMENTER = 65535"
definition OFP_ACTION_HEADER_PACK_STR :: fmt where [fmt_defs]: "OFP_ACTION_HEADER_PACK_STR = [fH, fH, Pad 4]"
definition OFP_ACTION_HEADER_SIZE :: nat where [simp]: "OFP_ACTION_HEADER_SIZE = 8"
lemma calcsize_OFP_ACTION_HEADER_PACK_STR [simp]: "calcsize OFP_ACTION_HEADER_PACK_STR = OFP_ACTION_HEADER_SIZE"
  by (simp add: fmt_defs)

definition OFP_ACTION_OUTPUT_PACK_STR :: fmt where [fmt_defs]: "OFP_ACTION_OUTPUT_PACK_STR = [fH, fH, fI, fH, Pad 6]"
definition OFP_ACTION_OUTPUT_SIZE :: nat where [simp]: "OFP_ACTION_OUTPUT_SIZE = 16"
lemma calcsize_OFP_ACTION_OUTPUT_PACK_STR [simp]: "calcsize OFP_ACTION_OUTPUT_PACK_STR = OFP_ACTION_OUTPUT_SIZE"
  by (simp add: fmt_defs)

definition OFP_ACTION_GROUP_PACK_STR :: fmt where [fmt_defs]: "OFP_ACTION_GROUP_PACK_STR = [fH, fH, fI]"
definition OFP_ACTION_GROUP_SIZE :: nat where [simp]: "OFP_ACTION_GROUP_SIZE = 8"
lemma calcsize_OFP_ACTION_GROUP_PACK_STR [simp]: "calcsize OFP_ACTION_GROUP_PACK_STR = OFP_ACTION_GROUP_SIZE"
  by (simp add: fmt_defs)

definition OFP_ACTION_SET_QUEUE_PACK_STR :: fmt where [fmt_defs]: "OFP_ACTION_SET_QUEUE_PACK_STR = [fH, fH, fI]"
definition OFP_ACTION_SET_QUEUE_SIZE :: nat where [simp]: "OFP_ACTION_SET_QUEUE_SIZE = 8"
lemma calcsize_OFP_ACTION_SET_QUEUE_PACK_STR [simp]: "calcsize OFP_ACTION_SET_QUEUE_PACK_STR = OFP_ACTION_SET_QUEUE_SIZE"
  by (simp add: fmt_defs)

definition OFP_ACTION_MPLS_TTL_PACK_STR :: fmt where [fmt_defs]: "OFP_ACTION_MPLS_TTL_PACK_STR = [fH, fH, fB, Pad 3]"
definition OFP_ACTION_MPLS_TTL_SIZE :: nat where [simp]: "OFP_ACTION_MPLS_TTL_SIZE = 8"
lemma calcsize_OFP_ACTION_MPLS_TTL_PACK_STR [simp]: "calcsize OFP_ACTION_MPLS_TTL_PACK_STR = OFP_ACTION_MPLS_TTL_SIZE"
  by (simp add: fmt_defs)

definition OFP_ACTION_NW_TTL_PACK_STR :: fmt where [fmt_defs]: "OFP_ACTION_NW_TTL_PACK_STR = [fH, fH, fB, Pad 3]"
definition OFP_ACTION_NW_TTL_SIZE :: nat where [simp]: "OFP_ACTION_NW_TTL_SIZE = 8"
lemma calcsize_OFP_ACTION_NW_TTL_PACK_STR [simp]: "calcsize OFP_ACTION_NW_TTL_PACK_STR = OFP_ACTION_NW_TTL_SIZE"
  by (simp add: fmt_defs)

definition OFP_ACTION_PUSH_PACK_STR :: fmt where [fmt_defs]: "OFP_ACTION_PUSH_PACK_STR = [fH, fH, fH, Pad 2]"
definition OFP_ACTION_PUSH_SIZE :: nat where [simp]: "OFP_ACTION_PUSH_SIZE = 8"
lemma calcsize_OFP_ACTION_PUSH_PACK_STR [simp]: "calcsize OFP_ACTION_PUSH_PACK_STR = OFP_ACTION_PUSH_SIZE"
  by (simp add: fmt_defs)

definition OFP_ACTION_POP_MPLS_PACK_STR :: fmt where [fmt_defs]: "OFP_ACTION_POP_MPLS_PACK_STR = [fH, fH, fH, Pad 2]"
definition OFP_ACTION_POP_MPLS_SIZE :: nat where [simp]: "OFP_ACTION_POP_MPLS_SIZE = 8"
lemma calcsize_OFP_ACTION_POP_MPLS_PACK_STR [simp]: "calcsize OFP_ACTION_POP_MPLS_PACK_STR = OFP_ACTION_POP_MPLS_SIZE"
  by (simp add: fmt_defs)

definition OFP_ACTION_SET_FIELD_PACK_STR :: fmt where [fmt_defs]: "OFP_ACTION_SET_FIELD_PACK_STR = [fH, fH, Pad 4]"
definition OFP_ACTION_SET_FIELD_SIZE :: nat where [simp]: "OFP_ACTION_SET_FIELD_SIZE = 8"
lemma calcsize_OFP_ACTION_SET_FIELD_PACK_STR [simp]: "calcsize OFP_ACTION_SET_FIELD_PACK_STR = OFP_ACTION_SET_FIELD_SIZE"
  by (simp add: fmt_defs)

definition OFP_ACTION_EXPERIMENTER_HEADER_PACK_STR :: fmt where [fmt_defs]: "OFP_ACTION_EXPERIMENTER_HEADER_PACK_STR = [fH, fH, fI]"
definition OFP_ACTION_EXPERIMENTER_HEADER_SIZE :: nat where [simp]: "OFP_ACTION_EXPERIMENTER_HEADER_SIZE = 8"
lemma calcsize_OFP_ACTION_EXPERIMENTER_HEADER_PACK_STR [simp]: "calcsize OFP_ACTION_EXPERIMENTER_HEADER_PACK_STR = OFP_ACTION_EXPERIMENTER_HEADER_SIZE"
  by (simp add: fmt_defs)


section \<open>Flow and group modification\<close>

definition OFP_FLOW_MOD_PACK_STR0 :: fmt where [fmt_defs]: "OFP_FLOW_MOD_PACK_STR0 = [fQ, fQ, fB, fB, fH, fH, fH, fI, fI, fI, fH, Pad 2]"
definition OFP_FLOW_MOD_SIZE :: nat where [simp]: "OFP_FLOW_MOD_SIZE = 56"
lemma calcsize_OFP_FLOW_MOD_PACK_STR0 [simp]:
  "calcsize OFP_FLOW_MOD_PACK_STR0 = OFP_FLOW_MOD_SIZE - OFP_MATCH_SIZE - OFP_HEADER_SIZE"
  by (simp add: fmt_defs)

definition OFPFC_ADD :: int where [simp]: "OFPFC_ADD = 0"
definition OFPFC_DELETE :: int where [simp]: "OFPFC_DELETE = 3"
definition OFP_DEFAULT_PRIORITY :: int where [simp]: "OFP_DEFAULT_PRIORITY = 32768"
definition OFPG_ANY :: int where [simp]: "OFPG_ANY = 4294967295"
definition OFPTT_ALL :: int where [simp]: "OFPTT_ALL = 255"
definition OFPP_ANY :: int where [simp]: "OFPP_ANY = 4294967295"
definition OFP_GROUP_MOD_PACK_STR :: fmt where [fmt_defs]: "OFP_GROUP_MOD_PACK_STR = [fH, fB, Pad 1, fI]"
definition OFP_GROUP_MOD_SIZE :: nat where [simp]: "OFP_GROUP_MOD_SIZE = 16"
lemma calcsize_OFP_GROUP_MOD_PACK_STR [simp]: "calcsize OFP_GROUP_MOD_PACK_STR = OFP_GROUP_MOD_SIZE - OFP_HEADER_SIZE"
  by (simp add: fmt_defs)

definition OFP_BUCKET_PACK_STR :: fmt where [fmt_defs]: "OFP_BUCKET_PACK_STR = [fH, fH, fI, fI, Pad 4]"
definition OFP_BUCKET_SIZE :: nat where [simp]: "OFP_BUCKET_SIZE = 16"
lemma calcsize_OFP_BUCKET_PACK_STR [simp]: "calcsize OFP_BUCKET_PACK_STR = OFP_BUCKET_SIZE"
  by (simp add: fmt_defs)


section \<open>Switch features, configuration and packets\<close>

definition OFP_SWITCH_FEATURES_PACK_STR :: fmt where [fmt_defs]: "OFP_SWITCH_FEATURES_PACK_STR = [fQ, fI, fB, fB, Pad 2, fI, fI]"
definition OFP_SWITCH_FEATURES_SIZE :: nat where [simp]: "OFP_SWITCH_FEATURES_SIZE = 32"
lemma calcsize_OFP_SWITCH_FEATURES_PACK_STR [simp]: "calcsize OFP_SWITCH_FEATURES_PACK_STR = OFP_SWITCH_FEATURES_SIZE - OFP_HEADER_SIZE"
  by (simp add: fmt_defs)

definition OFP_SWITCH_CONFIG_PACK_STR :: fmt where [fmt_defs]: "OFP_SWITCH_CONFIG_PACK_STR = [fH, fH]"
definition OFP_SWITCH_CONFIG_SIZE :: nat where [simp]: "OFP_SWITCH_CONFIG_SIZE = 12"
lemma calcsize_OFP_SWITCH_CONFIG_PACK_STR [simp]: "calcsize OFP_SWITCH_CONFIG_PACK_STR = OFP_SWITCH_CONFIG_SIZE - OFP_HEADER_SIZE"
  by (simp add: fmt_defs)

definition OFP_TABLE_MOD_PACK_STR :: fmt where [fmt_defs]: "OFP_TABLE_MOD_PACK_STR = [fB, Pad 3, fI]"
definition OFP_TABLE_MOD_SIZE :: nat where [simp]: "OFP_TABLE_MOD_SIZE = 16"
lemma calcsize_OFP_TABLE_MOD_PACK_STR [simp]: "calcsize OFP_TABLE_MOD_PACK_STR = OFP_TABLE_MOD_SIZE - OFP_HEADER_SIZE"
  by (simp add: fmt_defs)

definition OFP_PACKET_OUT_PACK_STR :: fmt where [fmt_defs]: "OFP_PACKET_OUT_PACK_STR = [fI, fI, fH, Pad 6]"
definition OFP_PACKET_OUT_SIZE :: nat where [simp]: "OFP_PACKET_OUT_SIZE = 24"
lemma calcsize_OFP_PACKET_OUT_PACK_STR [simp]: "calcsize OFP_PACKET_OUT_PACK_STR = OFP_PACKET_OUT_SIZE - OFP_HEADER_SIZE"
  by (simp add: fmt_defs)

definition OFP_ROLE_REQUEST_PACK_STR :: fmt where [fmt_defs]: "OFP_ROLE_REQUEST_PACK_STR = [fI, Pad 4, fQ]"
definition OFP_ROLE_REQUEST_SIZE :: nat where [simp]: "OFP_ROLE_REQUEST_SIZE = 24"
lemma calcsize_OFP_ROLE_REQUEST_PACK_STR [simp]: "calcsize OFP_ROLE_REQUEST_PACK_STR = OFP_ROLE_REQUEST_SIZE - OFP_HEADER_SIZE"
  by (simp add: fmt_defs)

definition OFP_PACKET_IN_PACK_STR :: fmt where [fmt_defs]: "OFP_PACKET_IN_PACK_STR = [fI, fH, fB, fB, fQ]"
definition OFP_PACKET_IN_SIZE :: nat where [simp]: "OFP_PACKET_IN_SIZE = 32"
definition OFP_FLOW_REMOVED_PACK_STR0 :: fmt where [fmt_defs]: "OFP_FLOW_REMOVED_PACK_STR0 = [fQ, fH, fB, fB, fI, fI, fH, fH, fQ, fQ]"
definition OFP_FLOW_REMOVED_SIZE :: nat where [simp]: "OFP_FLOW_REMOVED_SIZE = 56"
text \<open>The byte strings \<open>6s\<close> and \<open>16s\<close> of a port are read as integers of their width.\<close>

definition OFP_PORT_PACK_STR :: fmt where [fmt_defs]:
  "OFP_PORT_PACK_STR = [fI, Pad 4, UInt 6, Pad 2, UInt 16, fI, fI, fI, fI, fI, fI, fI, fI]"

definition OFP_PORT_SIZE :: nat where [simp]: "OFP_PORT_SIZE = 64"
definition OFP_PORT_STATUS_PACK_STR :: fmt where [fmt_defs]:
  "OFP_PORT_STATUS_PACK_STR = [fB, Pad 7] @ OFP_PORT_PACK_STR"

definition OFP_PORT_STATUS_DESC_OFFSET :: nat where [simp]: "OFP_PORT_STATUS_DESC_OFFSET = 16"

section \<open>Multipart, error, experimenter and hello messages\<close>

definition OFP_MULTIPART_REQUEST_PACK_STR :: fmt where [fmt_defs]: "OFP_MULTIPART_REQUEST_PACK_STR = [fH, fH, Pad 4]"
definition OFP_MULTIPART_REQUEST_SIZE :: nat where [simp]: "OFP_MULTIPART_REQUEST_SIZE = 16"
lemma calcsize_OFP_MULTIPART_REQUEST_PACK_STR [simp]: "calcsize OFP_MULTIPART_REQUEST_PACK_STR = OFP_MULTIPART_REQUEST_SIZE - OFP_HEADER_SIZE"
  by (simp add: fmt_defs)

definition OFP_MULTIPART_REPLY_PACK_STR :: fmt where [fmt_defs]: "OFP_MULTIPART_REPLY_PACK_STR = [fH, fH, Pad 4]"
definition OFP_MULTIPART_REPLY_SIZE :: nat where [simp]: "OFP_MULTIPART_REPLY_SIZE = 16"
lemma calcsize_OFP_MULTIPART_REPLY_PACK_STR [simp]: "calcsize OFP_MULTIPART_REPLY_PACK_STR = OFP_MULTIPART_REPLY_SIZE - OFP_HEADER_SIZE"
  by (simp add: fmt_defs)

definition OFPMPF_REPLY_MORE :: int where [simp]: "OFPMPF_REPLY_MORE = 1"
definition OFPMP_PORT_DESC :: int where [simp]: "OFPMP_PORT_DESC = 13"
definition OFPMP_EXPERIMENTER :: int where [simp]: "OFPMP_EXPERIMENTER = 65535"
definition OFP_METER_FEATURES_SIZE :: nat where [simp]: "OFP_METER_FEATURES_SIZE = 16"
definition OFP_EXPERIMENTER_MULTIPART_HEADER_PACK_STR :: fmt where [fmt_defs]: "OFP_EXPERIMENTER_MULTIPART_HEADER_PACK_STR = [fI, fI]"
definition OFP_EXPERIMENTER_MULTIPART_HEADER_SIZE :: nat where [simp]: "OFP_EXPERIMENTER_MULTIPART_HEADER_SIZE = 8"
lemma calcsize_OFP_EXPERIMENTER_MULTIPART_HEADER_PACK_STR [simp]: "calcsize OFP_EXPERIMENTER_MULTIPART_HEADER_PACK_STR = OFP_EXPERIMENTER_MULTIPART_HEADER_SIZE"
  by (simp add: fmt_defs)

definition OFP_ERROR_MSG_PACK_STR :: fmt where [fmt_defs]: "OFP_ERROR_MSG_PACK_STR = [fH, fH]"
definition OFP_ERROR_MSG_SIZE :: nat where [simp]: "OFP_ERROR_MSG_SIZE = 12"
lemma calcsize_OFP_ERROR_MSG_PACK_STR [simp]: "calcsize OFP_ERROR_MSG_PACK_STR = OFP_ERROR_MSG_SIZE - OFP_HEADER_SIZE"
  by (simp add: fmt_defs)

definition OFP_ERROR_EXPERIMENTER_MSG_PACK_STR :: fmt where [fmt_defs]: "OFP_ERROR_EXPERIMENTER_MSG_PACK_STR = [fH, fH, fI]"
definition OFP_ERROR_EXPERIMENTER_MSG_SIZE :: nat where [simp]: "OFP_ERROR_EXPERIMENTER_MSG_SIZE = 16"
lemma calcsize_OFP_ERROR_EXPERIMENTER_MSG_PACK_STR [simp]: "calcsize OFP_ERROR_EXPERIMENTER_MSG_PACK_STR = OFP_ERROR_EXPERIMENTER_MSG_SIZE - OFP_HEADER_SIZE"
  by (simp add: fmt_defs)

definition OFPET_HELLO_FAILED :: int where [simp]: "OFPET_HELLO_FAILED = 0"
definition OFPET_EXPERIMENTER :: int where [simp]: "OFPET_EXPERIMENTER = 65535"
definition OFPHFC_INCOMPATIBLE :: int where [simp]: "OFPHFC_INCOMPATIBLE = 0"
definition OFP_EXPERIMENTER_HEADER_PACK_STR :: fmt where [fmt_defs]: "OFP_EXPERIMENTER_HEADER_PACK_STR = [fI, fI]"
definition OFP_EXPERIMENTER_HEADER_SIZE :: nat where [simp]: "OFP_EXPERIMENTER_HEADER_SIZE = 16"
lemma calcsize_OFP_EXPERIMENTER_HEADER_PACK_STR [simp]: "calcsize OFP_EXPERIMENTER_HEADER_PACK_STR = OFP_EXPERIMENTER_HEADER_SIZE - OFP_HEADER_SIZE"
  by (simp add: fmt_defs)

definition OFP_HELLO_HEADER_SIZE :: nat where [simp]: "OFP_HELLO_HEADER_SIZE = 8"
definition OFPHET_VERSIONBITMAP :: int where [simp]: "OFPHET_VERSIONBITMAP = 1"
definition OFP_HELLO_ELEM_HEADER_PACK_STR :: fmt where [fmt_defs]: "OFP_HELLO_ELEM_HEADER_PACK_STR = [fH, fH]"
definition OFP_HELLO_ELEM_HEADER_SIZE :: nat where [simp]: "OFP_HELLO_ELEM_HEADER_SIZE = 4"
lemma calcsize_OFP_HELLO_ELEM_HEADER_PACK_STR [simp]: "calcsize OFP_HELLO_ELEM_HEADER_PACK_STR = OFP_HELLO_ELEM_HEADER_SIZE"
  by (simp add: fmt_defs)

definition OFP_HELLO_ELEM_VERSIONBITMAP_HEADER_PACK_STR :: fmt where [fmt_defs]: "OFP_HELLO_ELEM_VERSIONBITMAP_HEADER_PACK_STR = [fH, fH]"
definition OFP_HELLO_ELEM_VERSIONBITMAP_HEADER_SIZE :: nat where [simp]: "OFP_HELLO_ELEM_VERSIONBITMAP_HEADER_SIZE = 4"
lemma calcsize_OFP_HELLO_ELEM_VERSIONBITMAP_HEADER_PACK_STR [simp]: "calcsize OFP_HELLO_ELEM_VERSIONBITMAP_HEADER_PACK_STR = OFP_HELLO_ELEM_VERSIONBITMAP_HEADER_SIZE"
  by (simp add: fmt_defs)


end
