(* ===== verification/Beba_Proto.thy ===== *)
theory Beba_Proto
  imports OF13_Proto
begin

text \<open>
  The constants of \<open>ryu/ofproto/beba_v1_0.py\<close>: the BEBA experimenter messages, state
  modification commands, actions, statistics types and the layout of their structures.
\<close>

section \<open>Structures\<close>

definition OFP_EXP_STATE_MOD_PACK_STR :: fmt where [fmt_defs]: "OFP_EXP_STATE_MOD_PACK_STR = [fB, Pad 1]"
lemma calcsize_OFP_EXP_STATE_MOD_PACK_STR [simp]: "calcsize OFP_EXP_STATE_MOD_PACK_STR = 2"
  by (simp add: fmt_defs)

definition OFP_EXP_STATE_MOD_STATEFUL_TABLE_CONFIG_PACK_STR :: fmt where [fmt_defs]: "OFP_EXP_STATE_MOD_STATEFUL_TABLE_CONFIG_PACK_STR = [fB, fB]"
definition OFP_EXP_STATE_MOD_STATEFUL_TABLE_CONFIG_SIZE :: nat where [simp]: "OFP_EXP_STATE_MOD_STATEFUL_TABLE_CONFIG_SIZE = 2"
lemma calcsize_OFP_EXP_STATE_MOD_STATEFUL_TABLE_CONFIG_PACK_STR [simp]: "calcsize OFP_EXP_STATE_MOD_STATEFUL_TABLE_CONFIG_PACK_STR = OFP_EXP_STATE_MOD_STATEFUL_TABLE_CONFIG_SIZE"
  by (simp add: fmt_defs)

definition MAX_FIELD_COUNT :: nat where [simp]: "MAX_FIELD_COUNT = 6"
definition OFP_EXP_STATE_MOD_EXTRACTOR_PACK_STR :: fmt where [fmt_defs]: "OFP_EXP_STATE_MOD_EXTRACTOR_PACK_STR = [fB, Pad 3, fB, Pad 3, fI]"
definition OFP_EXP_STATE_MOD_EXTRACTOR_SIZE :: nat where [simp]: "OFP_EXP_STATE_MOD_EXTRACTOR_SIZE = 12"
lemma calcsize_OFP_EXP_STATE_MOD_EXTRACTOR_PACK_STR [simp]: "calcsize OFP_EXP_STATE_MOD_EXTRACTOR_PACK_STR = OFP_EXP_STATE_MOD_EXTRACTOR_SIZE"
  by (simp add: fmt_defs)

definition MAX_KEY_LEN :: nat where [simp]: "MAX_KEY_LEN = 48"
definition OFP_EXP_STATE_MOD_SET_FLOW_STATE_PACK_STR :: fmt where [fmt_defs]: "OFP_EXP_STATE_MOD_SET_FLOW_STATE_PACK_STR = [fB, Pad 3, fI, fI, fI, fI, fI, fI, fI]"
definition OFP_EXP_STATE_MOD_SET_FLOW_ENTRY_SIZE :: nat where [simp]: "OFP_EXP_STATE_MOD_SET_FLOW_ENTRY_SIZE = 32"
lemma calcsize_OFP_EXP_STATE_MOD_SET_FLOW_STATE_PACK_STR [simp]: "calcsize OFP_EXP_STATE_MOD_SET_FLOW_STATE_PACK_STR = OFP_EXP_STATE_MOD_SET_FLOW_ENTRY_SIZE"
  by (simp add: fmt_defs)

definition OFP_EXP_STATE_MOD_DEL_FLOW_STATE_PACK_STR :: fmt where [fmt_defs]: "OFP_EXP_STATE_MOD_DEL_FLOW_STATE_PACK_STR = [fB, Pad 3, fI]"
definition OFP_EXP_STATE_MOD_DEL_FLOW_ENTRY_SIZE :: nat where [simp]: "OFP_EXP_STATE_MOD_DEL_FLOW_ENTRY_SIZE = 8"
lemma calcsize_OFP_EXP_STATE_MOD_DEL_FLOW_STATE_PACK_STR [simp]: "calcsize OFP_EXP_STATE_MOD_DEL_FLOW_STATE_PACK_STR = OFP_EXP_STATE_MOD_DEL_FLOW_ENTRY_SIZE"
  by (simp add: fmt_defs)

definition OFP_EXP_STATE_MOD_SET_GLOBAL_STATE_PACK_STR :: fmt where [fmt_defs]: "OFP_EXP_STATE_MOD_SET_GLOBAL_STATE_PACK_STR = [fI, fI]"
definition OFP_EXP_STATE_MOD_SET_GLOBAL_ENTRY_SIZE :: nat where [simp]: "OFP_EXP_STATE_MOD_SET_GLOBAL_ENTRY_SIZE = 8"
lemma calcsize_OFP_EXP_STATE_MOD_SET_GLOBAL_STATE_PACK_STR [simp]: "calcsize OFP_EXP_STATE_MOD_SET_GLOBAL_STATE_PACK_STR = OFP_EXP_STATE_MOD_SET_GLOBAL_ENTRY_SIZE"
  by (simp add: fmt_defs)

definition OFP_EXP_ACTION_SET_STATE_PACK_STR :: fmt where [fmt_defs]: "OFP_EXP_ACTION_SET_STATE_PACK_STR = [fI, Pad 4, fI, fI, fB, Pad 3, fI, fI, fI, fI, fB, Pad 3]"
definition OFP_EXP_ACTION_SET_STATE_SIZE :: nat where [simp]: "OFP_EXP_ACTION_SET_STATE_SIZE = 40"
lemma calcsize_OFP_EXP_ACTION_SET_STATE_PACK_STR [simp]: "calcsize OFP_EXP_ACTION_SET_STATE_PACK_STR = OFP_EXP_ACTION_SET_STATE_SIZE"
  by (simp add: fmt_defs)

definition OFP_EXP_ACTION_SET_GLOBAL_STATE_PACK_STR :: fmt where [fmt_defs]: "OFP_EXP_ACTION_SET_GLOBAL_STATE_PACK_STR = [fI, Pad 4, fI, fI]"
definition OFP_EXP_ACTION_SET_GLOBAL_STATE_SIZE :: nat where [simp]: "OFP_EXP_ACTION_SET_GLOBAL_STATE_SIZE = 16"
lemma calcsize_OFP_EXP_ACTION_SET_GLOBAL_STATE_PACK_STR [simp]: "calcsize OFP_EXP_ACTION_SET_GLOBAL_STATE_PACK_STR = OFP_EXP_ACTION_SET_GLOBAL_STATE_SIZE"
  by (simp add: fmt_defs)

definition OFP_EXP_ACTION_INC_STATE_PACK_STR :: fmt where [fmt_defs]: "OFP_EXP_ACTION_INC_STATE_PACK_STR = [fI, Pad 4, fB, Pad 7]"
definition OFP_EXP_ACTION_INC_STATE_SIZE :: nat where [simp]: "OFP_EXP_ACTION_INC_STATE_SIZE = 16"
lemma calcsize_OFP_EXP_ACTION_INC_STATE_PACK_STR [simp]: "calcsize OFP_EXP_ACTION_INC_STATE_PACK_STR = OFP_EXP_ACTION_INC_STATE_SIZE"
  by (simp add: fmt_defs)

definition OFP_STATE_STATS_REQUEST_0_PACK_STR :: fmt where [fmt_defs]: "OFP_STATE_STATS_REQUEST_0_PACK_STR = [fB, fB, Pad 2, fI]"
definition OFP_STATE_STATS_REQUEST_0_SIZE :: nat where [simp]: "OFP_STATE_STATS_REQUEST_0_SIZE = 8"
lemma calcsize_OFP_STATE_STATS_REQUEST_0_PACK_STR [simp]: "calcsize OFP_STATE_STATS_REQUEST_0_PACK_STR = OFP_STATE_STATS_REQUEST_0_SIZE"
  by (simp add: fmt_defs)

definition OFP_STATE_STATS_PACK_STR :: fmt where [fmt_defs]: "OFP_STATE_STATS_PACK_STR = [fH, fB, fB, fI, fI, fI, fI, fI, fI, fI]"
definition OFP_STATE_STATS_SIZE :: nat where [simp]: "OFP_STATE_STATS_SIZE = 32"
lemma calcsize_OFP_STATE_STATS_PACK_STR [simp]: "calcsize OFP_STATE_STATS_PACK_STR = OFP_STATE_STATS_SIZE"
  by (simp add: fmt_defs)

definition OFP_STATE_STATS_SHORT_PACK_STR :: fmt where [fmt_defs]: "OFP_STATE_STATS_SHORT_PACK_STR = [fH, fB, fB, fI]"
definition OFP_STATE_STATS_SHORT_SIZE :: nat where [simp]: "OFP_STATE_STATS_SHORT_SIZE = 8"
lemma calcsize_OFP_STATE_STATS_SHORT_PACK_STR [simp]: "calcsize OFP_STATE_STATS_SHORT_PACK_STR = OFP_STATE_STATS_SHORT_SIZE"
  by (simp add: fmt_defs)

definition OFP_EXP_PKTTMP_MOD_PACK_STR :: fmt where [fmt_defs]: "OFP_EXP_PKTTMP_MOD_PACK_STR = [fB, Pad 1]"
lemma calcsize_OFP_EXP_PKTTMP_MOD_PACK_STR [simp]: "calcsize OFP_EXP_PKTTMP_MOD_PACK_STR = 2"
  by (simp add: fmt_defs)

definition OFP_EXP_PKTTMP_MOD_ADD_PKTTMP_PACK_STR :: fmt where [fmt_defs]: "OFP_EXP_PKTTMP_MOD_ADD_PKTTMP_PACK_STR = [fI, Pad 4]"
definition OFP_EXP_PKTTMP_MOD_ADD_PKTTMP_SIZE :: nat where [simp]: "OFP_EXP_PKTTMP_MOD_ADD_PKTTMP_SIZE = 8"
lemma calcsize_OFP_EXP_PKTTMP_MOD_ADD_PKTTMP_PACK_STR [simp]: "calcsize OFP_EXP_PKTTMP_MOD_ADD_PKTTMP_PACK_STR = OFP_EXP_PKTTMP_MOD_ADD_PKTTMP_SIZE"
  by (simp add: fmt_defs)

definition OFP_EXP_PKTTMP_MOD_DEL_PKTTMP_PACK_STR :: fmt where [fmt_defs]: "OFP_EXP_PKTTMP_MOD_DEL_PKTTMP_PACK_STR = [fI, Pad 4]"
definition OFP_EXP_PKTTMP_MOD_DEL_PKTTMP_SIZE :: nat where [simp]: "OFP_EXP_PKTTMP_MOD_DEL_PKTTMP_SIZE = 8"
lemma calcsize_OFP_EXP_PKTTMP_MOD_DEL_PKTTMP_PACK_STR [simp]: "calcsize OFP_EXP_PKTTMP_MOD_DEL_PKTTMP_PACK_STR = OFP_EXP_PKTTMP_MOD_DEL_PKTTMP_SIZE"
  by (simp add: fmt_defs)

definition OFP_INSTRUCTION_INSWITCH_PKT_GEN_PACK_STR :: fmt where [fmt_defs]: "OFP_INSTRUCTION_INSWITCH_PKT_GEN_PACK_STR = [fH, fH, fI, fI, Pad 4, fI, Pad 4]"
definition OFP_INSTRUCTION_INSWITCH_PKT_GEN_SIZE :: nat where [simp]: "OFP_INSTRUCTION_INSWITCH_PKT_GEN_SIZE = 24"
lemma calcsize_OFP_INSTRUCTION_INSWITCH_PKT_GEN_PACK_STR [simp]: "calcsize OFP_INSTRUCTION_INSWITCH_PKT_GEN_PACK_STR = OFP_INSTRUCTION_INSWITCH_PKT_GEN_SIZE"
  by (simp add: fmt_defs)


section \<open>Message, command, action and statistics types\<close>

definition OFPT_EXP_STATE_MOD :: int where [simp]: "OFPT_EXP_STATE_MOD = 0"
definition OFPT_EXP_PKTTMP_MOD :: int where [simp]: "OFPT_EXP_PKTTMP_MOD = 1"
definition OFPT_EXP_STATE_CHANGED :: int where [simp]: "OFPT_EXP_STATE_CHANGED = 2"
definition OFPT_EXP_FLOW_NOTIFICATION :: int where [simp]: "OFPT_EXP_FLOW_NOTIFICATION = 3"
definition OFPSC_EXP_STATEFUL_TABLE_CONFIG :: int where [simp]: "OFPSC_EXP_STATEFUL_TABLE_CONFIG = 0"
definition OFPSC_EXP_SET_L_EXTRACTOR :: int where [simp]: "OFPSC_EXP_SET_L_EXTRACTOR = 1"
definition OFPSC_EXP_SET_U_EXTRACTOR :: int where [simp]: "OFPSC_EXP_SET_U_EXTRACTOR = 2"
definition OFPSC_EXP_SET_FLOW_STATE :: int where [simp]: "OFPSC_EXP_SET_FLOW_STATE = 3"
definition OFPSC_EXP_DEL_FLOW_STATE :: int where [simp]: "OFPSC_EXP_DEL_FLOW_STATE = 4"
definition OFPSC_EXP_SET_GLOBAL_STATE :: int where [simp]: "OFPSC_EXP_SET_GLOBAL_STATE = 5"
definition OFPSC_EXP_RESET_GLOBAL_STATE :: int where [simp]: "OFPSC_EXP_RESET_GLOBAL_STATE = 6"
definition OFPSC_ADD_PKTTMP :: int where [simp]: "OFPSC_ADD_PKTTMP = 0"
definition OFPSC_DEL_PKTTMP :: int where [simp]: "OFPSC_DEL_PKTTMP = 1"
definition OFPIT_IN_SWITCH_PKT_GEN :: int where [simp]: "OFPIT_IN_SWITCH_PKT_GEN = 0"
definition OFPAT_EXP_SET_STATE :: int where [simp]: "OFPAT_EXP_SET_STATE = 0"
definition OFPAT_EXP_SET_GLOBAL_STATE :: int where [simp]: "OFPAT_EXP_SET_GLOBAL_STATE = 1"
definition OFPAT_EXP_INC_STATE :: int where [simp]: "OFPAT_EXP_INC_STATE = 2"
definition OFPMP_EXP_STATE_STATS :: int where [simp]: "OFPMP_EXP_STATE_STATS = 0"
definition OFPMP_EXP_GLOBAL_STATE_STATS :: int where [simp]: "OFPMP_EXP_GLOBAL_STATE_STATS = 1"
definition OFPMP_EXP_STATE_STATS_AND_DELETE :: int where [simp]: "OFPMP_EXP_STATE_STATS_AND_DELETE = 2"
definition OFPMP_EXP_STATE_STATS_SHORT :: int where [simp]: "OFPMP_EXP_STATE_STATS_SHORT = 3"
definition OFPMP_EXP_STATE_STATS_AND_DELETE_SHORT :: int where [simp]: "OFPMP_EXP_STATE_STATS_AND_DELETE_SHORT = 4"

end
