(* ===== verification/Base64.thy ===== *)
theory Base64
  imports Prelude
begin

text \<open>
  \<open>base64.b64encode\<close> and \<open>base64.b64decode\<close> of Python 2, which \<open>type_desc.UnknownType\<close> uses
  to show the payload of a match field that is not in the table. The decoder is the loop of
  \<open>binascii.a2b_base64\<close>: characters outside the alphabet are skipped, a pad character ends
  the data when it closes a quantum, and bits left over are an error.
\<close>

definition b64_char :: "nat \<Rightarrow> char" where
  "b64_char i =
     (if i < 26 then char_of (65 + i)
      else if i < 52 then char_of (71 + i)
      else if i < 62 then char_of (i - 4)
      else if i = 62 then CHR ''+'' else CHR ''/'')"

definition b64_value :: "char \<Rightarrow> nat option" where
  "b64_value c =
     (let d = (of_char c :: nat) in
      if 65 \<le> d \<and> d \<le> 90 then Some (d - 65)
      else if 97 \<le> d \<and> d \<le> 122 then Some (d - 71)
      else if 48 \<le> d \<and> d \<le> 57 then Some (d + 4)
      else if d = 43 then Some 62 else if d = 47 then Some 63 else None)"

fun b64_enc :: "nat list \<Rightarrow> string" where
  "b64_enc [] = []"
| "b64_enc [a] = [b64_char (a div 4), b64_char (a mod 4 * 16), CHR ''='', CHR ''='']"
| "b64_enc [a, b] =
     [b64_char (a div 4), b64_char (a mod 4 * 16 + b div 16), b64_char (b mod 16 * 4), CHR ''='']"
| "b64_enc (a # b # c # r) =
     b64_char (a div 4) # b64_char (a mod 4 * 16 + b div 16) #
     b64_char (b mod 16 * 4 + c div 64) # b64_char (c mod 64) # b64_enc r"

definition b64encode :: "bytes \<Rightarrow> string" where
  "b64encode bs = b64_enc (map unat bs)"

text \<open>The next character that is in the alphabet or the pad character itself.\<close>

definition b64_next_valid :: "string \<Rightarrow> char option" where
  "b64_next_valid s = List.find (\<lambda>c. c = CHR ''='' \<or> b64_value c \<noteq> None) s"

fun b64_scan :: "nat \<Rightarrow> nat \<Rightarrow> nat \<Rightarrow> nat list \<Rightarrow> string \<Rightarrow> nat list res" where
  "b64_scan quad lc bits acc [] = (if bits = 0 then Inr (rev acc) else Inl TypeError)"
| "b64_scan quad lc bits acc (c # cs) =
     (if c = CHR ''='' then
        (if quad < 2 \<or> (quad = 2 \<and> b64_next_valid cs \<noteq> Some (CHR ''=''))
         then b64_scan quad lc bits acc cs
         else Inr (rev acc))
      else case b64_value c of
        None \<Rightarrow> b64_scan quad lc bits acc cs
      | Some v \<Rightarrow>
          (let lc' = lc * 64 + v; bits' = bits + 6 in
           if 8 \<le> bits'
           then b64_scan ((quad + 1) mod 4) (lc' mod 2 ^ (bits' - 8)) (bits' - 8)
                  (lc' div 2 ^ (bits' - 8) mod 256 # acc) cs
           else b64_scan ((quad + 1) mod 4) lc' bits' acc cs))"

definition b64decode :: "string \<Rightarrow> bytes res" where
  "b64decode s = rbind (b64_scan 0 0 0 [] s) (\<lambda>ns. Inr (map word_of_nat ns))"

section \<open>Round trip\<close>

lemma b64_value_char [simp]: "i < 64 \<Longrightarrow> b64_value (b64_char i) = Some i"
  by (auto simp: b64_value_def b64_char_def Let_def)

lemma b64_char_not_pad [simp]: "i < 64 \<Longrightarrow> b64_char i \<noteq> CHR ''=''"
proof -
  have "b64_value (CHR ''='') = None" by (simp add: b64_value_def)
  then show "i < 64 \<Longrightarrow> ?thesis" by (metis b64_value_char option.distinct(1))
qed

lemma b64_join: "a div 4 * 64 + (a mod 4 * 16 + x) = a * 16 + (x :: nat)"
proof -
  have "a = a div 4 * 4 + a mod 4" by simp
  then have "a * 16 = a div 4 * 64 + a mod 4 * 16" by linarith
  then show ?thesis by simp
qed

lemma b64_join2: "b div 16 * 64 + (b mod 16 * 4 + x) = b * 4 + (x :: nat)"
proof -
  have "b = b div 16 * 16 + b mod 16" by simp
  then have "b * 4 = b div 16 * 64 + b mod 16 * 4" by linarith
  then show ?thesis by simp
qed

lemma b64_join_parts:
  assumes "b < (256 :: nat)"
  shows "(a * 16 + b div 16) div 16 = a" and "(a * 16 + b div 16) mod 16 = b div 16"
  using assms by auto

lemma b64_scan_enc:
  "\<forall>n \<in> set ns. n < 256 \<Longrightarrow> b64_scan 0 0 0 acc (b64_enc ns) = Inr (rev acc @ ns)"
proof (induction ns arbitrary: acc rule: b64_enc.induct)
  case (2 a)
  then have "a div 4 < 64" "a mod 4 * 16 < 64" by auto
  with 2 show ?case by (simp add: b64_next_valid_def Let_def)
next
  case (3 a b)
  then have "a div 4 < 64" "a mod 4 * 16 + b div 16 < 64" "b mod 16 * 4 < 64" "b div 16 < 16" by auto
  with 3 show ?case by (simp add: b64_next_valid_def Let_def b64_join b64_join_parts)
next
  case (4 a b c r)
  then have "a div 4 < 64" "a mod 4 * 16 + b div 16 < 64" "b mod 16 * 4 + c div 64 < 64"
    "b div 16 < 16" "c div 64 < 4" by auto
  with 4 show ?case by (simp add: b64_next_valid_def Let_def b64_join b64_join2 b64_join_parts)
qed simp

lemma b64decode_encode [simp]: "b64decode (b64encode bs) = Inr bs"
proof -
  have "unat b < 256" for b :: byte using unsigned_less [of b] by simp
  then have "\<forall>n \<in> set (map unat bs). n < 256" by simp
  then show ?thesis
    by (simp add: b64decode_def b64encode_def b64_scan_enc comp_def)
qed

end
