(* ===== verification/Py_Text.thy ===== *)
theory Py_Text
  imports Prelude
begin

text \<open>
  The string conversions the code relies on: \<open>'%d'\<close>, \<open>'%x'\<close>, \<open>'%02x'\<close> and the constructor
  \<open>int(s)\<close> with base ten or two.
\<close>

section \<open>Printing integers\<close>

definition digit_char :: "nat \<Rightarrow> char" where
  "digit_char d = (if d < 10 then char_of (48 + d) else char_of (87 + d))"

fun nat_digits :: "nat \<Rightarrow> nat \<Rightarrow> string" where
  "nat_digits b n =
     (if b < 2 \<or> n < b then [digit_char n] else nat_digits b (n div b) @ [digit_char (n mod b)])"

declare nat_digits.simps [simp del]

definition py_dec :: "int \<Rightarrow> string" where
  "py_dec i = (if i < 0 then CHR ''-'' # nat_digits 10 (nat (- i)) else nat_digits 10 (nat i))"

definition py_hex :: "int \<Rightarrow> string" where
  "py_hex i = (if i < 0 then CHR ''-'' # nat_digits 16 (nat (- i)) else nat_digits 16 (nat i))"

definition py_hex2 :: "int \<Rightarrow> string" where
  "py_hex2 i = (let s = py_hex i in replicate (2 - length s) (CHR ''0'') @ s)"

section \<open>Reading integers\<close>

definition char_digit :: "nat \<Rightarrow> char \<Rightarrow> nat option" where
  "char_digit b c =
     (let d = (of_char c :: nat);
          v = (if 48 \<le> d \<and> d \<le> 57 then d - 48
               else if 97 \<le> d \<and> d \<le> 122 then d - 87
               else if 65 \<le> d \<and> d \<le> 90 then d - 55 else b)
      in if v < b then Some v else None)"

fun digits_value :: "nat \<Rightarrow> nat \<Rightarrow> string \<Rightarrow> nat option" where
  "digits_value b acc [] = Some acc"
| "digits_value b acc (c # cs) =
     (case char_digit b c of None \<Rightarrow> None | Some d \<Rightarrow> digits_value b (acc * b + d) cs)"

definition py_space :: "char \<Rightarrow> bool" where
  "py_space c \<longleftrightarrow> (of_char c :: nat) \<in> {9, 10, 11, 12, 13, 32}"

definition py_strip :: "string \<Rightarrow> string" where
  "py_strip s = rev (dropWhile py_space (rev (dropWhile py_space s)))"

text \<open>With base two the digits may carry the prefix of a binary literal.\<close>

definition py_prefix :: "nat \<Rightarrow> string \<Rightarrow> string" where
  "py_prefix b u =
     (case u of
        c # d # r \<Rightarrow> if b = 2 \<and> c = CHR ''0'' \<and> (d = CHR ''b'' \<or> d = CHR ''B'') then r else u
      | _ \<Rightarrow> u)"

definition py_int :: "nat \<Rightarrow> string \<Rightarrow> int res" where
  "py_int b s =
     (let t = py_strip s;
          (neg, u) = (case t of [] \<Rightarrow> (False, [])
                      | c # cs \<Rightarrow> if c = CHR ''-'' then (True, cs)
                                   else if c = CHR ''+'' then (False, cs) else (False, t))
      in if py_prefix b u = [] then Inl ValueError
         else case digits_value b 0 (py_prefix b u) of
                None \<Rightarrow> Inl ValueError
              | Some n \<Rightarrow> Inr (if neg then - int n else int n))"

section \<open>Reading back what was printed\<close>

lemma py_prefix_other_base [simp]: "b \<noteq> 2 \<Longrightarrow> py_prefix b u = u"
  by (simp add: py_prefix_def split: list.split)

lemma of_char_digit_char:
  "d < 36 \<Longrightarrow> of_char (digit_char d) = (if d < 10 then 48 + d else 87 + d :: nat)"
  by (simp add: digit_char_def)

lemma char_digit_digit_char [simp]: "d < b \<Longrightarrow> b \<le> 36 \<Longrightarrow> char_digit b (digit_char d) = Some d"
  by (auto simp: char_digit_def of_char_digit_char Let_def)

lemma digits_value_append:
  "digits_value b acc (xs @ ys) =
     (case digits_value b acc xs of None \<Rightarrow> None | Some v \<Rightarrow> digits_value b v ys)"
  by (induction xs arbitrary: acc) (auto split: option.splits)

lemma digits_value_nat_digits [simp]:
  assumes "2 \<le> b" and "b \<le> 36"
  shows "digits_value b 0 (nat_digits b n) = Some n"
  using assms
proof (induction b n rule: nat_digits.induct)
  case (1 b n)
  show ?case
  proof (cases "n < b")
    case True
    with 1 show ?thesis by (subst nat_digits.simps) simp
  next
    case False
    with 1 show ?thesis
      by (subst nat_digits.simps) (simp add: digits_value_append mult.commute)
  qed
qed

lemma nat_digits_nonempty [simp]: "nat_digits b n \<noteq> []"
  by (subst nat_digits.simps) auto

lemma nat_digits_chars:
  assumes "2 \<le> b" and "b \<le> 36" and "c \<in> set (nat_digits b n)"
  shows "\<exists>d < 36. c = digit_char d"
  using assms
proof (induction b n rule: nat_digits.induct)
  case (1 b n)
  show ?case
  proof (cases "n < b")
    case True
    with 1 have "n < 36" and "c = digit_char n" by (auto simp: nat_digits.simps [of b n])
    then show ?thesis by blast
  next
    case False
    have "n mod b < b" using 1 by simp
    with 1 have "n mod b < 36" by linarith
    with False 1 show ?thesis by (auto simp: nat_digits.simps [of b n])
  qed
qed

lemma nat_digits_no_space:
  "2 \<le> b \<Longrightarrow> b \<le> 36 \<Longrightarrow> c \<in> set (nat_digits b n) \<Longrightarrow>
     \<not> py_space c \<and> c \<noteq> CHR ''-'' \<and> c \<noteq> CHR ''+'' \<and> c \<noteq> CHR ''_''"
proof -
  assume "2 \<le> b" "b \<le> 36" "c \<in> set (nat_digits b n)"
  then obtain d where d: "d < 36" "c = digit_char d" using nat_digits_chars by blast
  have "of_char c = (if d < 10 then 48 + d else 87 + d :: nat)"
    using d of_char_digit_char by simp
  then have "(of_char c :: nat) \<in> {48..57} \<union> {97..122}" using d(1) by auto
  then show ?thesis by (auto simp: py_space_def)
qed

lemma dropWhile_none: "(\<And>x. x \<in> set xs \<Longrightarrow> \<not> P x) \<Longrightarrow> dropWhile P xs = xs"
  by (cases xs) auto

lemma py_strip_nat_digits [simp]:
  "2 \<le> b \<Longrightarrow> b \<le> 36 \<Longrightarrow> py_strip (nat_digits b n) = nat_digits b n"
  unfolding py_strip_def
  by (subst dropWhile_none, simp add: nat_digits_no_space)
    (subst dropWhile_none, simp_all add: nat_digits_no_space)

lemma py_int_py_dec: "0 \<le> i \<Longrightarrow> py_int 10 (py_dec i) = Inr i"
proof -
  assume "0 \<le> i"
  obtain c cs where c: "nat_digits 10 (nat i) = c # cs"
    by (meson neq_Nil_conv nat_digits_nonempty)
  have "c \<noteq> CHR ''-''" "c \<noteq> CHR ''+''"
    using nat_digits_no_space [of 10 c "nat i"] c by auto
  moreover have "digits_value 10 0 (c # cs) = Some (nat i)" using c [symmetric] by simp
  moreover have "py_strip (c # cs) = c # cs" using c [symmetric] by simp
  ultimately show ?thesis
    using \<open>0 \<le> i\<close> by (simp add: py_int_def py_dec_def c)
qed

end
