(* ===== verification/Oxm.thy ===== *)
theory Oxm
  imports OF13_Proto Base64 Py_Text
begin

text \<open>
  OpenFlow extensible match (OXM) fields: the value types of \<open>ryu/lib/type_desc.py\<close>, the
  field classes of \<open>ryu/ofproto/oxm_fields.py\<close>, the tables of \<open>ofproto_v1_3.py\<close>,
  \<open>nx_match.py\<close> and \<open>beba_v1_0.py\<close>, and the codec of \<open>ryu/ofproto/oxx_fields.py\<close> between user
  values and type-length-value bytes. The third-party package \<open>netaddr\<close> behind
  \<open>ryu/lib/addrconv.py\<close> is a parameter.
\<close>

section \<open>Value types\<close>

text \<open>
  A user gives an integer or a text. \<open>netaddr\<close> gives: the packed bytes of an address built
  from a user value, the text of an address built from an integer, and the integer read from
  packed bytes.
\<close>

datatype user_val = VInt int | VText string

datatype addr_kind = MacK | IPv4K | IPv6K

record netaddr =
  addr_packed :: "addr_kind \<Rightarrow> user_val \<Rightarrow> bytes res"
  addr_str :: "addr_kind \<Rightarrow> int \<Rightarrow> string res"
  packed_to_int :: "addr_kind \<Rightarrow> bytes \<Rightarrow> int res"

definition addrconv_text_to_bin :: "netaddr \<Rightarrow> addr_kind \<Rightarrow> user_val \<Rightarrow> bytes res" where
  "addrconv_text_to_bin na k text = addr_packed na k text"

definition addrconv_bin_to_text :: "netaddr \<Rightarrow> addr_kind \<Rightarrow> bytes \<Rightarrow> string res" where
  "addrconv_bin_to_text na k bin = rbind (packed_to_int na k bin) (addr_str na k)"

datatype type_descr = IntDescr nat | MacAddr | IPv4Addr | IPv6Addr | UnknownType

text \<open>The attribute \<open>size\<close>, which \<open>UnknownType\<close> does not have.\<close>

fun type_size :: "type_descr \<Rightarrow> nat option" where
  "type_size (IntDescr n) = Some n"
| "type_size MacAddr = Some 6"
| "type_size IPv4Addr = Some 4"
| "type_size IPv6Addr = Some 16"
| "type_size UnknownType = None"

fun int_to_user :: "nat \<Rightarrow> int \<Rightarrow> bytes \<Rightarrow> int res" where
  "int_to_user 0 i bin = Inr i"
| "int_to_user (Suc x) i [] = Inl TypeError"
| "int_to_user (Suc x) i (c # bin) = int_to_user x (i * 256 + uint c) bin"

fun int_from_user :: "nat \<Rightarrow> int \<Rightarrow> bytes \<Rightarrow> bytes" where
  "int_from_user 0 i bin = bin"
| "int_from_user (Suc x) i bin = int_from_user x (i div 256) (word_of_int (i AND 255) # bin)"

fun type_to_user :: "netaddr \<Rightarrow> type_descr \<Rightarrow> bytes \<Rightarrow> user_val res" where
  "type_to_user na (IntDescr n) bin = rbind (int_to_user n 0 bin) (\<lambda>i. Inr (VInt i))"
| "type_to_user na MacAddr bin = rbind (addrconv_bin_to_text na MacK bin) (\<lambda>s. Inr (VText s))"
| "type_to_user na IPv4Addr bin = rbind (addrconv_bin_to_text na IPv4K bin) (\<lambda>s. Inr (VText s))"
| "type_to_user na IPv6Addr bin = rbind (addrconv_bin_to_text na IPv6K bin) (\<lambda>s. Inr (VText s))"
| "type_to_user na UnknownType bin = Inr (VText (b64encode bin))"

fun type_from_user :: "netaddr \<Rightarrow> type_descr \<Rightarrow> user_val \<Rightarrow> bytes res" where
  "type_from_user na (IntDescr n) (VInt i) = Inr (int_from_user n i [])"
| "type_from_user na (IntDescr n) (VText s) = (if n = 0 then Inr [] else Inl TypeError)"
| "type_from_user na MacAddr v = addrconv_text_to_bin na MacK v"
| "type_from_user na IPv4Addr v = addrconv_text_to_bin na IPv4K v"
| "type_from_user na IPv6Addr v = addrconv_text_to_bin na IPv6K v"
| "type_from_user na UnknownType (VText s) = b64decode s"
| "type_from_user na UnknownType (VInt i) = Inl TypeError"

section \<open>Field descriptors\<close>

text \<open>The number of a field is an integer, or a pair with the experimenter for experimenter fields.\<close>

datatype oxm_num = Num int | ExpNum int int

definition OFPXXC_EXPERIMENTER :: int where "OFPXXC_EXPERIMENTER = 0xffff"

record oxm_desc =
  oxm_name :: string
  oxm_class :: int
  oxm_field :: int
  oxm_type :: int
  oxm_numb :: oxm_num
  oxm_tdesc :: type_descr
  experimenter_id :: "int option"
  exp_type :: "int option"

definition OxmClass :: "int \<Rightarrow> string \<Rightarrow> int \<Rightarrow> type_descr \<Rightarrow> oxm_desc" where
  "OxmClass cls name num t =
     \<lparr>oxm_name = name, oxm_class = cls, oxm_field = num, oxm_type = num OR push_bit 7 cls,
      oxm_numb = Num (num OR push_bit 7 cls), oxm_tdesc = t,
      experimenter_id = None, exp_type = None\<rparr>"

definition OpenFlowBasic :: "string \<Rightarrow> int \<Rightarrow> type_descr \<Rightarrow> oxm_desc" where
  "OpenFlowBasic = OxmClass OFPXMC_OPENFLOW_BASIC"

definition NiciraExtended0 :: "string \<Rightarrow> int \<Rightarrow> type_descr \<Rightarrow> oxm_desc" where
  "NiciraExtended0 = OxmClass OFPXMC_NXM_0"

definition NiciraExtended1 :: "string \<Rightarrow> int \<Rightarrow> type_descr \<Rightarrow> oxm_desc" where
  "NiciraExtended1 = OxmClass OFPXMC_NXM_1"

definition OxmExperimenter :: "int \<Rightarrow> string \<Rightarrow> int \<Rightarrow> type_descr \<Rightarrow> oxm_desc" where
  "OxmExperimenter eid name num t =
     (let d = OxmClass OFPXMC_EXPERIMENTER name num t
      in d\<lparr>oxm_numb := ExpNum eid (oxm_type d), experimenter_id := Some eid,
           exp_type := Some (oxm_field d)\<rparr>)"

definition ONFExperimenter :: "string \<Rightarrow> int \<Rightarrow> type_descr \<Rightarrow> oxm_desc" where
  "ONFExperimenter = OxmExperimenter ONF_EXPERIMENTER_ID"

definition OldONFExperimenter :: "string \<Rightarrow> int \<Rightarrow> type_descr \<Rightarrow> oxm_desc" where
  "OldONFExperimenter name num t =
     (OxmExperimenter ONF_EXPERIMENTER_ID name 0 t)
       \<lparr>oxm_numb := ExpNum ONF_EXPERIMENTER_ID num, exp_type := Some 2560\<rparr>"

definition BebaExperimenter :: "string \<Rightarrow> int \<Rightarrow> type_descr \<Rightarrow> oxm_desc" where
  "BebaExperimenter = OxmExperimenter BEBA_EXPERIMENTER_ID"

definition NiciraExperimenter :: "string \<Rightarrow> int \<Rightarrow> type_descr \<Rightarrow> oxm_desc" where
  "NiciraExperimenter = OxmExperimenter NX_EXPERIMENTER_ID"

section \<open>The field tables\<close>

definition nx_oxm_types :: "oxm_desc list" where
  "nx_oxm_types =
    [NiciraExtended0 ''eth_dst_nxm'' 1 MacAddr,
     NiciraExtended0 ''eth_src_nxm'' 2 MacAddr,
     NiciraExtended1 ''tunnel_id_nxm'' 16 (IntDescr 8),
     NiciraExtended1 ''tun_ipv4_src'' 31 IPv4Addr,
     NiciraExtended1 ''tun_ipv4_dst'' 32 IPv4Addr,
     NiciraExtended1 ''pkt_mark'' 33 (IntDescr 4),
     NiciraExtended1 ''conj_id'' 37 (IntDescr 4),
     NiciraExtended1 ''ct_state'' 105 (IntDescr 4),
     NiciraExtended1 ''ct_zone'' 106 (IntDescr 2),
     NiciraExtended1 ''ct_mark'' 107 (IntDescr 4),
     NiciraExtended1 ''ct_label'' 108 (IntDescr 16),
     NiciraExperimenter ''_dp_hash'' 0 (IntDescr 4),
     NiciraExtended1 ''reg0'' 0 (IntDescr 4),
     NiciraExtended1 ''reg1'' 1 (IntDescr 4),
     NiciraExtended1 ''reg2'' 2 (IntDescr 4),
     NiciraExtended1 ''reg3'' 3 (IntDescr 4),
     NiciraExtended1 ''reg4'' 4 (IntDescr 4),
     NiciraExtended1 ''reg5'' 5 (IntDescr 4),
     NiciraExtended1 ''reg6'' 6 (IntDescr 4),
     NiciraExtended1 ''reg7'' 7 (IntDescr 4)]"

definition beba_oxm_types :: "oxm_desc list" where
  "beba_oxm_types =
    [BebaExperimenter ''global_state'' 0 (IntDescr 4),
     BebaExperimenter ''state'' 1 (IntDescr 4)]"

definition of13_oxm_types :: "oxm_desc list" where
  "of13_oxm_types =
    [OpenFlowBasic ''in_port'' 0 (IntDescr 4),
     OpenFlowBasic ''in_phy_port'' 1 (IntDescr 4),
     OpenFlowBasic ''metadata'' 2 (IntDescr 8),
     OpenFlowBasic ''eth_dst'' 3 MacAddr,
     OpenFlowBasic ''eth_src'' 4 MacAddr,
     OpenFlowBasic ''eth_type'' 5 (IntDescr 2),
     OpenFlowBasic ''vlan_vid'' 6 (IntDescr 2),
     OpenFlowBasic ''vlan_pcp'' 7 (IntDescr 1),
     OpenFlowBasic ''ip_dscp'' 8 (IntDescr 1),
     OpenFlowBasic ''ip_ecn'' 9 (IntDescr 1),
     OpenFlowBasic ''ip_proto'' 10 (IntDescr 1),
     OpenFlowBasic ''ipv4_src'' 11 IPv4Addr,
     OpenFlowBasic ''ipv4_dst'' 12 IPv4Addr,
     OpenFlowBasic ''tcp_src'' 13 (IntDescr 2),
     OpenFlowBasic ''tcp_dst'' 14 (IntDescr 2),
     OpenFlowBasic ''udp_src'' 15 (IntDescr 2),
     OpenFlowBasic ''udp_dst'' 16 (IntDescr 2),
     OpenFlowBasic ''sctp_src'' 17 (IntDescr 2),
     OpenFlowBasic ''sctp_dst'' 18 (IntDescr 2),
     OpenFlowBasic ''icmpv4_type'' 19 (IntDescr 1),
     OpenFlowBasic ''icmpv4_code'' 20 (IntDescr 1),
     OpenFlowBasic ''arp_op'' 21 (IntDescr 2),
     OpenFlowBasic ''arp_spa'' 22 IPv4Addr,
     OpenFlowBasic ''arp_tpa'' 23 IPv4Addr,
     OpenFlowBasic ''arp_sha'' 24 MacAddr,
     OpenFlowBasic ''arp_tha'' 25 MacAddr,
     OpenFlowBasic ''ipv6_src'' 26 IPv6Addr,
     OpenFlowBasic ''ipv6_dst'' 27 IPv6Addr,
     OpenFlowBasic ''ipv6_flabel'' 28 (IntDescr 4),
     OpenFlowBasic ''icmpv6_type'' 29 (IntDescr 1),
     OpenFlowBasic ''icmpv6_code'' 30 (IntDescr 1),
     OpenFlowBasic ''ipv6_nd_target'' 31 IPv6Addr,
     OpenFlowBasic ''ipv6_nd_sll'' 32 MacAddr,
     OpenFlowBasic ''ipv6_nd_tll'' 33 MacAddr,
     OpenFlowBasic ''mpls_label'' 34 (IntDescr 4),
     OpenFlowBasic ''mpls_tc'' 35 (IntDescr 1),
     OpenFlowBasic ''mpls_bos'' 36 (IntDescr 1),
     OpenFlowBasic ''pbb_isid'' 37 (IntDescr 3),
     OpenFlowBasic ''tunnel_id'' 38 (IntDescr 8),
     OpenFlowBasic ''ipv6_exthdr'' 39 (IntDescr 2),
     OldONFExperimenter ''pbb_uca'' 2560 (IntDescr 1),
     OpenFlowBasic ''tcp_flags'' 40 (IntDescr 2),
     ONFExperimenter ''actset_output'' 43 (IntDescr 4)]"

definition oxm_types :: "oxm_desc list" where
  "oxm_types = of13_oxm_types @ nx_oxm_types @ beba_oxm_types"

text \<open>The dictionaries \<open>generate\<close> builds; a later entry replaces an earlier one with the same key.\<close>

definition name_to_field :: "string \<Rightarrow> oxm_desc option" where
  "name_to_field k = List.find (\<lambda>f. oxm_name f = k) (rev oxm_types)"

definition num_to_field :: "oxm_num \<Rightarrow> oxm_desc option" where
  "num_to_field n = List.find (\<lambda>f. oxm_numb f = n) (rev oxm_types)"

section \<open>Header constants\<close>

definition oxm_tlv_header_impl :: "int \<Rightarrow> int \<Rightarrow> int \<Rightarrow> int \<Rightarrow> int" where
  "oxm_tlv_header_impl cls field hasmask len =
     push_bit 16 cls OR push_bit 9 field OR push_bit 8 hasmask OR len"

definition oxm_tlv_header :: "int \<Rightarrow> int \<Rightarrow> int" where
  "oxm_tlv_header field len = oxm_tlv_header_impl OFPXMC_OPENFLOW_BASIC field 0 len"

definition oxm_tlv_header_w :: "int \<Rightarrow> int \<Rightarrow> int" where
  "oxm_tlv_header_w field len = oxm_tlv_header_impl OFPXMC_OPENFLOW_BASIC field 1 (len * 2)"

definition oxm_tlv_header_extract_hasmask :: "int \<Rightarrow> int" where
  "oxm_tlv_header_extract_hasmask header = drop_bit 8 header AND 1"

definition oxm_tlv_header_extract_length :: "int \<Rightarrow> int" where
  "oxm_tlv_header_extract_length header =
     (if oxm_tlv_header_extract_hasmask header \<noteq> 0 then (header AND 0xff) div 2
      else header AND 0xff)"

text \<open>The attributes \<open>OXM_OF_<NAME>\<close> and \<open>OXM_OF_<NAME>_W\<close> that \<open>generate\<close> adds to the module.\<close>

definition OXM_OF :: "string \<Rightarrow> int res" where
  "OXM_OF name =
     (case name_to_field name of
        None \<Rightarrow> Inl AttributeError
      | Some i \<Rightarrow>
          (case oxm_numb i of
             ExpNum _ _ \<Rightarrow> Inl AttributeError
           | Num _ \<Rightarrow>
               (if oxm_class i \<noteq> OFPXMC_OPENFLOW_BASIC then Inl AttributeError
                else case type_size (oxm_tdesc i) of
                       None \<Rightarrow> Inl AttributeError
                     | Some sz \<Rightarrow> Inr (oxm_tlv_header (oxm_field i) (int sz)))))"

section \<open>User values\<close>

text \<open>A user gives \<open>value\<close> or \<open>(value, mask)\<close>, either of which may be \<open>None\<close>.\<close>

datatype user_value = UV "user_val option" | UVM "user_val option" "user_val option"

fun py_split_at :: "char \<Rightarrow> string \<Rightarrow> string list" where
  "py_split_at c [] = [[]]"
| "py_split_at c (x # xs) =
     (if x = c then [] # py_split_at c xs
      else case py_split_at c xs of [] \<Rightarrow> [[x]] | y # ys \<Rightarrow> (x # y) # ys)"

definition get_field_info_by_name :: "string \<Rightarrow> (oxm_num \<times> type_descr) res" where
  "get_field_info_by_name name =
     (case name_to_field name of
        Some f \<Rightarrow> Inr (oxm_numb f, oxm_tdesc f)
      | None \<Rightarrow>
          (if take 6 name = ''field_''
           then rbind (py_int 10 (py_split_at (CHR ''_'') name ! 1))
                  (\<lambda>num. Inr (Num num, UnknownType))
           else Inl KeyError))"

definition oxm_from_user_header :: "string \<Rightarrow> oxm_num res" where
  "oxm_from_user_header name = rbind (get_field_info_by_name name) (\<lambda>(num, t). Inr num)"

definition opt_map :: "('a \<Rightarrow> 'b res) \<Rightarrow> 'a option \<Rightarrow> 'b option res" where
  "opt_map f x = (case x of None \<Rightarrow> Inr None | Some v \<Rightarrow> rbind (f v) (\<lambda>y. Inr (Some y)))"

definition oxm_from_user ::
  "netaddr \<Rightarrow> string \<Rightarrow> user_value \<Rightarrow> (oxm_num \<times> bytes option \<times> bytes option) res" where
  "oxm_from_user na name user_value =
     rbind (get_field_info_by_name name) (\<lambda>(num, t).
       let (value, mask) = (case user_value of UVM v m \<Rightarrow> (v, m) | UV v \<Rightarrow> (v, None)) in
       rbind (opt_map (type_from_user na t) value) (\<lambda>value'.
       rbind (opt_map (type_from_user na t) mask) (\<lambda>mask'.
         Inr (num, value', mask'))))"

definition get_field_info_by_number :: "oxm_num \<Rightarrow> (string \<times> type_descr) res" where
  "get_field_info_by_number n =
     (case num_to_field n of
        Some f \<Rightarrow> Inr (oxm_name f, oxm_tdesc f)
      | None \<Rightarrow> (case n of Num i \<Rightarrow> Inr (''field_'' @ py_dec i, UnknownType)
                         | ExpNum _ _ \<Rightarrow> Inl KeyError))"

definition oxm_to_user_header :: "oxm_num \<Rightarrow> string res" where
  "oxm_to_user_header n = rbind (get_field_info_by_number n) (\<lambda>(name, t). Inr name)"

definition oxm_to_user ::
  "netaddr \<Rightarrow> oxm_num \<Rightarrow> bytes option \<Rightarrow> bytes option \<Rightarrow> (string \<times> user_value) res" where
  "oxm_to_user na n v m =
     rbind (get_field_info_by_number n) (\<lambda>(name, t).
     rbind (case v of
              None \<Rightarrow> Inr None
            | Some b \<Rightarrow>
                (if (case type_size t of None \<Rightarrow> False | Some sz \<Rightarrow> sz \<noteq> length b)
                 then Inl OtherException
                 else rbind (type_to_user na t b) (\<lambda>u. Inr (Some u)))) (\<lambda>value.
       case m of
         None \<Rightarrow> Inr (name, UV value)
       | Some mb \<Rightarrow> rbind (type_to_user na t mb) (\<lambda>um. Inr (name, UVM value (Some um)))))"

definition apply_mask :: "bytes \<Rightarrow> bytes \<Rightarrow> bytes" where
  "apply_mask v m = map (\<lambda>(x, y). x AND y) (zip v m)"

text \<open>
  The two \<open>try\<close> blocks of \<open>_normalize_user\<close> return the input unchanged on any exception; the
  masking between them is not protected (\<open>zip(None, m)\<close> raises), nor is the final assertion.
\<close>

definition oxm_normalize_user :: "netaddr \<Rightarrow> string \<Rightarrow> user_value \<Rightarrow> (string \<times> user_value) res" where
  "oxm_normalize_user na k uv =
     (case oxm_from_user na k uv of
        Inl _ \<Rightarrow> Inr (k, uv)
      | Inr (n, v, m) \<Rightarrow>
          rbind (case m of
                   None \<Rightarrow> Inr v
                 | Some mb \<Rightarrow> (case v of None \<Rightarrow> Inl TypeError
                                      | Some b \<Rightarrow> Inr (Some (apply_mask b mb)))) (\<lambda>v'.
            case oxm_to_user na n v' m of
              Inl _ \<Rightarrow> Inr (k, uv)
            | Inr (k2, uv2) \<Rightarrow> rbind (rassert (k2 = k)) (\<lambda>_. Inr (k2, uv2))))"

section \<open>Type-length-value bytes\<close>

record oxm_header =
  oh_num :: oxm_num
  oh_total_hdr_len :: nat
  oh_hasmask :: bool
  oh_value_len :: nat
  oh_field_len :: nat

definition oxm_parse_header_impl :: "bytes \<Rightarrow> nat \<Rightarrow> oxm_header res" where
  "oxm_parse_header_impl buf offset =
     rbind (unpack_from [fI] buf offset) (\<lambda>hs.
       let header = hs ! 0;
           oxx_type = drop_bit 9 header;
           hasmask = oxm_tlv_header_extract_hasmask header \<noteq> 0;
           oxx_class = drop_bit 7 oxx_type;
           oxx_length = header AND 0xff
       in rbind
         (if oxx_class = OFPXXC_EXPERIMENTER
          then rbind (unpack_from [fI] buf (offset + 4)) (\<lambda>es.
                 let exp_id = es ! 0; oxx_field = oxx_type AND 0x7f in
                 if exp_id = ONF_EXPERIMENTER_ID \<and> oxx_field = 0
                 then rbind (unpack_from [fH] buf (offset + 4 + 4)) (\<lambda>ts.
                        Inr (ExpNum exp_id (ts ! 0), 4 + 2 :: nat))
                 else Inr (ExpNum exp_id oxx_type, 4))
          else Inr (Num oxx_type, 0)) (\<lambda>(num, exp_hdr_len).
         let value_len0 = oxx_length - int exp_hdr_len;
             value_len = (if hasmask then value_len0 div 2 else value_len0)
         in rbind (rassert (0 < value_len)) (\<lambda>_.
              Inr \<lparr>oh_num = num, oh_total_hdr_len = 4 + exp_hdr_len, oh_hasmask = hasmask,
                   oh_value_len = nat value_len, oh_field_len = 4 + nat oxx_length\<rparr>)))"

definition oxm_parse_header :: "bytes \<Rightarrow> nat \<Rightarrow> (oxm_num \<times> nat) res" where
  "oxm_parse_header buf offset =
     rbind (oxm_parse_header_impl buf offset) (\<lambda>h.
       Inr (oh_num h, oh_field_len h - oh_value_len h))"

text \<open>\<open>struct.unpack_from('!%ds', buf, offset)\<close>\<close>

definition unpack_str :: "nat \<Rightarrow> bytes \<Rightarrow> nat \<Rightarrow> bytes res" where
  "unpack_str n buf offset =
     (if offset + n \<le> length buf then Inr (slice offset (offset + n) buf) else Inl StructError)"

definition oxm_parse :: "bytes \<Rightarrow> nat \<Rightarrow> (oxm_num \<times> bytes \<times> bytes option \<times> nat) res" where
  "oxm_parse buf offset =
     rbind (oxm_parse_header_impl buf offset) (\<lambda>h.
       let value_offset = offset + oh_total_hdr_len h in
       rbind (unpack_str (oh_value_len h) buf value_offset) (\<lambda>value.
       rbind (if oh_hasmask h
              then rbind (unpack_str (oh_value_len h) buf (value_offset + oh_value_len h))
                     (\<lambda>m. Inr (Some m))
              else Inr None) (\<lambda>mask.
         Inr (oh_num h, value, mask, oh_field_len h))))"

definition oxm_make_exp_hdr :: "oxm_num \<Rightarrow> (oxm_num \<times> bytes) res" where
  "oxm_make_exp_hdr n =
     (case num_to_field n of
        None \<Rightarrow> Inr (n, [])
      | Some desc \<Rightarrow>
          (if oxm_class desc = OFPXXC_EXPERIMENTER
           then case n of
                  Num _ \<Rightarrow> Inl TypeError
                | ExpNum e et \<Rightarrow>
                    rbind (rget AttributeError (experimenter_id desc)) (\<lambda>eid.
                    rbind (rassert (eid = e)) (\<lambda>_.
                    rbind (rget AttributeError (exp_type desc)) (\<lambda>ety.
                    rbind (if ety = 2560 then msg_pack_into [fI, fH] [] 0 [eid, ety]
                           else rbind (rassert (oxm_type desc
                                                 = et OR push_bit 7 OFPXXC_EXPERIMENTER)) (\<lambda>_.
                                  msg_pack_into [fI] [] 0 [eid])) (\<lambda>exp_hdr.
                    rbind (rassert (drop_bit 7 (oxm_type desc) = OFPXXC_EXPERIMENTER)) (\<lambda>_.
                      Inr (Num (oxm_type desc), exp_hdr))))))
           else Inr (n, [])))"

text \<open>\<open>n << 9\<close> is a \<open>TypeError\<close> for a pair, which an experimenter field not in the table is.\<close>

fun num_int :: "oxm_num \<Rightarrow> int res" where
  "num_int (Num n) = Inr n"
| "num_int (ExpNum e t) = Inl TypeError"

definition oxm_serialize_header :: "oxm_num \<Rightarrow> bytes \<Rightarrow> nat \<Rightarrow> (bytes \<times> nat) res" where
  "oxm_serialize_header n buf offset =
     rbind (case num_to_field n of
              None \<Rightarrow> Inr 0
            | Some desc \<Rightarrow> rget AttributeError (type_size (oxm_tdesc desc))) (\<lambda>value_len.
     rbind (oxm_make_exp_hdr n) (\<lambda>(n', exp_hdr).
     rbind (num_int n') (\<lambda>i.
     rbind (msg_pack_into_s [fI] [exp_hdr] buf offset
              [push_bit 9 i OR push_bit 8 0 OR int (length exp_hdr + value_len)]) (\<lambda>buf'.
       Inr (buf', 4 + length exp_hdr)))))"

definition oxm_serialize ::
  "oxm_num \<Rightarrow> bytes option \<Rightarrow> bytes option \<Rightarrow> bytes \<Rightarrow> nat \<Rightarrow> (bytes \<times> nat) res" where
  "oxm_serialize n value msk buf offset =
     rbind (oxm_make_exp_hdr n) (\<lambda>(n', exp_hdr).
     rbind (rget TypeError value) (\<lambda>v.
       case msk of
         Some (b # bs) \<Rightarrow>
           rbind (rassert (length v = length (b # bs))) (\<lambda>_.
           rbind (num_int n') (\<lambda>i.
           rbind (msg_pack_into_s [fI] [exp_hdr, v, b # bs] buf offset
                    [push_bit 9 i OR push_bit 8 1 OR int (length exp_hdr + length v * 2)]) (\<lambda>buf'.
             Inr (buf', 4 + length exp_hdr + length v + length (b # bs)))))
       | _ \<Rightarrow>
           rbind (num_int n') (\<lambda>i.
           rbind (msg_pack_into_s [fI] [exp_hdr, v] buf offset
                    [push_bit 9 i OR push_bit 8 0 OR int (length exp_hdr + length v)]) (\<lambda>buf'.
             Inr (buf', 4 + length exp_hdr + length v)))))"

end
