(* ===== verification/Oxm_Codec.thy ===== *)
theory Oxm_Codec
  imports Oxm
begin

text \<open>
  Correctness of the OXM codec: the tables are well formed, every field of the tables round
  trips between user values and wire bytes, and normalising a user value is idempotent. What
  the code relies on of \<open>netaddr\<close> is the predicate \<open>netaddr_ok\<close>.
\<close>

section \<open>Vocabulary\<close>

fun addr_size :: "addr_kind \<Rightarrow> nat" where
  "addr_size MacK = 6"
| "addr_size IPv4K = 4"
| "addr_size IPv6K = 16"

text \<open>
  What the code relies on of \<open>netaddr\<close>: packed addresses have the size of their family, packed
  bytes are read in network byte order, and the text of an address reads back as that address.
\<close>

definition netaddr_ok :: "netaddr \<Rightarrow> bool" where
  "netaddr_ok na \<longleftrightarrow>
     (\<forall>k v b. addr_packed na k v = Inr b \<longrightarrow> length b = addr_size k) \<and>
     (\<forall>k b. length b = addr_size k \<longrightarrow> packed_to_int na k b = Inr (be_int b)) \<and>
     (\<forall>k i. fits (addr_size k) i \<longrightarrow>
        (\<exists>s. addr_str na k i = Inr s \<and> addr_packed na k (VText s) = Inr (be_bytes (addr_size k) i)))"

definition size_fits :: "type_descr \<Rightarrow> bytes \<Rightarrow> bool" where
  "size_fits t b \<longleftrightarrow> (case type_size t of None \<Rightarrow> True | Some n \<Rightarrow> length b = n)"

text \<open>What the codec needs of a table entry.\<close>

definition desc_ok :: "oxm_desc \<Rightarrow> bool" where
  "desc_ok d \<longleftrightarrow> 0 \<le> oxm_type d \<and> oxm_type d < 2 ^ 23 \<and>
     (case oxm_numb d of
        Num i \<Rightarrow> oxm_type d = i \<and> i div 128 \<noteq> 65535 \<and> oxm_class d \<noteq> 65535
      | ExpNum e x \<Rightarrow>
          oxm_class d = 65535 \<and> oxm_type d div 128 = 65535 \<and> fits 4 e \<and>
          experimenter_id d = Some e \<and>
          (if e = ONF_EXPERIMENTER_ID \<and> oxm_type d mod 128 = 0
           then fits 2 x \<and> x = 2560 \<and> exp_type d = Some x
           else x = oxm_type d \<and> (\<exists>y. exp_type d = Some y \<and> y \<noteq> 2560)
                \<and> x = x OR push_bit 7 65535)) \<and>
     (case type_size (oxm_tdesc d) of None \<Rightarrow> False | Some n \<Rightarrow> 0 < n \<and> n \<le> 16)"

text \<open>The header a number is written with: type field and experimenter header.\<close>

definition hdr_spec :: "oxm_num \<Rightarrow> int \<Rightarrow> bytes \<Rightarrow> bool" where
  "hdr_spec n t eh \<longleftrightarrow> 0 \<le> t \<and> t < 2 ^ 23 \<and>
     (case n of
        Num i \<Rightarrow> t = i \<and> t div 128 \<noteq> 65535 \<and> eh = []
      | ExpNum e x \<Rightarrow> t div 128 = 65535 \<and> fits 4 e \<and>
          (if e = ONF_EXPERIMENTER_ID \<and> t mod 128 = 0
           then fits 2 x \<and> eh = packed [fI, fH] [e, x]
           else x = t \<and> eh = packed [fI] [e]))"

definition oxm_codable :: "oxm_num \<Rightarrow> bool" where
  "oxm_codable n \<longleftrightarrow>
     num_to_field n \<noteq> None \<or>
     (case n of Num i \<Rightarrow> 0 \<le> i \<and> i < 2 ^ 23 \<and> i div 128 \<noteq> 65535 | ExpNum _ _ \<Rightarrow> False)"

text \<open>The bytes of one field.\<close>

definition oxm_enc :: "int \<Rightarrow> bytes \<Rightarrow> bytes \<Rightarrow> bytes option \<Rightarrow> bytes" where
  "oxm_enc t eh v m =
     (let tail = v @ (case m of None \<Rightarrow> [] | Some mb \<Rightarrow> mb) in
      packed [fI] [t * 512 + of_bool (m \<noteq> None) * 256 + int (length eh + length tail)] @ eh @ tail)"

definition payload_ok :: "bytes \<Rightarrow> bytes \<Rightarrow> bytes option \<Rightarrow> bool" where
  "payload_ok eh v m \<longleftrightarrow> v \<noteq> [] \<and>
     (case m of None \<Rightarrow> length eh + length v < 256
              | Some mb \<Rightarrow> length mb = length v \<and> length eh + length v * 2 < 256)"

text \<open>A concrete address package: the text of an address is its bytes, one character each.\<close>

fun raw_packed :: "addr_kind \<Rightarrow> user_val \<Rightarrow> bytes res" where
  "raw_packed k (VText s) =
     (if length s = addr_size k then Inr (map (\<lambda>c. word_of_nat (of_char c)) s) else Inl ValueError)"
| "raw_packed k (VInt i) =
     (if fits (addr_size k) i then Inr (be_bytes (addr_size k) i) else Inl ValueError)"

definition netaddr_raw :: netaddr where
  "netaddr_raw =
     \<lparr>addr_packed = raw_packed,
      addr_str = (\<lambda>k i. Inr (map (\<lambda>b. char_of (unat b)) (be_bytes (addr_size k) i))),
      packed_to_int = (\<lambda>k b. if length b = addr_size k then Inr (be_int b) else Inl ValueError)\<rparr>"

section \<open>Value types and tables\<close>

lemma int_from_user_eq: "int_from_user n i acc = be_bytes n i @ acc"
  by (induction n arbitrary: i acc) (simp_all add: word_of_int_mod_256)

lemma int_to_user_eq: "length bs = n \<Longrightarrow> int_to_user n i bs = Inr (i * 256 ^ n + be_int bs)"
  by (induction n i bs rule: int_to_user.induct) (auto simp: be_int_Cons algebra_simps)

lemmas oxm_table_defs = oxm_types_def of13_oxm_types_def nx_oxm_types_def beba_oxm_types_def
  OpenFlowBasic_def NiciraExtended0_def NiciraExtended1_def ONFExperimenter_def
  OldONFExperimenter_def BebaExperimenter_def NiciraExperimenter_def OxmClass_def
  OxmExperimenter_def Let_def

lemma distinct_oxm_names: "distinct (map oxm_name oxm_types)"
  by (simp add: oxm_table_defs)

lemma distinct_oxm_nums: "distinct (map oxm_numb oxm_types)"
  by (simp add: oxm_table_defs)

lemma num_to_field_iff: "num_to_field n = Some d \<longleftrightarrow> d \<in> set oxm_types \<and> oxm_numb d = n"
  unfolding num_to_field_def by (rule find_distinct [OF distinct_oxm_nums])

lemma name_to_field_iff: "name_to_field k = Some d \<longleftrightarrow> d \<in> set oxm_types \<and> oxm_name d = k"
  unfolding name_to_field_def by (rule find_distinct [OF distinct_oxm_names])

lemma oxm_types_desc_ok: "list_all desc_ok oxm_types"
  by (simp add: oxm_table_defs desc_ok_def fits_def)

lemma desc_ok_table: "d \<in> set oxm_types \<Longrightarrow> desc_ok d"
  using oxm_types_desc_ok by (simp add: list_all_iff)

lemma oxm_make_exp_hdr_spec:
  assumes "oxm_codable n"
  shows "\<exists>t eh. oxm_make_exp_hdr n = Inr (Num t, eh) \<and> hdr_spec n t eh"
proof (cases "num_to_field n")
  case None
  with assms show ?thesis
    by (auto simp: oxm_codable_def oxm_make_exp_hdr_def hdr_spec_def split: oxm_num.splits)
next
  case (Some d)
  then have d: "desc_ok d" "oxm_numb d = n" by (auto simp: num_to_field_iff desc_ok_table)
  show ?thesis
  proof (cases n)
    case (Num i)
    with Some d show ?thesis
      by (auto simp: oxm_make_exp_hdr_def hdr_spec_def desc_ok_def OFPXXC_EXPERIMENTER_def)
  next
    case (ExpNum e x)
    with Some d show ?thesis
      by (intro exI [of _ "oxm_type d"])
        (auto simp: oxm_make_exp_hdr_def hdr_spec_def desc_ok_def OFPXXC_EXPERIMENTER_def
          msg_pack_into_eq pack_at_def drop_bit_eq_div split: if_splits)
  qed
qed

text \<open>The header word: type, mask flag and length are separate bit fields.\<close>

lemma hdr_word:
  assumes "0 \<le> l" and "l < 256"
  shows "push_bit 9 t OR push_bit 8 0 OR l = t * 512 + (l :: int)"
    and "push_bit 9 t OR push_bit 8 1 OR l = t * 512 + 256 + (l :: int)"
  using assms int_shift_or [of l 9 t] int_shift_or [of "256 + l" 9 t] int_shift_or [of l 8 1]
  by (simp_all add: or.assoc)

lemma hdr_word_fields:
  assumes "0 \<le> l" and "l < 256"
  shows "drop_bit 9 (t * 512 + of_bool b * 256 + l) = (t :: int)"
    and "oxm_tlv_header_extract_hasmask (t * 512 + of_bool b * 256 + l) = of_bool b"
    and "(t * 512 + of_bool b * 256 + l) AND 255 = l"
proof -
  have e: "t * 512 + of_bool b * 256 + l = (2 * t + of_bool b) * 256 + l" by simp
  have l: "l div 256 = 0" "l mod 256 = l" using assms by simp_all
  have d: "(t * 512 + of_bool b * 256 + l) div 256 = 2 * t + of_bool b"
    unfolding e using l by (simp only: div_mult_self3 [of 256])
  show "(t * 512 + of_bool b * 256 + l) AND 255 = l"
    unfolding e using l by (simp only: int_and_numerals mod_mult_self3)
  show "oxm_tlv_header_extract_hasmask (t * 512 + of_bool b * 256 + l) = of_bool b"
    using d by (simp add: oxm_tlv_header_extract_hasmask_def drop_bit_eq_div)
  have "drop_bit 8 (t * 512 + of_bool b * 256 + l) = 2 * t + of_bool b"
    using d by (simp add: drop_bit_eq_div)
  then have "drop_bit 1 (drop_bit 8 (t * 512 + of_bool b * 256 + l)) = t"
    by (simp only: drop_bit_eq_div [of 1]) simp
  then show "drop_bit 9 (t * 512 + of_bool b * 256 + l) = t"
    by simp
qed

lemma hdr_word_fits:
  "0 \<le> l \<Longrightarrow> l < 256 \<Longrightarrow> 0 \<le> t \<Longrightarrow> t < 2 ^ 23 \<Longrightarrow> fits 4 (t * 512 + of_bool b * 256 + l)"
  by (auto simp: fits_def of_bool_def)

text \<open>Reading the header back, from what \<open>unpack_from\<close> finds in the buffer.\<close>

lemma oxm_parse_header_impl_word:
  assumes h: "hdr_spec n t eh" and L: "L = length eh + vl * (if hm then 2 else 1)" "0 < vl"
    and w: "drop_bit 9 w = t" "oxm_tlv_header_extract_hasmask w = of_bool hm" "w AND 255 = int L"
    and u: "unpack_from [fI] buf off = Inr [w]"
    and sub: "\<And>f vs p q. packable f vs \<Longrightarrow> eh = p @ packed f vs @ q \<Longrightarrow>
                unpack_from f buf (off + 4 + length p) = Inr vs"
  shows "oxm_parse_header_impl buf off =
         Inr \<lparr>oh_num = n, oh_total_hdr_len = 4 + length eh, oh_hasmask = hm,
              oh_value_len = vl, oh_field_len = 4 + L\<rparr>"
proof (cases n)
  case (Num i)
  with h have n: "n = Num t" "eh = []" and "drop_bit 7 t \<noteq> OFPXXC_EXPERIMENTER"
    by (auto simp: hdr_spec_def OFPXXC_EXPERIMENTER_def drop_bit_eq_div)
  with u w L show ?thesis
    by (cases hm) (simp_all add: oxm_parse_header_impl_def Let_def nat_mult_distrib nat_add_distrib
        del: drop_bit_drop_bit)
next
  case (ExpNum e x)
  with h have e: "drop_bit 7 t = OFPXXC_EXPERIMENTER" "fits 4 e"
    by (auto simp: hdr_spec_def OFPXXC_EXPERIMENTER_def drop_bit_eq_div)
  show ?thesis
  proof (cases "e = ONF_EXPERIMENTER_ID \<and> t mod 128 = 0")
    case True
    with ExpNum h have eh: "eh = packed [fI, fH] [e, x]" "fits 2 x" by (auto simp: hdr_spec_def)
    have "unpack_from [fI] buf (off + 4) = Inr [e]"
      using sub [of "[fI]" "[e]" "[]" "be_bytes 2 x"] eh e by simp
    moreover have "unpack_from [fH] buf (off + 4 + 4) = Inr [x]"
      using sub [of "[fH]" "[x]" "be_bytes 4 e" "[]"] eh by simp
    ultimately show ?thesis using u w L e True ExpNum eh(1)
      by (cases hm) (simp_all add: oxm_parse_header_impl_def Let_def nat_mult_distrib nat_add_distrib
        del: drop_bit_drop_bit)
  next
    case False
    with ExpNum h have eh: "eh = packed [fI] [e]" "x = t" by (auto simp: hdr_spec_def)
    have "unpack_from [fI] buf (off + 4) = Inr [e]"
      using sub [of "[fI]" "[e]" "[]" "[]"] eh e by simp
    then show ?thesis using u w L e False ExpNum eh
      by (cases hm) (auto simp: oxm_parse_header_impl_def Let_def nat_mult_distrib nat_add_distrib
        simp del: drop_bit_drop_bit)
  qed
qed

lemma oxm_parse_header_impl_spec:
  assumes h: "hdr_spec n t eh" and L: "L = length eh + vl * (if hm then 2 else 1)" "0 < vl" "L < 256"
  shows "oxm_parse_header_impl
           (pre @ packed [fI] [t * 512 + of_bool hm * 256 + int L] @ eh @ post) (length pre) =
         Inr \<lparr>oh_num = n, oh_total_hdr_len = 4 + length eh, oh_hasmask = hm,
              oh_value_len = vl, oh_field_len = 4 + L\<rparr>"
proof -
  define w where "w = t * 512 + of_bool hm * 256 + int L"
  have L': "0 \<le> int L" "int L < 256" using L by auto
  have w: "drop_bit 9 w = t" "oxm_tlv_header_extract_hasmask w = of_bool hm" "w AND 255 = int L"
    unfolding w_def by (rule hdr_word_fields [OF L'])+
  have f: "fits 4 w" unfolding w_def using h by (intro hdr_word_fits L') (auto simp: hdr_spec_def)
  have "unpack_from f (pre @ packed [fI] [w] @ eh @ post) (length pre + 4 + length p) = Inr vs"
    if "packable f vs" and "eh = p @ packed f vs @ q" for f vs p q
    using unpack_from_packed [of f vs "length pre + 4 + length p" "pre @ packed [fI] [w] @ p"
        "q @ post"] that by simp
  moreover have "unpack_from [fI] (pre @ packed [fI] [w] @ eh @ post) (length pre) = Inr [w]"
    by (rule unpack_from_packed) (use f in simp_all)
  ultimately show ?thesis
    unfolding w_def [symmetric] by (intro oxm_parse_header_impl_word [OF h L(1,2) w])
qed

lemma oxm_serialize_spec:
  assumes n: "oxm_make_exp_hdr n = Inr (Num t, eh)" and h: "hdr_spec n t eh"
    and p: "payload_ok eh v m" and b: "length buf \<le> off"
  shows "oxm_serialize n (Some v) m buf off =
         Inr (grow off buf @ oxm_enc t eh v m, length (oxm_enc t eh v m))"
proof -
  have t: "0 \<le> t" "t < 2 ^ 23" using h by (auto simp: hdr_spec_def)
  note fit = hdr_word_fits [OF _ _ t]
  show ?thesis
  proof (cases m)
    case None
    with p b n fit [of "int (length eh + length v)" False]
      hdr_word(1) [of "int (length eh + length v)" t]
    show ?thesis
      by (simp add: oxm_serialize_def payload_ok_def msg_pack_into_s_eq pack_at_append oxm_enc_def)
  next
    case (Some mb)
    then obtain c bs where "mb = c # bs" using p by (cases mb) (auto simp: payload_ok_def)
    with Some p b n fit [of "int (length eh + length v * 2)" True]
      hdr_word(2) [of "int (length eh + length v * 2)" t]
    show ?thesis
      by (simp add: oxm_serialize_def payload_ok_def msg_pack_into_s_eq pack_at_append oxm_enc_def
          mult.commute [of _ 2])
  qed
qed

lemma unpack_str_mid:
  "off = length pre \<Longrightarrow> n = length xs \<Longrightarrow> unpack_str n (pre @ xs @ post) off = Inr xs"
  by (simp add: unpack_str_def)

lemma oxm_parse_spec:
  assumes h: "hdr_spec n t eh" and p: "payload_ok eh v m"
  shows "oxm_parse (pre @ oxm_enc t eh v m @ post) (length pre) =
         Inr (n, v, m, length (oxm_enc t eh v m))"
proof (cases m)
  case None
  let ?L = "length eh + length v"
  have "oxm_parse_header_impl (pre @ oxm_enc t eh v m @ post) (length pre) =
       Inr \<lparr>oh_num = n, oh_total_hdr_len = 4 + length eh, oh_hasmask = False,
            oh_value_len = length v, oh_field_len = 4 + ?L\<rparr>"
    using oxm_parse_header_impl_spec [OF h, of ?L "length v" False pre "v @ post"] p None
    by (simp add: payload_ok_def oxm_enc_def)
  moreover have "unpack_str (length v) (pre @ oxm_enc t eh v m @ post) (length pre + (4 + length eh)) = Inr v"
    using unpack_str_mid [of _ "pre @ packed [fI] [t * 512 + int ?L] @ eh" _ v post] None
    by (simp add: oxm_enc_def)
  ultimately show ?thesis using None by (simp add: oxm_parse_def oxm_enc_def)
next
  case (Some mb)
  let ?L = "length eh + length v * 2" and ?h = "packed [fI] [t * 512 + 256 + int (length eh + length v * 2)]"
  have m: "length mb = length v" using p Some by (simp add: payload_ok_def)
  have "oxm_parse_header_impl (pre @ oxm_enc t eh v m @ post) (length pre) =
       Inr \<lparr>oh_num = n, oh_total_hdr_len = 4 + length eh, oh_hasmask = True,
            oh_value_len = length v, oh_field_len = 4 + ?L\<rparr>"
    using oxm_parse_header_impl_spec [OF h, of ?L "length v" True pre "v @ mb @ post"] p Some m
    by (simp add: payload_ok_def oxm_enc_def mult_2_right)
  moreover have "unpack_str (length v) (pre @ oxm_enc t eh v m @ post) (length pre + (4 + length eh)) = Inr v"
    using unpack_str_mid [of _ "pre @ ?h @ eh" _ v "mb @ post"] Some m
    by (simp add: oxm_enc_def mult_2_right)
  moreover have "unpack_str (length v) (pre @ oxm_enc t eh v m @ post)
      (length pre + (4 + length eh) + length v) = Inr mb"
    using unpack_str_mid [of _ "pre @ ?h @ eh @ v" _ mb post] Some m
    by (simp add: oxm_enc_def mult_2_right add.assoc)
  ultimately show ?thesis using Some m by (simp add: oxm_parse_def oxm_enc_def)
qed

section \<open>User values\<close>

lemma netaddr_bin_text:
  assumes "netaddr_ok na" and "length b = addr_size k"
  shows "\<exists>s. addrconv_bin_to_text na k b = Inr s \<and> addrconv_text_to_bin na k (VText s) = Inr b"
  using assms fits_be_int [of b] be_bytes_be_int [of b]
  unfolding netaddr_ok_def addrconv_bin_to_text_def addrconv_text_to_bin_def
  by (metis rbind_simps(1))

lemma type_from_user_size: "netaddr_ok na \<Longrightarrow> type_from_user na t u = Inr b \<Longrightarrow> size_fits t b"
  by (induction na t u rule: type_from_user.induct)
    (auto simp: size_fits_def netaddr_ok_def addrconv_text_to_bin_def int_from_user_eq split: if_splits)

text \<open>Every payload of the right size has a user value, which denotes that payload.\<close>

lemma type_to_from_user:
  assumes "netaddr_ok na" and "size_fits t b"
  shows "\<exists>u. type_to_user na t b = Inr u \<and> type_from_user na t u = Inr b"
proof (cases t)
  case (IntDescr n)
  with assms have n: "n = length b" by (simp add: size_fits_def)
  have "int_from_user (length b) (be_int b) [] = b" by (simp add: int_from_user_eq)
  with IntDescr n show ?thesis by (auto simp: int_to_user_eq)
next
  case MacAddr
  with assms netaddr_bin_text [of na b MacK] show ?thesis
    by (auto simp: size_fits_def)
next
  case IPv4Addr
  with assms netaddr_bin_text [of na b IPv4K] show ?thesis
    by (auto simp: size_fits_def)
next
  case IPv6Addr
  with assms netaddr_bin_text [of na b IPv6K] show ?thesis
    by (auto simp: size_fits_def)
next
  case UnknownType
  then show ?thesis by simp
qed

lemma type_from_to_user:
  "netaddr_ok na \<Longrightarrow> size_fits t b \<Longrightarrow> type_to_user na t b = Inr u \<Longrightarrow> type_from_user na t u = Inr b"
  using type_to_from_user [of na t b] by auto

section \<open>Names and numbers\<close>

lemma info_by_name_table:
  "d \<in> set oxm_types \<Longrightarrow> get_field_info_by_name (oxm_name d) = Inr (oxm_numb d, oxm_tdesc d)"
  by (simp add: get_field_info_by_name_def name_to_field_iff [THEN iffD2])

lemma info_by_number_table:
  "d \<in> set oxm_types \<Longrightarrow> get_field_info_by_number (oxm_numb d) = Inr (oxm_name d, oxm_tdesc d)"
  by (simp add: get_field_info_by_number_def num_to_field_iff [THEN iffD2])

text \<open>A name and the number it stands for have the same type, whichever direction is looked up.\<close>

lemma info_by_name_number:
  assumes "get_field_info_by_name k = Inr (n, t)" and "get_field_info_by_number n = Inr (k, t')"
  shows "t' = t"
proof (cases "name_to_field k")
  case (Some d)
  with assms show ?thesis
    by (auto simp: get_field_info_by_name_def name_to_field_iff info_by_number_table)
next
  case None
  with assms have n: "t = UnknownType" "\<exists>i. n = Num i"
    by (auto simp: get_field_info_by_name_def rbind_eq_Inr split: if_splits)
  have "num_to_field n = None"
  proof (rule ccontr)
    assume "num_to_field n \<noteq> None"
    then obtain d where d: "num_to_field n = Some d" by auto
    with assms(2) have "oxm_name d = k" by (simp add: get_field_info_by_number_def)
    with d None show False
      by (metis name_to_field_iff num_to_field_iff option.distinct(1))
  qed
  with assms(2) n show ?thesis by (auto simp: get_field_info_by_number_def)
qed

lemma oxm_from_user_eq:
  "oxm_from_user na k uv = Inr (n, v, m) \<longleftrightarrow>
     (\<exists>t. get_field_info_by_name k = Inr (n, t) \<and>
       opt_map (type_from_user na t) (case uv of UVM a b \<Rightarrow> a | UV a \<Rightarrow> a) = Inr v \<and>
       opt_map (type_from_user na t) (case uv of UVM a b \<Rightarrow> b | UV a \<Rightarrow> None) = Inr m)"
  by (auto simp: oxm_from_user_def rbind_eq_Inr Let_def split: user_value.splits)

lemma opt_map_Some [simp]:
  "opt_map f (Some x) = rbind (f x) (\<lambda>y. Inr (Some y))"
  "opt_map f None = Inr None"
  by (simp_all add: opt_map_def)

lemma opt_map_eq_Inr_Some: "opt_map f x = Inr (Some y) \<longleftrightarrow> (\<exists>v. x = Some v \<and> f v = Inr y)"
  by (auto simp: opt_map_def rbind_eq_Inr split: option.splits)

lemma opt_map_eq_Inr_None: "opt_map f x = Inr None \<longleftrightarrow> x = None"
  by (auto simp: opt_map_def rbind_eq_Inr split: option.splits)

text \<open>What \<open>oxm_to_user\<close> returns denotes the bytes it was given.\<close>

lemma oxm_to_from_user:
  assumes na: "netaddr_ok na"
    and i: "get_field_info_by_name k = Inr (n, t)" "get_field_info_by_number n = Inr (k, t')"
    and v: "case v of None \<Rightarrow> True | Some b \<Rightarrow> size_fits t b"
    and m: "case m of None \<Rightarrow> True | Some b \<Rightarrow> size_fits t b"
  shows "\<exists>uv. oxm_to_user na n v m = Inr (k, uv) \<and> oxm_from_user na k uv = Inr (n, v, m)"
proof -
  have t': "t' = t" using i by (rule info_by_name_number)
  have tu: "\<exists>u. opt_map (type_to_user na t) x = Inr u \<and> opt_map (type_from_user na t) u = Inr x"
    if "case x of None \<Rightarrow> True | Some b \<Rightarrow> size_fits t b" for x
  proof (cases x)
    case (Some b)
    with that obtain u where "type_to_user na t b = Inr u" "type_from_user na t u = Inr b"
      using type_to_from_user [OF na] by auto
    with Some show ?thesis by (intro exI [of _ "Some u"]) simp
  qed simp
  obtain u where u: "opt_map (type_to_user na t) v = Inr u" "opt_map (type_from_user na t) u = Inr v"
    using tu [OF v] by blast
  obtain w where w: "opt_map (type_to_user na t) m = Inr w" "opt_map (type_from_user na t) w = Inr m"
    using tu [OF m] by blast
  have val: "(case v of None \<Rightarrow> Inr None | Some b \<Rightarrow>
      if (case type_size t of None \<Rightarrow> False | Some sz \<Rightarrow> sz \<noteq> length b) then Inl OtherException
      else rbind (type_to_user na t b) (\<lambda>u. Inr (Some u))) = Inr u"
    using u(1) v by (auto simp: opt_map_def size_fits_def split: option.splits)
  show ?thesis
  proof (cases m)
    case None
    with i u val t' show ?thesis
      by (auto simp: oxm_to_user_def oxm_from_user_eq)
  next
    case (Some mb)
    with w obtain x where x: "w = Some x" "type_to_user na t mb = Inr x" "type_from_user na t x = Inr mb"
      by (auto simp: opt_map_def rbind_eq_Inr split: option.splits)
    with Some i u val t' show ?thesis
      by (auto simp: oxm_to_user_def oxm_from_user_eq)
  qed
qed

lemma apply_mask_idem [simp]: "apply_mask (apply_mask v m) m = apply_mask v m"
proof (induction v arbitrary: m)
  case (Cons a v)
  then show ?case by (cases m) (auto simp: apply_mask_def)
qed (simp add: apply_mask_def)

lemma length_apply_mask [simp]: "length (apply_mask v m) = min (length v) (length m)"
  by (simp add: apply_mask_def)


lemma oxm_normalize_user_idem:
  assumes na: "netaddr_ok na" and nz: "oxm_normalize_user na k uv = Inr (k', uv')"
  shows "oxm_normalize_user na k' uv' = Inr (k', uv')"
proof (cases "k' = k \<and> uv' = uv")
  case True
  with nz show ?thesis by simp
next
  case False
  then obtain n v m where f: "oxm_from_user na k uv = Inr (n, v, m)"
    using nz by (auto simp: oxm_normalize_user_def split: sum.splits)
  define v' where "v' = (case m of None \<Rightarrow> v | Some mb \<Rightarrow> map_option (\<lambda>b. apply_mask b mb) v)"
  have mv: "m \<noteq> None \<longrightarrow> v \<noteq> None"
    using nz f by (auto simp: oxm_normalize_user_def split: option.splits)
  have to: "oxm_to_user na n v' m = Inr (k, uv')" and k: "k' = k"
    using nz f False by (auto simp: oxm_normalize_user_def v'_def rbind_eq_Inr
        split: option.splits sum.splits)
  obtain t where t: "get_field_info_by_name k = Inr (n, t)"
    and tv: "opt_map (type_from_user na t) (case uv of UVM a b \<Rightarrow> a | UV a \<Rightarrow> a) = Inr v"
    and tm: "opt_map (type_from_user na t) (case uv of UVM a b \<Rightarrow> b | UV a \<Rightarrow> None) = Inr m"
    using f by (auto simp: oxm_from_user_eq)
  obtain t' where t': "get_field_info_by_number n = Inr (k, t')"
    using to by (auto simp: oxm_to_user_def rbind_eq_Inr split: option.splits)
  have sv: "case v of None \<Rightarrow> True | Some b \<Rightarrow> size_fits t b"
    using tv type_from_user_size [OF na] by (auto simp: opt_map_eq_Inr_Some split: option.splits)
  have sm: "case m of None \<Rightarrow> True | Some b \<Rightarrow> size_fits t b"
    using tm type_from_user_size [OF na] by (auto simp: opt_map_eq_Inr_Some split: option.splits)
  have sv': "case v' of None \<Rightarrow> True | Some b \<Rightarrow> size_fits t b"
    using sv sm by (auto simp: v'_def size_fits_def split: option.splits)
  have fr: "oxm_from_user na k uv' = Inr (n, v', m)"
    using oxm_to_from_user [OF na t t' sv' sm] to by auto
  have idem: "(case m of None \<Rightarrow> Inr v' | Some mb \<Rightarrow> (case v' of None \<Rightarrow> Inl TypeError
       | Some b \<Rightarrow> Inr (Some (apply_mask b mb)))) = Inr v'"
    using mv by (auto simp: v'_def split: option.splits)
  show ?thesis using fr to k idem by (simp add: oxm_normalize_user_def)
qed

lemma from_user_table:
  assumes na: "netaddr_ok na" and d: "d \<in> set oxm_types"
    and f: "oxm_from_user na (oxm_name d) uv = Inr (n, Some v, m)"
  shows "n = oxm_numb d" and "size_fits (oxm_tdesc d) v"
    and "m = Some b \<Longrightarrow> size_fits (oxm_tdesc d) b"
  using f type_from_user_size [OF na]
  by (auto simp: oxm_from_user_eq info_by_name_table [OF d] opt_map_eq_Inr_Some)

lemma table_payload_ok:
  assumes na: "netaddr_ok na" and d: "d \<in> set oxm_types"
    and f: "oxm_from_user na (oxm_name d) uv = Inr (n, Some v, m)" and h: "hdr_spec n t eh"
  shows "payload_ok eh v m"
proof -
  obtain sz where sz: "type_size (oxm_tdesc d) = Some sz" "0 < sz" "sz \<le> 16"
    using desc_ok_table [OF d] by (auto simp: desc_ok_def split: option.splits)
  have "length eh \<le> 6" using h by (auto simp: hdr_spec_def split: oxm_num.splits if_splits)
  moreover have "length v = sz"
    using from_user_table(2) [OF na d f] sz by (simp add: size_fits_def)
  moreover have "length b = sz" if "m = Some b" for b
    using from_user_table(3) [OF na d f that] sz by (simp add: size_fits_def)
  ultimately show ?thesis using sz by (auto simp: payload_ok_def split: option.splits)
qed

lemma oxm_codable_table: "d \<in> set oxm_types \<Longrightarrow> oxm_codable (oxm_numb d)"
  by (simp add: oxm_codable_def num_to_field_iff [THEN iffD2])

lemma oxm_wire:
  assumes na: "netaddr_ok na" and d: "d \<in> set oxm_types"
    and f: "oxm_from_user na (oxm_name d) uv = Inr (n, Some v, m)"
  shows "\<exists>bs. (\<forall>buf off. length buf \<le> off \<longrightarrow>
              oxm_serialize n (Some v) m buf off = Inr (grow off buf @ bs, length bs)) \<and>
           (\<forall>pre post. oxm_parse (pre @ bs @ post) (length pre) = Inr (n, v, m, length bs))"
proof -
  have n: "n = oxm_numb d" by (rule from_user_table(1) [OF na d f])
  obtain t eh where h: "oxm_make_exp_hdr n = Inr (Num t, eh)" "hdr_spec n t eh"
    using oxm_make_exp_hdr_spec oxm_codable_table [OF d] n by blast
  have p: "payload_ok eh v m" using table_payload_ok [OF na d f h(2)] .
  show ?thesis using oxm_serialize_spec [OF h p] oxm_parse_spec [OF h(2) p] by blast
qed

lemma netaddr_ok_raw: "netaddr_ok netaddr_raw"
proof -
  have "length b = addr_size k" if "raw_packed k v = Inr b" for k v b
    using that by (cases v) (auto split: if_splits)
  moreover have "(of_char (char_of (unat b) :: char) :: nat) = unat b" for b :: byte
  proof -
    have "unat b < 256" using unsigned_less [of b] by simp
    then show ?thesis by simp
  qed
  ultimately show ?thesis
    by (auto simp: netaddr_ok_def netaddr_raw_def comp_def split: if_splits)
qed

section \<open>Properties\<close>

text \<open>
  C7. For every field of the match tables and every user value the code
  accepts for it, with or without a mask: the field is written at any offset at or past the end
  of any buffer, parsing the written bytes inside any surrounding bytes gives back the field
  number, the payload, the mask and the exact length, and the payload has a user value again
  that denotes the same bytes.
\<close>

theorem oxm_field_roundtrip:
  assumes na: "netaddr_ok na" and d: "d \<in> set oxm_types"
    and f: "oxm_from_user na (oxm_name d) uv = Inr (n, Some v, m)"
  shows "\<exists>bs uv'.
      (\<forall>buf off. length buf \<le> off \<longrightarrow>
         oxm_serialize n (Some v) m buf off = Inr (grow off buf @ bs, length bs)) \<and>
      (\<forall>pre post. oxm_parse (pre @ bs @ post) (length pre) = Inr (n, v, m, length bs)) \<and>
      oxm_to_user na n (Some v) m = Inr (oxm_name d, uv') \<and>
      oxm_from_user na (oxm_name d) uv' = Inr (n, Some v, m)"
proof -
  note i = info_by_name_table [OF d] info_by_number_table [OF d]
  note n = from_user_table [OF na d f]
  show ?thesis
    using oxm_wire [OF na d f] oxm_to_from_user [OF na i, of "Some v" m] n
    by (cases m) auto
qed
theorem oxm_field_roundtrip_witness:
  "\<exists>bs uv'.
      (\<forall>buf off. length buf \<le> off \<longrightarrow>
         oxm_serialize (ExpNum 3199909562 8388481) (Some [0, 0, 1, 2]) None buf off
           = Inr (grow off buf @ bs, length bs)) \<and>
      (\<forall>pre post. oxm_parse (pre @ bs @ post) (length pre)
           = Inr (ExpNum 3199909562 8388481, [0, 0, 1, 2], None, length bs)) \<and>
      oxm_to_user netaddr_raw (ExpNum 3199909562 8388481) (Some [0, 0, 1, 2]) None = Inr (''state'', uv') \<and>
      oxm_from_user netaddr_raw ''state'' uv' = Inr (ExpNum 3199909562 8388481, Some [0, 0, 1, 2], None)"
proof -
  have d: "BebaExperimenter ''state'' 1 (IntDescr 4) \<in> set oxm_types"
    by (simp add: oxm_types_def beba_oxm_types_def)
  have n: "oxm_name (BebaExperimenter ''state'' 1 (IntDescr 4)) = ''state''"
    "oxm_numb (BebaExperimenter ''state'' 1 (IntDescr 4)) = ExpNum 3199909562 8388481"
    "oxm_tdesc (BebaExperimenter ''state'' 1 (IntDescr 4)) = IntDescr 4"
    by (simp_all add: oxm_table_defs)
  have "oxm_from_user netaddr_raw ''state'' (UV (Some (VInt 258))) =
          Inr (ExpNum 3199909562 8388481, Some [0, 0, 1, 2], None)"
    using info_by_name_table [OF d] n
    by (simp add: oxm_from_user_def int_from_user_eq be_bytes_numeral)
  then show ?thesis
    using oxm_field_roundtrip [OF netaddr_ok_raw d, of "UV (Some (VInt 258))"] n by simp
qed

text \<open>
  Normalising a match field is idempotent: what
  \<open>oxm_normalize_user\<close> returns (the masked and canonical value, or the input itself when it
  cannot be converted) is returned unchanged by a second normalisation.
\<close>

theorem oxm_normalize_user_idempotent:
  assumes "netaddr_ok na" and "oxm_normalize_user na k uv = Inr (k', uv')"
  shows "oxm_normalize_user na k' uv' = Inr (k', uv')"
  using assms by (rule oxm_normalize_user_idem)

theorem oxm_normalize_user_idempotent_witness:
  "oxm_normalize_user netaddr_raw ''vlan_vid'' (UVM (Some (VInt 0)) (Some (VInt 4096)))
     = Inr (''vlan_vid'', UVM (Some (VInt 0)) (Some (VInt 4096)))"
proof -
  have d: "OpenFlowBasic ''vlan_vid'' 6 (IntDescr 2) \<in> set oxm_types"
    by (simp add: oxm_types_def of13_oxm_types_def)
  note i = info_by_name_table [OF d] info_by_number_table [OF d]
  have n: "oxm_name (OpenFlowBasic ''vlan_vid'' 6 (IntDescr 2)) = ''vlan_vid''"
    "oxm_tdesc (OpenFlowBasic ''vlan_vid'' 6 (IntDescr 2)) = IntDescr 2"
    by (simp_all add: oxm_table_defs)
  have "oxm_normalize_user netaddr_raw ''vlan_vid'' (UVM (Some (VInt 1000)) (Some (VInt 4096)))
     = Inr (''vlan_vid'', UVM (Some (VInt 0)) (Some (VInt 4096)))"
    using i n
    by (simp add: oxm_normalize_user_def oxm_from_user_def oxm_to_user_def int_from_user_eq
        int_to_user_eq be_int_Cons be_bytes_numeral apply_mask_def)
  from oxm_normalize_user_idempotent [OF netaddr_ok_raw this] show ?thesis by simp
qed

end
