(* ===== verification/Wire.thy ===== *)
theory Wire
  imports Py_Struct
begin

text \<open>
  Sequences of wire objects. The parser of OpenFlow writes a list of objects with a loop that
  serialises each at the running offset and advances by its \<open>len\<close>, and reads one with a loop
  \<open>while length > 0\<close> that parses at the running offset and advances by the \<open>len\<close> of what it
  read. Both loops are modelled once, with the operation on one object as an argument; the
  locale \<open>wire_codec\<close> states the contract of that operation and proves the loops inverse to
  each other.
\<close>

section \<open>The loops\<close>

fun ser_list :: "('a \<Rightarrow> bytes \<Rightarrow> nat \<Rightarrow> (bytes \<times> nat) res) \<Rightarrow> 'a list \<Rightarrow> bytes \<Rightarrow> nat \<Rightarrow> (bytes \<times> nat) res"
where
  "ser_list ser [] buf offset = Inr (buf, offset)"
| "ser_list ser (x # xs) buf offset =
     rbind (ser x buf offset) (\<lambda>(buf', len). ser_list ser xs buf' (offset + len))"

text \<open>
  An object of length zero leaves the offset and the remaining length as they are, so the loop
  parses the same object for ever.
\<close>

function par_loop :: "(bytes \<Rightarrow> nat \<Rightarrow> ('a \<times> nat) res) \<Rightarrow> bytes \<Rightarrow> nat \<Rightarrow> nat \<Rightarrow> 'a list res" where
  "par_loop par buf offset len =
     (if len = 0 then Inr []
      else rbind (par buf offset) (\<lambda>(x, l).
             if l = 0 then Inl Diverges
             else rbind (par_loop par buf (offset + l) (len - l)) (\<lambda>xs. Inr (x # xs))))"
  by pat_completeness auto

termination
  by (relation "measure (\<lambda>(par, buf, offset, len). len)") auto

declare par_loop.simps [simp del]

text \<open>The same loop executed for at most \<open>n\<close> rounds; \<open>None\<close> when it has not left by then.\<close>

fun par_rounds :: "nat \<Rightarrow> (bytes \<Rightarrow> nat \<Rightarrow> ('a \<times> nat) res) \<Rightarrow> bytes \<Rightarrow> nat \<Rightarrow> nat \<Rightarrow> 'a list res option"
where
  "par_rounds 0 par buf offset len = (if len = 0 then Some (Inr []) else None)"
| "par_rounds (Suc n) par buf offset len =
     (if len = 0 then Some (Inr [])
      else case par buf offset of
             Inl e \<Rightarrow> Some (Inl e)
           | Inr (x, l) \<Rightarrow>
               (case par_rounds n par buf (offset + l) (len - l) of
                  None \<Rightarrow> None
                | Some r \<Rightarrow> Some (rbind r (\<lambda>xs. Inr (x # xs)))))"

section \<open>The loop with and without fuel\<close>

lemma par_rounds_stuck:
  assumes "par buf offset = Inr (x, 0)" and "0 < len"
  shows "par_rounds n par buf offset len = None"
  using assms by (induction n) auto

lemma par_rounds_enough:
  assumes "\<And>o'. par buf o' \<noteq> Inl Diverges" and "par_loop par buf offset len \<noteq> Inl Diverges"
    and "len \<le> n"
  shows "par_rounds n par buf offset len = Some (par_loop par buf offset len)"
  using assms(2,3)
proof (induction n arbitrary: offset len)
  case 0
  then show ?case by (simp add: par_loop.simps)
next
  case (Suc n)
  show ?case
  proof (cases "len = 0")
    case True
    then show ?thesis by (simp add: par_loop.simps)
  next
    case False
    show ?thesis
    proof (cases "par buf offset")
      case (Inl e)
      with False show ?thesis by (simp add: par_loop.simps [of par buf offset len])
    next
      case (Inr p)
      obtain x l where p: "p = (x, l)" by (cases p)
      with Inr False Suc.prems have l: "l \<noteq> 0"
        by (auto simp: par_loop.simps [of par buf offset len] split: if_splits)
      have "par_loop par buf (offset + l) (len - l) \<noteq> Inl Diverges"
        using Suc.prems(1) Inr p False l by (auto simp: par_loop.simps [of par buf offset len])
      then have "par_rounds n par buf (offset + l) (len - l)
          = Some (par_loop par buf (offset + l) (len - l))"
        using Suc.prems(2) l by (intro Suc.IH) auto
      with Inr p False l show ?thesis by (simp add: par_loop.simps [of par buf offset len])
    qed
  qed
qed

lemma par_rounds_diverges:
  assumes "\<And>o'. par buf o' \<noteq> Inl Diverges" and "par_loop par buf offset len = Inl Diverges"
  shows "par_rounds n par buf offset len = None"
  using assms(2)
proof (induction n arbitrary: offset len)
  case 0
  then show ?case by (auto simp: par_loop.simps [of par buf offset len] split: if_splits)
next
  case (Suc n)
  then have len: "len \<noteq> 0" by (auto simp: par_loop.simps [of par buf offset len] split: if_splits)
  with Suc.prems assms(1) obtain x l where p: "par buf offset = Inr (x, l)"
    by (auto simp: par_loop.simps [of par buf offset len] rbind_eq_Inl)
  show ?case
  proof (cases "l = 0")
    case True
    with p len show ?thesis by (simp add: par_rounds_stuck del: par_rounds.simps)
  next
    case False
    with Suc.prems p len have "par_loop par buf (offset + l) (len - l) = Inl Diverges"
      by (auto simp: par_loop.simps [of par buf offset len] rbind_eq_Inl)
    with Suc.IH p len show ?thesis by simp
  qed
qed

section \<open>Reading a sequence of encoded objects\<close>

lemma par_loop_all:
  assumes "\<And>x pre post. x \<in> set xs \<Longrightarrow> par (pre @ enc x @ post) (length pre) = Inr (f x, length (enc x))"
    and "\<And>x. x \<in> set xs \<Longrightarrow> enc x \<noteq> []"
  shows "par_loop par (pre @ concat (map enc xs) @ post) (length pre) (length (concat (map enc xs)))
         = Inr (map f xs)"
  using assms
proof (induction xs arbitrary: pre)
  case Nil
  then show ?case by (simp add: par_loop.simps)
next
  case (Cons x xs)
  let ?tl = "concat (map enc xs)"
  have p: "par (pre @ enc x @ ?tl @ post) (length pre) = Inr (f x, length (enc x))"
    using Cons.prems(1) [of x pre "?tl @ post"] by simp
  have "par_loop par ((pre @ enc x) @ ?tl @ post) (length (pre @ enc x)) (length ?tl) = Inr (map f xs)"
    using Cons.prems by (intro Cons.IH) auto
  then have "par_loop par (pre @ enc x @ ?tl @ post) (length pre + length (enc x)) (length ?tl) = Inr (map f xs)"
    by simp
  with p Cons.prems(2) [of x] show ?case by (subst par_loop.simps) simp
qed

section \<open>The contract of one object\<close>

text \<open>
  \<open>ok\<close> selects the objects that can be written, \<open>enc\<close> gives their bytes. Writing at an offset
  at or past the end of the buffer appends the bytes; parsing them back in any context gives
  the object and its length.
\<close>

locale wire_codec =
  fixes ser :: "'a \<Rightarrow> bytes \<Rightarrow> nat \<Rightarrow> (bytes \<times> nat) res"
    and par :: "bytes \<Rightarrow> nat \<Rightarrow> ('a \<times> nat) res"
    and ok :: "'a \<Rightarrow> bool"
    and enc :: "'a \<Rightarrow> bytes"
  assumes ser_ok: "ok x \<Longrightarrow> length buf \<le> offset \<Longrightarrow>
                     ser x buf offset = Inr (grow offset buf @ enc x, length (enc x))"
    and par_ok: "ok x \<Longrightarrow> par (pre @ enc x @ post) (length pre) = Inr (x, length (enc x))"
    and enc_nonempty: "ok x \<Longrightarrow> enc x \<noteq> []"
begin

lemma ser_list_ok:
  assumes "list_all ok xs" and "length buf \<le> offset"
  shows "ser_list ser xs buf offset =
         Inr (if xs = [] then buf else grow offset buf @ concat (map enc xs),
              offset + length (concat (map enc xs)))"
  using assms
proof (induction xs arbitrary: buf offset)
  case (Cons x xs)
  then have "ser_list ser xs (grow offset buf @ enc x) (offset + length (enc x)) =
      Inr (if xs = [] then grow offset buf @ enc x
           else grow (offset + length (enc x)) (grow offset buf @ enc x) @ concat (map enc xs),
           offset + length (enc x) + length (concat (map enc xs)))"
    by (intro Cons.IH) auto
  with Cons.prems show ?case
    by (simp add: ser_ok grow_append_ge add.assoc)
qed simp

lemma par_loop_ok:
  assumes "list_all ok xs"
  shows "par_loop par (pre @ concat (map enc xs) @ post) (length pre) (length (concat (map enc xs)))
         = Inr xs"
  using par_loop_all [of xs par enc "\<lambda>x. x"] assms par_ok enc_nonempty by (auto simp: list_all_iff)

lemma list_roundtrip:
  assumes "list_all ok xs" and "xs \<noteq> []"
  shows "\<exists>bs. (\<forall>buf offset. length buf \<le> offset \<longrightarrow>
                 ser_list ser xs buf offset = Inr (grow offset buf @ bs, offset + length bs)) \<and>
              (\<forall>pre post. par_loop par (pre @ bs @ post) (length pre) (length bs) = Inr xs)"
  using ser_list_ok [OF assms(1)] par_loop_ok [OF assms(1)] assms(2) by auto

end

end
