(* ===== verification/OF13_Match.thy ===== *)
theory OF13_Match
  imports Oxm_Codec Wire
begin

text \<open>
  \<open>OFPMatch\<close> of \<open>ryu/ofproto/ofproto_v1_3_parser.py\<close> with its keyword interface, and the field
  classes \<open>MT*\<close> below \<open>OFPMatchField\<close> that the parser still fills for the older interface. The
  setters of the older interface (\<open>set_*\<close>, with \<open>Flow\<close> and \<open>FlowWildcards\<close>) are not modelled, so
  a match here always has the default wildcards.
\<close>

section \<open>The field classes of the older interface\<close>

text \<open>
  What a class packs: an integer of a width, a byte string, the VLAN identifier whose presence
  bit the parser clears, the eight groups of an IPv6 address, or the three bytes of an I-SID.
\<close>

datatype mt_kind = MTInt nat | MTStr nat | MTVid | MTV6 | MTIsid

datatype mt_val = MTI int | MTS bytes | MTL "int list"

record mt_desc =
  mt_class :: string
  mt_oxm :: string
  mt_masked :: bool
  mt_kind :: mt_kind

definition mt_classes_a :: "mt_desc list" where
  "mt_classes_a =
    [\<lparr>mt_class = ''MTInPort'', mt_oxm = ''in_port'', mt_masked = False, mt_kind = MTInt 4\<rparr>,
     \<lparr>mt_class = ''MTMetadata'', mt_oxm = ''metadata'', mt_masked = True, mt_kind = MTInt 8\<rparr>,
     \<lparr>mt_class = ''MTInPhyPort'', mt_oxm = ''in_phy_port'', mt_masked = False, mt_kind = MTInt 4\<rparr>,
     \<lparr>mt_class = ''MTEthDst'', mt_oxm = ''eth_dst'', mt_masked = True, mt_kind = MTStr 6\<rparr>,
     \<lparr>mt_class = ''MTEthSrc'', mt_oxm = ''eth_src'', mt_masked = True, mt_kind = MTStr 6\<rparr>,
     \<lparr>mt_class = ''MTEthType'', mt_oxm = ''eth_type'', mt_masked = False, mt_kind = MTInt 2\<rparr>,
     \<lparr>mt_class = ''MTVlanVid'', mt_oxm = ''vlan_vid'', mt_masked = True, mt_kind = MTVid\<rparr>,
     \<lparr>mt_class = ''MTVlanPcp'', mt_oxm = ''vlan_pcp'', mt_masked = False, mt_kind = MTInt 1\<rparr>,
     \<lparr>mt_class = ''MTIPDscp'', mt_oxm = ''ip_dscp'', mt_masked = False, mt_kind = MTInt 1\<rparr>,
     \<lparr>mt_class = ''MTIPECN'', mt_oxm = ''ip_ecn'', mt_masked = False, mt_kind = MTInt 1\<rparr>,
     \<lparr>mt_class = ''MTIPProto'', mt_oxm = ''ip_proto'', mt_masked = False, mt_kind = MTInt 1\<rparr>,
     \<lparr>mt_class = ''MTIPV4Src'', mt_oxm = ''ipv4_src'', mt_masked = True, mt_kind = MTInt 4\<rparr>,
     \<lparr>mt_class = ''MTIPV4Dst'', mt_oxm = ''ipv4_dst'', mt_masked = True, mt_kind = MTInt 4\<rparr>,
     \<lparr>mt_class = ''MTTCPSrc'', mt_oxm = ''tcp_src'', mt_masked = False, mt_kind = MTInt 2\<rparr>]"

definition mt_classes_b :: "mt_desc list" where
  "mt_classes_b =
    [\<lparr>mt_class = ''MTTCPDst'', mt_oxm = ''tcp_dst'', mt_masked = False, mt_kind = MTInt 2\<rparr>,
     \<lparr>mt_class = ''MTUDPSrc'', mt_oxm = ''udp_src'', mt_masked = False, mt_kind = MTInt 2\<rparr>,
     \<lparr>mt_class = ''MTUDPDst'', mt_oxm = ''udp_dst'', mt_masked = False, mt_kind = MTInt 2\<rparr>,
     \<lparr>mt_class = ''MTSCTPSrc'', mt_oxm = ''sctp_src'', mt_masked = False, mt_kind = MTInt 2\<rparr>,
     \<lparr>mt_class = ''MTSCTPDst'', mt_oxm = ''sctp_dst'', mt_masked = False, mt_kind = MTInt 2\<rparr>,
     \<lparr>mt_class = ''MTICMPV4Type'', mt_oxm = ''icmpv4_type'', mt_masked = False, mt_kind = MTInt 1\<rparr>,
     \<lparr>mt_class = ''MTICMPV4Code'', mt_oxm = ''icmpv4_code'', mt_masked = False, mt_kind = MTInt 1\<rparr>,
     \<lparr>mt_class = ''MTArpOp'', mt_oxm = ''arp_op'', mt_masked = False, mt_kind = MTInt 2\<rparr>,
     \<lparr>mt_class = ''MTArpSpa'', mt_oxm = ''arp_spa'', mt_masked = True, mt_kind = MTInt 4\<rparr>,
     \<lparr>mt_class = ''MTArpTpa'', mt_oxm = ''arp_tpa'', mt_masked = True, mt_kind = MTInt 4\<rparr>,
     \<lparr>mt_class = ''MTArpSha'', mt_oxm = ''arp_sha'', mt_masked = True, mt_kind = MTStr 6\<rparr>,
     \<lparr>mt_class = ''MTArpTha'', mt_oxm = ''arp_tha'', mt_masked = True, mt_kind = MTStr 6\<rparr>]"

definition mt_classes_c :: "mt_desc list" where
  "mt_classes_c =
    [\<lparr>mt_class = ''MTIPv6Src'', mt_oxm = ''ipv6_src'', mt_masked = True, mt_kind = MTV6\<rparr>,
     \<lparr>mt_class = ''MTIPv6Dst'', mt_oxm = ''ipv6_dst'', mt_masked = True, mt_kind = MTV6\<rparr>,
     \<lparr>mt_class = ''MTIPv6Flabel'', mt_oxm = ''ipv6_flabel'', mt_masked = True, mt_kind = MTInt 4\<rparr>,
     \<lparr>mt_class = ''MTMplsLabel'', mt_oxm = ''mpls_label'', mt_masked = False, mt_kind = MTInt 4\<rparr>,
     \<lparr>mt_class = ''MTICMPV6Type'', mt_oxm = ''icmpv6_type'', mt_masked = False, mt_kind = MTInt 1\<rparr>,
     \<lparr>mt_class = ''MTICMPV6Code'', mt_oxm = ''icmpv6_code'', mt_masked = False, mt_kind = MTInt 1\<rparr>,
     \<lparr>mt_class = ''MTIPv6NdTarget'', mt_oxm = ''ipv6_nd_target'', mt_masked = False, mt_kind = MTV6\<rparr>,
     \<lparr>mt_class = ''MTIPv6NdSll'', mt_oxm = ''ipv6_nd_sll'', mt_masked = False, mt_kind = MTStr 6\<rparr>,
     \<lparr>mt_class = ''MTIPv6NdTll'', mt_oxm = ''ipv6_nd_tll'', mt_masked = False, mt_kind = MTStr 6\<rparr>,
     \<lparr>mt_class = ''MTMplsTc'', mt_oxm = ''mpls_tc'', mt_masked = False, mt_kind = MTInt 1\<rparr>,
     \<lparr>mt_class = ''MTMplsBos'', mt_oxm = ''mpls_bos'', mt_masked = False, mt_kind = MTInt 1\<rparr>,
     \<lparr>mt_class = ''MTPbbIsid'', mt_oxm = ''pbb_isid'', mt_masked = True, mt_kind = MTIsid\<rparr>,
     \<lparr>mt_class = ''MTTunnelId'', mt_oxm = ''tunnel_id'', mt_masked = True, mt_kind = MTInt 8\<rparr>]"

definition mt_classes_d :: "mt_desc list" where
  "mt_classes_d =
    [\<lparr>mt_class = ''MTIPv6ExtHdr'', mt_oxm = ''ipv6_exthdr'', mt_masked = True, mt_kind = MTInt 2\<rparr>,
     \<lparr>mt_class = ''MTTCPFlags'', mt_oxm = ''tcp_flags'', mt_masked = True, mt_kind = MTInt 2\<rparr>]"

definition mt_classes :: "mt_desc list" where
  "mt_classes = mt_classes_a @ mt_classes_b @ mt_classes_c @ mt_classes_d"

fun mt_size :: "mt_kind \<Rightarrow> nat" where
  "mt_size (MTInt n) = n"
| "mt_size (MTStr n) = n"
| "mt_size MTVid = 2"
| "mt_size MTV6 = 16"
| "mt_size MTIsid = 3"

text \<open>The headers a class is registered for: \<open>OXM_OF_<NAME>\<close> and, where listed, \<open>OXM_OF_<NAME>_W\<close>.\<close>

definition mt_registered :: "int \<Rightarrow> mt_desc \<Rightarrow> bool" where
  "mt_registered header d \<longleftrightarrow>
     (case name_to_field (mt_oxm d) of
        None \<Rightarrow> False
      | Some f \<Rightarrow>
          (case type_size (oxm_tdesc f) of
             None \<Rightarrow> False
           | Some sz \<Rightarrow>
               header = oxm_tlv_header (oxm_field f) (int sz) \<or>
               mt_masked d \<and> header = oxm_tlv_header_w (oxm_field f) (int sz)))"

definition FIELDS_HEADERS :: "int \<Rightarrow> mt_desc option" where
  "FIELDS_HEADERS header = List.find (mt_registered header) mt_classes"

record mt_field =
  mf_class :: "mt_desc option"
  mf_header :: int
  mf_value :: "mt_val option"
  mf_mask :: "mt_val option"
  mf_length :: nat

fun groups_of :: "nat \<Rightarrow> nat \<Rightarrow> bytes \<Rightarrow> int list" where
  "groups_of w 0 b = []"
| "groups_of w (Suc n) b = be_int (take w b) # groups_of w n (drop w b)"

fun mt_read :: "mt_kind \<Rightarrow> bytes \<Rightarrow> mt_val" where
  "mt_read (MTInt n) b = MTI (be_int b)"
| "mt_read (MTStr n) b = MTS b"
| "mt_read MTVid b = MTI (be_int b)"
| "mt_read MTV6 b = MTL (groups_of 2 8 b)"
| "mt_read MTIsid b =
     (let v = groups_of 1 3 b in MTI (push_bit 16 (v ! 0) OR push_bit 8 (v ! 1) OR v ! 2))"

definition OFPVID_PRESENT :: int where "OFPVID_PRESENT = 0x1000"

fun mt_fix_value :: "mt_kind \<Rightarrow> mt_val \<Rightarrow> mt_val" where
  "mt_fix_value MTVid (MTI v) = MTI (v AND NOT OFPVID_PRESENT)"
| "mt_fix_value k v = v"

definition mt_field_parser :: "mt_desc \<Rightarrow> int \<Rightarrow> bytes \<Rightarrow> nat \<Rightarrow> mt_field res" where
  "mt_field_parser d header buf offset =
     (let n = mt_size (mt_kind d) in
      if oxm_tlv_header_extract_hasmask header \<noteq> 0
      then rbind (unpack_str (n + n) buf (offset + 4)) (\<lambda>b.
             Inr \<lparr>mf_class = Some d, mf_header = header,
                  mf_value = Some (mt_fix_value (mt_kind d) (mt_read (mt_kind d) (take n b))),
                  mf_mask = Some (mt_read (mt_kind d) (drop n b)), mf_length = 0\<rparr>)
      else rbind (unpack_str n buf (offset + 4)) (\<lambda>b.
             Inr \<lparr>mf_class = Some d, mf_header = header,
                  mf_value = Some (mt_fix_value (mt_kind d) (mt_read (mt_kind d) b)),
                  mf_mask = None, mf_length = 0\<rparr>))"

definition OFPMatchField_parser :: "bytes \<Rightarrow> nat \<Rightarrow> (mt_field \<times> nat) res" where
  "OFPMatchField_parser buf offset =
     rbind (unpack_from [fI] buf offset) (\<lambda>hs.
       let header = hs ! 0 in
       rbind (case FIELDS_HEADERS header of
                Some d \<Rightarrow> mt_field_parser d header buf offset
              | None \<Rightarrow> Inr \<lparr>mf_class = None, mf_header = header, mf_value = None, mf_mask = None,
                             mf_length = 0\<rparr>) (\<lambda>field.
         let len = nat (header AND 0xff) + 4 in Inr (field\<lparr>mf_length := len\<rparr>, len)))"

definition OFPMatchField_make :: "int \<Rightarrow> mt_val \<Rightarrow> mt_val option \<Rightarrow> mt_field res" where
  "OFPMatchField_make header value msk =
     (case FIELDS_HEADERS header of
        None \<Rightarrow> Inl TypeError
      | Some d \<Rightarrow> Inr \<lparr>mf_class = Some d, mf_header = header, mf_value = Some value,
                       mf_mask = (if mt_masked d then msk else None), mf_length = 0\<rparr>)"

text \<open>\<open>struct.pack\<close> of one value; a byte string is cut or padded to its width.\<close>

fun mt_put :: "mt_kind \<Rightarrow> mt_val \<Rightarrow> bytes res" where
  "mt_put (MTInt n) (MTI v) = struct_pack [UInt n] [v]"
| "mt_put MTVid (MTI v) = struct_pack [UInt 2] [v]"
| "mt_put (MTStr n) (MTS b) = Inr (take n (b @ zeros n))"
| "mt_put MTV6 (MTL vs) = struct_pack (replicate 8 fH) vs"
| "mt_put MTIsid (MTI v) =
     struct_pack [fB, fB, fB] [drop_bit 16 v AND 0xff, drop_bit 8 v AND 0xff, v AND 0xff]"
| "mt_put k v = Inl StructError"

definition mt_n_bytes :: "mt_field \<Rightarrow> nat" where
  "mt_n_bytes f = nat (oxm_tlv_header_extract_length (mf_header f))"

definition mt_put_at :: "mt_field \<Rightarrow> mt_kind \<Rightarrow> mt_val \<Rightarrow> bytes \<Rightarrow> nat \<Rightarrow> bytes res" where
  "mt_put_at f k v buf offset = rbind (mt_put k v) (\<lambda>p. Inr (pack_at p offset buf))"

text \<open>
  Whether the mask follows the value: by the mask bit of the header, except that the IPv6
  classes look at the mask itself (an empty list counts as none).
\<close>

definition mt_writes_mask :: "mt_desc \<Rightarrow> mt_field \<Rightarrow> bool" where
  "mt_writes_mask d f \<longleftrightarrow>
     (if mt_kind d = MTV6 then mf_mask f \<noteq> None \<and> mf_mask f \<noteq> Some (MTL [])
      else oxm_tlv_header_extract_hasmask (mf_header f) \<noteq> 0)"

definition mt_serialize :: "mt_field \<Rightarrow> bytes \<Rightarrow> nat \<Rightarrow> (bytes \<times> nat) res" where
  "mt_serialize f buf offset =
     (case (mf_class f, mf_value f) of
        (Some d, Some v) \<Rightarrow>
          rbind (msg_pack_into [fI] buf offset [mf_header f]) (\<lambda>buf1.
          rbind (mt_put_at f (mt_kind d) v buf1 (offset + 4)) (\<lambda>buf2.
            if mt_writes_mask d f
            then rbind (rget StructError (mf_mask f)) (\<lambda>m.
                 rbind (mt_put_at f (mt_kind d) m buf2 (offset + 4 + mt_n_bytes f)) (\<lambda>buf3.
                   Inr (buf3, 4 + mt_n_bytes f + mt_n_bytes f)))
            else Inr (buf2, 4 + mt_n_bytes f)))
      | _ \<Rightarrow> Inl AttributeError)"

section \<open>The old interface of a match\<close>

text \<open>
  The setters of the old interface record a value in \<open>_flow\<close>, a mask in \<open>_wc\<close> and clear the
  wildcard bit of the field. Both objects are modelled by their \<open>__dict__\<close>, an association list
  in the order of the constructor.
\<close>

definition UINT64_MAX :: int where "UINT64_MAX = 0xffffffffffffffff"

definition UINT32_MAX :: int where "UINT32_MAX = 0xffffffff"

definition UINT16_MAX :: int where "UINT16_MAX = 0xffff"

type_synonym attr_dict = "(string \<times> mt_val) list"

definition Flow :: attr_dict where
  "Flow =
    [(''in_port'', MTI 0), (''in_phy_port'', MTI 0), (''metadata'', MTI 0),
     (''dl_dst'', MTS (zeros 6)), (''dl_src'', MTS (zeros 6)), (''dl_type'', MTI 0),
     (''vlan_vid'', MTI 0), (''vlan_pcp'', MTI 0), (''ip_dscp'', MTI 0), (''ip_ecn'', MTI 0),
     (''ip_proto'', MTI 0), (''ipv4_src'', MTI 0), (''ipv4_dst'', MTI 0), (''tcp_src'', MTI 0),
     (''tcp_dst'', MTI 0), (''tcp_flags'', MTI 0), (''udp_src'', MTI 0), (''udp_dst'', MTI 0),
     (''sctp_src'', MTI 0), (''sctp_dst'', MTI 0), (''icmpv4_type'', MTI 0),
     (''icmpv4_code'', MTI 0), (''arp_op'', MTI 0), (''arp_spa'', MTI 0), (''arp_tpa'', MTI 0),
     (''arp_sha'', MTI 0), (''arp_tha'', MTI 0), (''ipv6_src'', MTL []), (''ipv6_dst'', MTL []),
     (''ipv6_flabel'', MTI 0), (''icmpv6_type'', MTI 0), (''icmpv6_code'', MTI 0),
     (''ipv6_nd_target'', MTL []), (''ipv6_nd_sll'', MTI 0), (''ipv6_nd_tll'', MTI 0),
     (''mpls_label'', MTI 0), (''mpls_tc'', MTI 0), (''mpls_bos'', MTI 0), (''pbb_isid'', MTI 0),
     (''tunnel_id'', MTI 0), (''ipv6_exthdr'', MTI 0)]"

record flow_wildcards =
  wc_masks :: attr_dict
  wc_wildcards :: int

definition FlowWildcards :: flow_wildcards where
  "FlowWildcards = \<lparr>wc_masks =
    [(''metadata_mask'', MTI 0), (''flags_mask'', MTI 0), (''dl_dst_mask'', MTI 0),
     (''dl_src_mask'', MTI 0), (''vlan_vid_mask'', MTI 0), (''ipv4_src_mask'', MTI 0),
     (''ipv4_dst_mask'', MTI 0), (''arp_spa_mask'', MTI 0), (''arp_tpa_mask'', MTI 0),
     (''arp_sha_mask'', MTI 0), (''arp_tha_mask'', MTI 0), (''tcp_flags_mask'', MTI 0),
     (''ipv6_src_mask'', MTL []), (''ipv6_dst_mask'', MTL []), (''ipv6_flabel_mask'', MTI 0),
     (''pbb_isid_mask'', MTI 0), (''tunnel_id_mask'', MTI 0), (''ipv6_exthdr_mask'', MTI 0)],
     wc_wildcards = UINT64_MAX\<rparr>"

definition ft_set :: "nat \<Rightarrow> flow_wildcards \<Rightarrow> flow_wildcards" where
  "ft_set shift wc = wc\<lparr>wc_wildcards := wc_wildcards wc AND NOT (push_bit shift 1)\<rparr>"

definition ft_test :: "nat \<Rightarrow> flow_wildcards \<Rightarrow> bool" where
  "ft_test shift wc \<longleftrightarrow> wc_wildcards wc AND push_bit shift 1 = 0"

definition attr_get :: "attr_dict \<Rightarrow> string \<Rightarrow> mt_val res" where
  "attr_get d a = rget AttributeError (map_of d a)"

definition attr_set :: "string \<Rightarrow> mt_val \<Rightarrow> attr_dict \<Rightarrow> attr_dict" where
  "attr_set a v d = map (\<lambda>(k, w). if k = a then (k, v) else (k, w)) d"

text \<open>The attributes \<open>OFPXMT_OFB_<NAME>\<close>, \<open>OXM_OF_<NAME>\<close> and \<open>OXM_OF_<NAME>_W\<close> of the module.\<close>

definition OFPXMT_OFB :: "string \<Rightarrow> nat" where
  "OFPXMT_OFB name = nat (oxm_field (the (name_to_field name)))"

definition OXM_OF_W :: "string \<Rightarrow> int res" where
  "OXM_OF_W name =
     rbind (OXM_OF name) (\<lambda>_.
     rbind (rget AttributeError (name_to_field name)) (\<lambda>i.
     rbind (rget AttributeError (type_size (oxm_tdesc i))) (\<lambda>sz.
       Inr (oxm_tlv_header_w (oxm_field i) (int sz)))))"

text \<open>How \<open>serialize_old\<close> chooses between the header with and without mask.\<close>

datatype old_mask = NoMask | FullMask string int | TrueMask string | LenMask string

definition old_fields_a :: "(string \<times> string \<times> old_mask) list" where
  "old_fields_a =
    [(''in_port'', ''in_port'', NoMask),
     (''in_phy_port'', ''in_phy_port'', NoMask),
     (''metadata'', ''metadata'', FullMask ''metadata_mask'' UINT64_MAX),
     (''eth_dst'', ''dl_dst'', TrueMask ''dl_dst_mask''),
     (''eth_src'', ''dl_src'', TrueMask ''dl_src_mask''),
     (''eth_type'', ''dl_type'', NoMask),
     (''vlan_vid'', ''vlan_vid'', FullMask ''vlan_vid_mask'' UINT16_MAX),
     (''vlan_pcp'', ''vlan_pcp'', NoMask),
     (''ip_dscp'', ''ip_dscp'', NoMask),
     (''ip_ecn'', ''ip_ecn'', NoMask),
     (''ip_proto'', ''ip_proto'', NoMask),
     (''ipv4_src'', ''ipv4_src'', FullMask ''ipv4_src_mask'' UINT32_MAX),
     (''ipv4_dst'', ''ipv4_dst'', FullMask ''ipv4_dst_mask'' UINT32_MAX),
     (''tcp_src'', ''tcp_src'', NoMask),
     (''tcp_dst'', ''tcp_dst'', NoMask),
     (''tcp_flags'', ''tcp_flags'', FullMask ''tcp_flags_mask'' UINT16_MAX),
     (''udp_src'', ''udp_src'', NoMask),
     (''udp_dst'', ''udp_dst'', NoMask),
     (''sctp_src'', ''sctp_src'', NoMask),
     (''sctp_dst'', ''sctp_dst'', NoMask),
     (''icmpv4_type'', ''icmpv4_type'', NoMask),
     (''icmpv4_code'', ''icmpv4_code'', NoMask),
     (''arp_op'', ''arp_op'', NoMask),
     (''arp_spa'', ''arp_spa'', FullMask ''arp_spa_mask'' UINT32_MAX)]"

definition old_fields_b :: "(string \<times> string \<times> old_mask) list" where
  "old_fields_b =
    [(''arp_tpa'', ''arp_tpa'', FullMask ''arp_tpa_mask'' UINT32_MAX),
     (''arp_sha'', ''arp_sha'', TrueMask ''arp_sha_mask''),
     (''arp_tha'', ''arp_tha'', TrueMask ''arp_tha_mask''),
     (''ipv6_src'', ''ipv6_src'', LenMask ''ipv6_src_mask''),
     (''ipv6_dst'', ''ipv6_dst'', LenMask ''ipv6_dst_mask''),
     (''ipv6_flabel'', ''ipv6_flabel'', FullMask ''ipv6_flabel_mask'' UINT32_MAX),
     (''icmpv6_type'', ''icmpv6_type'', NoMask),
     (''icmpv6_code'', ''icmpv6_code'', NoMask),
     (''ipv6_nd_target'', ''ipv6_nd_target'', NoMask),
     (''ipv6_nd_sll'', ''ipv6_nd_sll'', NoMask),
     (''ipv6_nd_tll'', ''ipv6_nd_tll'', NoMask),
     (''mpls_label'', ''mpls_label'', NoMask),
     (''mpls_tc'', ''mpls_tc'', NoMask),
     (''mpls_bos'', ''mpls_bos'', NoMask),
     (''pbb_isid'', ''pbb_isid'', TrueMask ''pbb_isid_mask''),
     (''tunnel_id'', ''tunnel_id'', TrueMask ''tunnel_id_mask''),
     (''ipv6_exthdr'', ''ipv6_exthdr'', TrueMask ''ipv6_exthdr_mask'')]"

fun mt_true :: "mt_val \<Rightarrow> bool" where
  "mt_true (MTI i) \<longleftrightarrow> i \<noteq> 0"
| "mt_true (MTS b) \<longleftrightarrow> b \<noteq> []"
| "mt_true (MTL l) \<longleftrightarrow> l \<noteq> []"

fun mt_len :: "mt_val \<Rightarrow> nat res" where
  "mt_len (MTI i) = Inl TypeError"
| "mt_len (MTS b) = Inr (length b)"
| "mt_len (MTL l) = Inr (length l)"

fun old_header :: "flow_wildcards \<Rightarrow> string \<Rightarrow> old_mask \<Rightarrow> (int \<times> mt_val option) res" where
  "old_header wc name NoMask = rbind (OXM_OF name) (\<lambda>h. Inr (h, None))"
| "old_header wc name (FullMask a full) =
     rbind (attr_get (wc_masks wc) a) (\<lambda>m.
     rbind (if m = MTI full then OXM_OF name else OXM_OF_W name) (\<lambda>h. Inr (h, Some m)))"
| "old_header wc name (TrueMask a) =
     rbind (attr_get (wc_masks wc) a) (\<lambda>m.
     rbind (if mt_true m then OXM_OF_W name else OXM_OF name) (\<lambda>h. Inr (h, Some m)))"
| "old_header wc name (LenMask a) =
     rbind (attr_get (wc_masks wc) a) (\<lambda>m.
     rbind (mt_len m) (\<lambda>n.
     rbind (if n \<noteq> 0 then OXM_OF_W name else OXM_OF name) (\<lambda>h. Inr (h, Some m))))"

text \<open>One of the blocks of \<open>serialize_old\<close>: the field is appended when its wildcard bit is clear.\<close>

definition old_field :: "attr_dict \<Rightarrow> flow_wildcards \<Rightarrow> string \<times> string \<times> old_mask \<Rightarrow> mt_field list res" where
  "old_field flow wc e =
     (case e of (name, attr, msk) \<Rightarrow>
        if ft_test (OFPXMT_OFB name) wc
        then rbind (old_header wc name msk) (\<lambda>(h, m).
             rbind (attr_get flow attr) (\<lambda>v.
             rbind (OFPMatchField_make h v m) (\<lambda>f. Inr [f])))
        else Inr [])"

definition old_fields :: "attr_dict \<Rightarrow> flow_wildcards \<Rightarrow> mt_field list res" where
  "old_fields flow wc =
     rbind (mapM (old_field flow wc) (old_fields_a @ old_fields_b)) (\<lambda>fss. Inr (concat fss))"

section \<open>OFPMatch\<close>

type_synonym kv = "string \<times> user_value"

record of_match =
  m_type :: int
  m_length :: "int option"
  m_fields :: "mt_field list"
  m_fields2 :: "kv list"
  m_wc :: flow_wildcards
  m_flow :: attr_dict
  m_serialized :: bool

definition empty_match :: of_match where
  "empty_match =
     \<lparr>m_type = OFPMT_OXM, m_length = None, m_fields = [], m_fields2 = [],
      m_wc = FlowWildcards, m_flow = Flow, m_serialized = False\<rparr>"

fun oxm_sort_key :: "oxm_num \<Rightarrow> int" where
  "oxm_sort_key (Num n) = n"
| "oxm_sort_key (ExpNum e t) = e"

text \<open>
  The constructor. \<open>kwargs\<close> lists the keyword arguments in the order in which the normalised
  dictionary is iterated; that order is up to the Python dictionary.
\<close>

definition OFPMatch_init :: "netaddr \<Rightarrow> kv list \<Rightarrow> of_match res" where
  "OFPMatch_init na kwargs =
     rbind (mapM (\<lambda>(k, v). oxm_normalize_user na k v) kwargs) (\<lambda>kw.
     rbind (mapM (\<lambda>(k, v). oxm_from_user na k v) kw) (\<lambda>fields.
     rbind (mapM (\<lambda>(n, v, m). oxm_to_user na n v m) (sort_key (\<lambda>(n, v, m). oxm_sort_key n) fields))
       (\<lambda>fields2. Inr (empty_match\<lparr>m_fields2 := fields2\<rparr>))))"

definition composed_with_old_api :: "of_match \<Rightarrow> bool" where
  "composed_with_old_api m \<longleftrightarrow> m_fields m \<noteq> [] \<and> m_fields2 m = [] \<or> m_wc m \<noteq> FlowWildcards"

definition append_field :: "int \<Rightarrow> mt_val \<Rightarrow> mt_val option \<Rightarrow> of_match \<Rightarrow> of_match res" where
  "append_field header value msk m =
     rbind (OFPMatchField_make header value msk) (\<lambda>f. Inr (m\<lparr>m_fields := m_fields m @ [f]\<rparr>))"

text \<open>The end shared by both serialisers: the header in place and the padding.\<close>

definition match_finish :: "bytes \<Rightarrow> nat \<Rightarrow> nat \<Rightarrow> (bytes \<times> nat \<times> nat) res" where
  "match_finish buf offset field_offset =
     (let len = field_offset - offset in
      rbind (msg_pack_into [fH, fH] buf offset [OFPMT_OXM, int len]) (\<lambda>buf1.
        let pad_len = round_up len 8 - len in
        rbind (msg_pack_into [Pad pad_len] buf1 field_offset []) (\<lambda>buf2.
          Inr (buf2, len, len + pad_len))))"

definition match_serialize_old :: "of_match \<Rightarrow> bytes \<Rightarrow> nat \<Rightarrow> (of_match \<times> bytes \<times> nat) res" where
  "match_serialize_old m buf offset =
     (if m_serialized m then Inl OtherException
      else rbind (old_fields (m_flow m) (m_wc m)) (\<lambda>fs.
             let m1 = m\<lparr>m_serialized := True, m_fields := m_fields m @ fs\<rparr> in
             rbind (ser_list mt_serialize (m_fields m1) buf (offset + 4)) (\<lambda>(buf1, field_offset).
             rbind (match_finish buf1 offset field_offset) (\<lambda>(buf2, len, total).
               Inr (m1, buf2, total)))))"

definition oxm_ser :: "oxm_num \<times> bytes option \<times> bytes option \<Rightarrow> bytes \<Rightarrow> nat \<Rightarrow> (bytes \<times> nat) res" where
  "oxm_ser x buf offset = (case x of (n, v, m) \<Rightarrow> oxm_serialize n v m buf offset)"

definition match_serialize :: "netaddr \<Rightarrow> of_match \<Rightarrow> bytes \<Rightarrow> nat \<Rightarrow> (of_match \<times> bytes \<times> nat) res" where
  "match_serialize na m buf offset =
     (if composed_with_old_api m then match_serialize_old m buf offset
      else rbind (mapM (\<lambda>(k, uv). oxm_from_user na k uv) (m_fields2 m)) (\<lambda>fields.
           rbind (ser_list oxm_ser fields buf (offset + 4)) (\<lambda>(buf1, field_offset).
           rbind (match_finish buf1 offset field_offset) (\<lambda>(buf2, len, total).
             Inr (m\<lparr>m_length := Some (int len)\<rparr>, buf2, total)))))"

definition kv_par :: "netaddr \<Rightarrow> bytes \<Rightarrow> nat \<Rightarrow> (kv \<times> nat) res" where
  "kv_par na buf offset =
     rbind (oxm_parse buf offset) (\<lambda>(n, value, msk, field_len).
     rbind (oxm_to_user na n (Some value) msk) (\<lambda>(k, uv).
       Inr ((k, uv), field_len)))"

definition match_parser :: "netaddr \<Rightarrow> bytes \<Rightarrow> nat \<Rightarrow> of_match res" where
  "match_parser na buf offset =
     rbind (unpack_from [fH, fH] buf offset) (\<lambda>hs.
       let type = hs ! 0; len = hs ! 1; n = nat (len - 4) in
       rbind (par_loop OFPMatchField_parser buf (offset + 4) n) (\<lambda>fields.
       rbind (par_loop (kv_par na) buf (offset + 4) n) (\<lambda>fields2.
         Inr (empty_match\<lparr>m_type := type, m_length := Some len, m_fields := fields,
                          m_fields2 := fields2\<rparr>))))"

text \<open>The mapping interface of a match: the last pair with the key counts.\<close>

definition match_get :: "of_match \<Rightarrow> string \<Rightarrow> user_value option" where
  "match_get m key = map_of (rev (m_fields2 m)) key"

definition match_getitem :: "of_match \<Rightarrow> string \<Rightarrow> user_value res" where
  "match_getitem m key = rget KeyError (match_get m key)"

definition match_contains :: "of_match \<Rightarrow> string \<Rightarrow> bool" where
  "match_contains m key \<longleftrightarrow> match_get m key \<noteq> None"

end
