(* ===== verification/OF13_Match_Old.thy ===== *)
theory OF13_Match_Old
  imports OF13_Match
begin

text \<open>
  The setters of the old interface of \<open>OFPMatch\<close> (\<open>ryu/ofproto/ofproto_v1_3_parser.py\<close>): each
  clears the wildcard bit of a field and records its value and possibly a mask. MAC addresses are
  byte strings, IPv6 addresses lists of eight 16-bit groups, everything else integers.
\<close>

section \<open>Setters\<close>

definition OFPVID_NONE :: int where "OFPVID_NONE = 0"

text \<open>\<open>mac.haddr_bitand\<close> of \<open>ryu/lib/mac.py\<close>.\<close>

definition haddr_bitand :: "bytes \<Rightarrow> bytes \<Rightarrow> bytes" where
  "haddr_bitand addr msk = map (\<lambda>(a, m). a AND m) (zip addr msk)"

text \<open>The common shapes: clear the bit, set the attribute of the flow, and set the mask.\<close>

definition old_set :: "string \<Rightarrow> string \<Rightarrow> mt_val \<Rightarrow> of_match \<Rightarrow> of_match" where
  "old_set name attr v m =
     m\<lparr>m_wc := ft_set (OFPXMT_OFB name) (m_wc m), m_flow := attr_set attr v (m_flow m)\<rparr>"

definition old_set_masked ::
  "string \<Rightarrow> string \<Rightarrow> mt_val \<Rightarrow> string \<Rightarrow> mt_val \<Rightarrow> of_match \<Rightarrow> of_match" where
  "old_set_masked name attr v mask_attr msk m =
     (let m' = old_set name attr v m
      in m'\<lparr>m_wc := (m_wc m')\<lparr>wc_masks := attr_set mask_attr msk (wc_masks (m_wc m'))\<rparr>\<rparr>)"

definition set_in_port :: "int \<Rightarrow> of_match \<Rightarrow> of_match" where
  "set_in_port port m =
     old_set ''in_port'' ''in_port'' (MTI port) m"

definition set_in_phy_port :: "int \<Rightarrow> of_match \<Rightarrow> of_match" where
  "set_in_phy_port phy_port m =
     old_set ''in_phy_port'' ''in_phy_port'' (MTI phy_port) m"

definition set_metadata_masked :: "int \<Rightarrow> int \<Rightarrow> of_match \<Rightarrow> of_match" where
  "set_metadata_masked metadata msk m =
     old_set_masked ''metadata'' ''metadata'' (MTI (metadata AND msk)) ''metadata_mask'' (MTI msk) m"

definition set_dl_dst :: "bytes \<Rightarrow> of_match \<Rightarrow> of_match" where
  "set_dl_dst dl_dst m =
     old_set ''eth_dst'' ''dl_dst'' (MTS dl_dst) m"

definition set_dl_dst_masked :: "bytes \<Rightarrow> bytes \<Rightarrow> of_match \<Rightarrow> of_match" where
  "set_dl_dst_masked dl_dst msk m =
     old_set_masked ''eth_dst'' ''dl_dst'' (MTS (haddr_bitand dl_dst msk)) ''dl_dst_mask'' (MTS msk) m"

definition set_dl_src :: "bytes \<Rightarrow> of_match \<Rightarrow> of_match" where
  "set_dl_src dl_src m =
     old_set ''eth_src'' ''dl_src'' (MTS dl_src) m"

definition set_dl_src_masked :: "bytes \<Rightarrow> bytes \<Rightarrow> of_match \<Rightarrow> of_match" where
  "set_dl_src_masked dl_src msk m =
     old_set_masked ''eth_src'' ''dl_src'' (MTS (haddr_bitand dl_src msk)) ''dl_src_mask'' (MTS msk) m"

definition set_dl_type :: "int \<Rightarrow> of_match \<Rightarrow> of_match" where
  "set_dl_type dl_type m =
     old_set ''eth_type'' ''dl_type'' (MTI dl_type) m"

definition set_vlan_vid_none :: "of_match \<Rightarrow> of_match" where
  "set_vlan_vid_none m =
     old_set_masked ''vlan_vid'' ''vlan_vid'' (MTI OFPVID_NONE) ''vlan_vid_mask'' (MTI UINT16_MAX) m"

definition set_vlan_vid_masked :: "int \<Rightarrow> int \<Rightarrow> of_match \<Rightarrow> of_match" where
  "set_vlan_vid_masked vid msk m =
     old_set_masked ''vlan_vid'' ''vlan_vid'' (MTI (vid OR OFPVID_PRESENT)) ''vlan_vid_mask'' (MTI msk) m"

definition set_vlan_pcp :: "int \<Rightarrow> of_match \<Rightarrow> of_match" where
  "set_vlan_pcp pcp m =
     old_set ''vlan_pcp'' ''vlan_pcp'' (MTI pcp) m"

definition set_ip_dscp :: "int \<Rightarrow> of_match \<Rightarrow> of_match" where
  "set_ip_dscp ip_dscp m =
     old_set ''ip_dscp'' ''ip_dscp'' (MTI ip_dscp) m"

definition set_ip_ecn :: "int \<Rightarrow> of_match \<Rightarrow> of_match" where
  "set_ip_ecn ip_ecn m =
     old_set ''ip_ecn'' ''ip_ecn'' (MTI ip_ecn) m"

definition set_ip_proto :: "int \<Rightarrow> of_match \<Rightarrow> of_match" where
  "set_ip_proto ip_proto m =
     old_set ''ip_proto'' ''ip_proto'' (MTI ip_proto) m"

definition set_ipv4_src_masked :: "int \<Rightarrow> int \<Rightarrow> of_match \<Rightarrow> of_match" where
  "set_ipv4_src_masked ipv4_src msk m =
     old_set_masked ''ipv4_src'' ''ipv4_src'' (MTI ipv4_src) ''ipv4_src_mask'' (MTI msk) m"

definition set_ipv4_dst_masked :: "int \<Rightarrow> int \<Rightarrow> of_match \<Rightarrow> of_match" where
  "set_ipv4_dst_masked ipv4_dst msk m =
     old_set_masked ''ipv4_dst'' ''ipv4_dst'' (MTI ipv4_dst) ''ipv4_dst_mask'' (MTI msk) m"

definition set_tcp_src :: "int \<Rightarrow> of_match \<Rightarrow> of_match" where
  "set_tcp_src tcp_src m =
     old_set ''tcp_src'' ''tcp_src'' (MTI tcp_src) m"

definition set_tcp_dst :: "int \<Rightarrow> of_match \<Rightarrow> of_match" where
  "set_tcp_dst tcp_dst m =
     old_set ''tcp_dst'' ''tcp_dst'' (MTI tcp_dst) m"

definition set_tcp_flags_masked :: "int \<Rightarrow> int \<Rightarrow> of_match \<Rightarrow> of_match" where
  "set_tcp_flags_masked tcp_flags msk m =
     old_set_masked ''tcp_flags'' ''tcp_flags'' (MTI tcp_flags) ''tcp_flags_mask'' (MTI msk) m"

definition set_udp_src :: "int \<Rightarrow> of_match \<Rightarrow> of_match" where
  "set_udp_src udp_src m =
     old_set ''udp_src'' ''udp_src'' (MTI udp_src) m"

definition set_udp_dst :: "int \<Rightarrow> of_match \<Rightarrow> of_match" where
  "set_udp_dst udp_dst m =
     old_set ''udp_dst'' ''udp_dst'' (MTI udp_dst) m"

definition set_sctp_src :: "int \<Rightarrow> of_match \<Rightarrow> of_match" where
  "set_sctp_src sctp_src m =
     old_set ''sctp_src'' ''sctp_src'' (MTI sctp_src) m"

definition set_sctp_dst :: "int \<Rightarrow> of_match \<Rightarrow> of_match" where
  "set_sctp_dst sctp_dst m =
     old_set ''sctp_dst'' ''sctp_dst'' (MTI sctp_dst) m"

definition set_icmpv4_type :: "int \<Rightarrow> of_match \<Rightarrow> of_match" where
  "set_icmpv4_type icmpv4_type m =
     old_set ''icmpv4_type'' ''icmpv4_type'' (MTI icmpv4_type) m"

definition set_icmpv4_code :: "int \<Rightarrow> of_match \<Rightarrow> of_match" where
  "set_icmpv4_code icmpv4_code m =
     old_set ''icmpv4_code'' ''icmpv4_code'' (MTI icmpv4_code) m"

definition set_arp_opcode :: "int \<Rightarrow> of_match \<Rightarrow> of_match" where
  "set_arp_opcode arp_op m =
     old_set ''arp_op'' ''arp_op'' (MTI arp_op) m"

definition set_arp_spa_masked :: "int \<Rightarrow> int \<Rightarrow> of_match \<Rightarrow> of_match" where
  "set_arp_spa_masked arp_spa msk m =
     old_set_masked ''arp_spa'' ''arp_spa'' (MTI arp_spa) ''arp_spa_mask'' (MTI msk) m"

definition set_arp_tpa_masked :: "int \<Rightarrow> int \<Rightarrow> of_match \<Rightarrow> of_match" where
  "set_arp_tpa_masked arp_tpa msk m =
     old_set_masked ''arp_tpa'' ''arp_tpa'' (MTI arp_tpa) ''arp_tpa_mask'' (MTI msk) m"

definition set_arp_sha :: "bytes \<Rightarrow> of_match \<Rightarrow> of_match" where
  "set_arp_sha arp_sha m =
     old_set ''arp_sha'' ''arp_sha'' (MTS arp_sha) m"

definition set_arp_sha_masked :: "bytes \<Rightarrow> bytes \<Rightarrow> of_match \<Rightarrow> of_match" where
  "set_arp_sha_masked arp_sha msk m =
     old_set_masked ''arp_sha'' ''arp_sha'' (MTS (haddr_bitand arp_sha msk)) ''arp_sha_mask'' (MTS msk) m"

definition set_arp_tha :: "bytes \<Rightarrow> of_match \<Rightarrow> of_match" where
  "set_arp_tha arp_tha m =
     old_set ''arp_tha'' ''arp_tha'' (MTS arp_tha) m"

definition set_arp_tha_masked :: "bytes \<Rightarrow> bytes \<Rightarrow> of_match \<Rightarrow> of_match" where
  "set_arp_tha_masked arp_tha msk m =
     old_set_masked ''arp_tha'' ''arp_tha'' (MTS (haddr_bitand arp_tha msk)) ''arp_tha_mask'' (MTS msk) m"

definition set_ipv6_src :: "int list \<Rightarrow> of_match \<Rightarrow> of_match" where
  "set_ipv6_src src m =
     old_set ''ipv6_src'' ''ipv6_src'' (MTL src) m"

definition set_ipv6_src_masked :: "int list \<Rightarrow> int list \<Rightarrow> of_match \<Rightarrow> of_match" where
  "set_ipv6_src_masked src msk m =
     old_set_masked ''ipv6_src'' ''ipv6_src'' (MTL (map (\<lambda>(x, y). x AND y) (zip src msk))) ''ipv6_src_mask'' (MTL msk) m"

definition set_ipv6_dst :: "int list \<Rightarrow> of_match \<Rightarrow> of_match" where
  "set_ipv6_dst dst m =
     old_set ''ipv6_dst'' ''ipv6_dst'' (MTL dst) m"

definition set_ipv6_dst_masked :: "int list \<Rightarrow> int list \<Rightarrow> of_match \<Rightarrow> of_match" where
  "set_ipv6_dst_masked dst msk m =
     old_set_masked ''ipv6_dst'' ''ipv6_dst'' (MTL (map (\<lambda>(x, y). x AND y) (zip dst msk))) ''ipv6_dst_mask'' (MTL msk) m"

definition set_ipv6_flabel_masked :: "int \<Rightarrow> int \<Rightarrow> of_match \<Rightarrow> of_match" where
  "set_ipv6_flabel_masked flabel msk m =
     old_set_masked ''ipv6_flabel'' ''ipv6_flabel'' (MTI flabel) ''ipv6_flabel_mask'' (MTI msk) m"

definition set_icmpv6_type :: "int \<Rightarrow> of_match \<Rightarrow> of_match" where
  "set_icmpv6_type icmpv6_type m =
     old_set ''icmpv6_type'' ''icmpv6_type'' (MTI icmpv6_type) m"

definition set_icmpv6_code :: "int \<Rightarrow> of_match \<Rightarrow> of_match" where
  "set_icmpv6_code icmpv6_code m =
     old_set ''icmpv6_code'' ''icmpv6_code'' (MTI icmpv6_code) m"

definition set_ipv6_nd_target :: "int list \<Rightarrow> of_match \<Rightarrow> of_match" where
  "set_ipv6_nd_target target m =
     old_set ''ipv6_nd_target'' ''ipv6_nd_target'' (MTL target) m"

definition set_ipv6_nd_sll :: "bytes \<Rightarrow> of_match \<Rightarrow> of_match" where
  "set_ipv6_nd_sll ipv6_nd_sll m =
     old_set ''ipv6_nd_sll'' ''ipv6_nd_sll'' (MTS ipv6_nd_sll) m"

definition set_ipv6_nd_tll :: "bytes \<Rightarrow> of_match \<Rightarrow> of_match" where
  "set_ipv6_nd_tll ipv6_nd_tll m =
     old_set ''ipv6_nd_tll'' ''ipv6_nd_tll'' (MTS ipv6_nd_tll) m"

definition set_mpls_label :: "int \<Rightarrow> of_match \<Rightarrow> of_match" where
  "set_mpls_label mpls_label m =
     old_set ''mpls_label'' ''mpls_label'' (MTI mpls_label) m"

definition set_mpls_tc :: "int \<Rightarrow> of_match \<Rightarrow> of_match" where
  "set_mpls_tc mpls_tc m =
     old_set ''mpls_tc'' ''mpls_tc'' (MTI mpls_tc) m"

definition set_mpls_bos :: "int \<Rightarrow> of_match \<Rightarrow> of_match" where
  "set_mpls_bos bos m =
     old_set ''mpls_bos'' ''mpls_bos'' (MTI bos) m"

definition set_pbb_isid :: "int \<Rightarrow> of_match \<Rightarrow> of_match" where
  "set_pbb_isid isid m =
     old_set ''pbb_isid'' ''pbb_isid'' (MTI isid) m"

definition set_pbb_isid_masked :: "int \<Rightarrow> int \<Rightarrow> of_match \<Rightarrow> of_match" where
  "set_pbb_isid_masked isid msk m =
     old_set_masked ''pbb_isid'' ''pbb_isid'' (MTI isid) ''pbb_isid_mask'' (MTI msk) m"

definition set_tunnel_id :: "int \<Rightarrow> of_match \<Rightarrow> of_match" where
  "set_tunnel_id tunnel_id m =
     old_set ''tunnel_id'' ''tunnel_id'' (MTI tunnel_id) m"

definition set_tunnel_id_masked :: "int \<Rightarrow> int \<Rightarrow> of_match \<Rightarrow> of_match" where
  "set_tunnel_id_masked tunnel_id msk m =
     old_set_masked ''tunnel_id'' ''tunnel_id'' (MTI tunnel_id) ''tunnel_id_mask'' (MTI msk) m"

definition set_ipv6_exthdr :: "int \<Rightarrow> of_match \<Rightarrow> of_match" where
  "set_ipv6_exthdr hdr m =
     old_set ''ipv6_exthdr'' ''ipv6_exthdr'' (MTI hdr) m"

definition set_ipv6_exthdr_masked :: "int \<Rightarrow> int \<Rightarrow> of_match \<Rightarrow> of_match" where
  "set_ipv6_exthdr_masked hdr msk m =
     old_set_masked ''ipv6_exthdr'' ''ipv6_exthdr'' (MTI hdr) ''ipv6_exthdr_mask'' (MTI msk) m"

definition set_metadata :: "int \<Rightarrow> of_match \<Rightarrow> of_match" where
  "set_metadata metadata m = set_metadata_masked metadata UINT64_MAX m"

definition set_vlan_vid :: "int \<Rightarrow> of_match \<Rightarrow> of_match" where
  "set_vlan_vid vid m = set_vlan_vid_masked vid UINT16_MAX m"

definition set_ipv4_src :: "int \<Rightarrow> of_match \<Rightarrow> of_match" where
  "set_ipv4_src ipv4_src m = set_ipv4_src_masked ipv4_src UINT32_MAX m"

definition set_ipv4_dst :: "int \<Rightarrow> of_match \<Rightarrow> of_match" where
  "set_ipv4_dst ipv4_dst m = set_ipv4_dst_masked ipv4_dst UINT32_MAX m"

definition set_tcp_flags :: "int \<Rightarrow> of_match \<Rightarrow> of_match" where
  "set_tcp_flags tcp_flags m = set_tcp_flags_masked tcp_flags UINT16_MAX m"

definition set_arp_spa :: "int \<Rightarrow> of_match \<Rightarrow> of_match" where
  "set_arp_spa arp_spa m = set_arp_spa_masked arp_spa UINT32_MAX m"

definition set_arp_tpa :: "int \<Rightarrow> of_match \<Rightarrow> of_match" where
  "set_arp_tpa arp_tpa m = set_arp_tpa_masked arp_tpa UINT32_MAX m"

definition set_ipv6_flabel :: "int \<Rightarrow> of_match \<Rightarrow> of_match" where
  "set_ipv6_flabel flabel m = set_ipv6_flabel_masked flabel UINT32_MAX m"

end
