(* ===== verification/OF13_Match_Codec.thy ===== *)
theory OF13_Match_Codec
  imports OF13_Match
begin

text \<open>
  Correctness of the match codec. The table of the older field classes agrees with the OXM
  table, a field of a match is a wire object (an interpretation of \<open>wire_codec\<close>), and a match
  built with keyword arguments is written and read back unchanged.
\<close>

section \<open>Vocabulary\<close>

definition basic_fields :: "(string \<times> int \<times> nat option) list" where
  "basic_fields =
     map (\<lambda>f. (oxm_name f, oxm_field f, type_size (oxm_tdesc f)))
       (filter (\<lambda>f. oxm_class f = OFPXMC_OPENFLOW_BASIC) oxm_types)"

definition mt_agrees :: "mt_desc \<Rightarrow> bool" where
  "mt_agrees d \<longleftrightarrow>
     (case map_of basic_fields (mt_oxm d) of
        None \<Rightarrow> False
      | Some (n, sz) \<Rightarrow> 0 \<le> n \<and> n < 128 \<and> sz = Some (mt_size (mt_kind d)) \<and> mt_size (mt_kind d) \<le> 16)"

definition kv_ser :: "netaddr \<Rightarrow> kv \<Rightarrow> bytes \<Rightarrow> nat \<Rightarrow> (bytes \<times> nat) res" where
  "kv_ser na x buf offset = rbind (oxm_from_user na (fst x) (snd x)) (\<lambda>t. oxm_ser t buf offset)"

text \<open>A pair is canonical when it is what the parser shows for the bytes it denotes.\<close>

definition kv_ok :: "netaddr \<Rightarrow> kv \<Rightarrow> bool" where
  "kv_ok na x \<longleftrightarrow> netaddr_ok na \<and> (\<exists>d \<in> set oxm_types. fst x = oxm_name d) \<and>
     (case oxm_from_user na (fst x) (snd x) of
        Inr (n, Some v, m) \<Rightarrow> oxm_to_user na n (Some v) m = Inr x
      | _ \<Rightarrow> False)"

definition kv_enc :: "netaddr \<Rightarrow> kv \<Rightarrow> bytes" where
  "kv_enc na x = (case kv_ser na x [] 0 of Inr (b, l) \<Rightarrow> b | Inl e \<Rightarrow> [])"

definition match_enc :: "netaddr \<Rightarrow> kv list \<Rightarrow> bytes" where
  "match_enc na xs =
     (let body = concat (map (kv_enc na) xs); len = 4 + length body
      in packed [fH, fH] [OFPMT_OXM, int len] @ body @ zeros (round_up len 8 - len))"

definition has_value :: "user_value \<Rightarrow> bool" where
  "has_value uv \<longleftrightarrow> (case uv of UV v \<Rightarrow> v \<noteq> None | UVM v m \<Rightarrow> v \<noteq> None)"

definition sort_key_of :: "string \<Rightarrow> int" where
  "sort_key_of k = (case oxm_from_user_header k of Inr n \<Rightarrow> oxm_sort_key n | Inl e \<Rightarrow> 0)"

section \<open>The two field tables agree\<close>

lemmas mt_table_defs =
  mt_classes_def mt_classes_a_def mt_classes_b_def mt_classes_c_def mt_classes_d_def

lemma basic_fields_eq:
  "basic_fields =
    [(''in_port'', 0, Some 4), (''in_phy_port'', 1, Some 4), (''metadata'', 2, Some 8),
     (''eth_dst'', 3, Some 6), (''eth_src'', 4, Some 6), (''eth_type'', 5, Some 2),
     (''vlan_vid'', 6, Some 2), (''vlan_pcp'', 7, Some 1), (''ip_dscp'', 8, Some 1),
     (''ip_ecn'', 9, Some 1), (''ip_proto'', 10, Some 1), (''ipv4_src'', 11, Some 4),
     (''ipv4_dst'', 12, Some 4), (''tcp_src'', 13, Some 2), (''tcp_dst'', 14, Some 2),
     (''udp_src'', 15, Some 2), (''udp_dst'', 16, Some 2), (''sctp_src'', 17, Some 2),
     (''sctp_dst'', 18, Some 2), (''icmpv4_type'', 19, Some 1), (''icmpv4_code'', 20, Some 1),
     (''arp_op'', 21, Some 2), (''arp_spa'', 22, Some 4), (''arp_tpa'', 23, Some 4),
     (''arp_sha'', 24, Some 6), (''arp_tha'', 25, Some 6), (''ipv6_src'', 26, Some 16),
     (''ipv6_dst'', 27, Some 16), (''ipv6_flabel'', 28, Some 4), (''icmpv6_type'', 29, Some 1),
     (''icmpv6_code'', 30, Some 1), (''ipv6_nd_target'', 31, Some 16),
     (''ipv6_nd_sll'', 32, Some 6), (''ipv6_nd_tll'', 33, Some 6), (''mpls_label'', 34, Some 4),
     (''mpls_tc'', 35, Some 1), (''mpls_bos'', 36, Some 1), (''pbb_isid'', 37, Some 3),
     (''tunnel_id'', 38, Some 8), (''ipv6_exthdr'', 39, Some 2), (''tcp_flags'', 40, Some 2)]"
  by (simp add: basic_fields_def oxm_table_defs)

lemma mt_agrees_table: "list_all mt_agrees mt_classes"
  by (simp add: mt_table_defs mt_agrees_def basic_fields_eq)

lemma mt_class_field:
  assumes "d \<in> set mt_classes"
  shows "\<exists>f. name_to_field (mt_oxm d) = Some f \<and> 0 \<le> oxm_field f \<and> oxm_field f < 128 \<and>
             type_size (oxm_tdesc f) = Some (mt_size (mt_kind d)) \<and> mt_size (mt_kind d) \<le> 16"
proof -
  have "mt_agrees d" using assms mt_agrees_table by (simp add: list_all_iff)
  then obtain n where n: "map_of basic_fields (mt_oxm d) = Some (n, Some (mt_size (mt_kind d)))"
    and r: "0 \<le> n" "n < 128" "mt_size (mt_kind d) \<le> 16"
    by (auto simp: mt_agrees_def split: option.splits)
  from map_of_SomeD [OF n] obtain f where f: "f \<in> set oxm_types" "oxm_name f = mt_oxm d"
    "oxm_field f = n" "type_size (oxm_tdesc f) = Some (mt_size (mt_kind d))"
    by (auto simp: basic_fields_def)
  with r show ?thesis by (auto simp: name_to_field_iff intro!: exI [of _ f])
qed

lemma tlv_header_word:
  assumes "0 \<le> f" and "f < 128" and "0 \<le> l" and "l < 256"
  shows "oxm_tlv_header_impl c f (of_bool b) l = (c * 128 + f) * 512 + of_bool b * 256 + l"
proof -
  have 1: "push_bit 8 (of_bool b) OR l = of_bool b * 256 + l"
    using int_shift_or [of l 8 "of_bool b"] assms by simp
  have 2: "push_bit 9 f OR (of_bool b * 256 + l) = f * 512 + (of_bool b * 256 + l)"
    using int_shift_or [of "of_bool b * 256 + l" 9 f] assms by (cases b) simp_all
  have 3: "push_bit 16 c OR (f * 512 + (of_bool b * 256 + l))
      = c * 65536 + (f * 512 + (of_bool b * 256 + l))"
    using int_shift_or [of "f * 512 + (of_bool b * 256 + l)" 16 c] assms by (cases b) simp_all
  show ?thesis
    unfolding oxm_tlv_header_impl_def or.assoc 1 2 3 by simp
qed

lemma tlv_header_fields:
  assumes "0 \<le> f" and "f < 128" and "0 \<le> l" and "l < 256"
  shows "oxm_tlv_header_extract_hasmask (oxm_tlv_header_impl c f (of_bool b) l) = of_bool b"
    and "oxm_tlv_header_impl c f (of_bool b) l AND 255 = l"
  unfolding tlv_header_word [OF assms] by (rule hdr_word_fields [OF assms(3,4)])+

text \<open>A registered header announces as many bytes as its class reads.\<close>

lemma registered_length:
  assumes "FIELDS_HEADERS w = Some d"
  shows "oxm_tlv_header_extract_hasmask w = 0 \<and> w AND 255 = int (mt_size (mt_kind d)) \<or>
         oxm_tlv_header_extract_hasmask w = 1 \<and>
         w AND 255 = int (mt_size (mt_kind d) + mt_size (mt_kind d))"
proof -
  have "mt_registered w d" and d: "d \<in> set mt_classes"
    using assms by (auto simp: FIELDS_HEADERS_def find_Some_iff)
  moreover obtain f where f: "name_to_field (mt_oxm d) = Some f" "0 \<le> oxm_field f" "oxm_field f < 128"
      "type_size (oxm_tdesc f) = Some (mt_size (mt_kind d))" "mt_size (mt_kind d) \<le> 16"
    using mt_class_field [OF d] by blast
  ultimately consider
      "w = oxm_tlv_header_impl OFPXMC_OPENFLOW_BASIC (oxm_field f) (of_bool False)
             (int (mt_size (mt_kind d)))"
    | "w = oxm_tlv_header_impl OFPXMC_OPENFLOW_BASIC (oxm_field f) (of_bool True)
             (int (mt_size (mt_kind d)) * 2)"
    by (auto simp: mt_registered_def oxm_tlv_header_def oxm_tlv_header_w_def)
  then show ?thesis
  proof cases
    case 1
    then show ?thesis
      using tlv_header_fields [OF f(2,3), of "int (mt_size (mt_kind d))" OFPXMC_OPENFLOW_BASIC False] f(5)
      by simp
  next
    case 2
    then show ?thesis
      using tlv_header_fields [OF f(2,3), of "int (mt_size (mt_kind d)) * 2" OFPXMC_OPENFLOW_BASIC True] f(5)
      by simp
  qed
qed

section \<open>Parsing what was written\<close>

text \<open>
  Reading the bytes of a field as an object of the older interface succeeds and takes the same
  length.
\<close>

lemma OFPMatchField_parser_enc:
  assumes h: "hdr_spec n t eh" and p: "payload_ok eh v m"
  shows "\<exists>f. \<forall>pre post. OFPMatchField_parser (pre @ oxm_enc t eh v m @ post) (length pre) =
               Inr (f, length (oxm_enc t eh v m))"
proof -
  define body where "body = eh @ v @ (case m of None \<Rightarrow> [] | Some mb \<Rightarrow> mb)"
  define w where "w = t * 512 + of_bool (m \<noteq> None) * 256 + int (length body)"
  have enc: "oxm_enc t eh v m = packed [fI] [w] @ body"
    by (simp add: oxm_enc_def w_def body_def)
  have t: "0 \<le> t" "t < 2 ^ 23" using h by (auto simp: hdr_spec_def)
  have L: "0 \<le> int (length body)" "int (length body) < 256"
    using p by (auto simp: payload_ok_def body_def split: option.splits)
  have w: "fits 4 w" "oxm_tlv_header_extract_hasmask w = of_bool (m \<noteq> None)" "w AND 255 = int (length body)"
    unfolding w_def by (rule hdr_word_fits [OF L t] hdr_word_fields [OF L])+
  have u: "unpack_from [fI] (pre @ oxm_enc t eh v m @ post) (length pre) = Inr [w]" for pre post
    unfolding enc append_assoc by (rule unpack_from_packed) (use w in simp_all)
  have b: "unpack_str (length body) (pre @ oxm_enc t eh v m @ post) (length pre + 4) = Inr body" for pre post
    using unpack_str_mid [of _ "pre @ packed [fI] [w]" "length body" body post]
    by (simp add: enc)
  have len: "nat (w AND 255) + 4 = length (oxm_enc t eh v m)" by (simp add: enc w(3) del: int_and_numerals)
  show ?thesis
  proof (cases "FIELDS_HEADERS w")
    case None
    with u len show ?thesis by (simp add: OFPMatchField_parser_def Let_def)
  next
    case (Some d)
    from registered_length [OF this] w(3) consider
        "oxm_tlv_header_extract_hasmask w = 0" "mt_size (mt_kind d) = length body"
      | "oxm_tlv_header_extract_hasmask w = 1" "mt_size (mt_kind d) + mt_size (mt_kind d) = length body"
      by fastforce
    then show ?thesis
      using Some u b len
      by cases (simp_all add: OFPMatchField_parser_def mt_field_parser_def Let_def)
  qed
qed

section \<open>One field of a match as a wire object\<close>

lemma kv_okE:
  assumes "kv_ok na x"
  obtains n v m t eh where
    "oxm_from_user na (fst x) (snd x) = Inr (n, Some v, m)"
    "oxm_to_user na n (Some v) m = Inr x"
    "oxm_make_exp_hdr n = Inr (Num t, eh)" "hdr_spec n t eh" "payload_ok eh v m"
    "kv_enc na x = oxm_enc t eh v m"
proof -
  from assms obtain d n v m where na: "netaddr_ok na" and d: "d \<in> set oxm_types" "fst x = oxm_name d"
    and f: "oxm_from_user na (fst x) (snd x) = Inr (n, Some v, m)"
    and t: "oxm_to_user na n (Some v) m = Inr x"
    by (auto simp: kv_ok_def split: sum.splits option.splits)
  have n: "n = oxm_numb d" using from_user_table(1) [OF na d(1)] f d(2) by auto
  obtain t eh where h: "oxm_make_exp_hdr n = Inr (Num t, eh)" "hdr_spec n t eh"
    using oxm_make_exp_hdr_spec oxm_codable_table [OF d(1)] n by blast
  have p: "payload_ok eh v m" using table_payload_ok [OF na d(1) _ h(2)] f d(2) by auto
  have "kv_enc na x = oxm_enc t eh v m"
    by (simp add: kv_enc_def kv_ser_def f oxm_ser_def oxm_serialize_spec [OF h p])
  then show thesis using that f t h p by blast
qed

interpretation kv: wire_codec "kv_ser na" "kv_par na" "kv_ok na" "kv_enc na" for na
proof
  fix x buf offset pre post
  assume ok: "kv_ok na x"
  then obtain n v m t eh where
    x: "oxm_from_user na (fst x) (snd x) = Inr (n, Some v, m)"
    "oxm_to_user na n (Some v) m = Inr x"
    "oxm_make_exp_hdr n = Inr (Num t, eh)" "hdr_spec n t eh" "payload_ok eh v m"
    "kv_enc na x = oxm_enc t eh v m"
    by (rule kv_okE)
  show "kv_ser na x buf offset = Inr (grow offset buf @ kv_enc na x, length (kv_enc na x))"
    if "length buf \<le> offset"
    using x that by (simp add: kv_ser_def oxm_ser_def oxm_serialize_spec)
  show "kv_par na (pre @ kv_enc na x @ post) (length pre) = Inr (x, length (kv_enc na x))"
    using x by (cases x) (simp add: kv_par_def oxm_parse_spec)
  show "kv_enc na x \<noteq> []"
    using x by (simp add: oxm_enc_def flip: length_0_conv)
qed

lemma ser_list_from_user:
  assumes "mapM (\<lambda>(k, uv). oxm_from_user na k uv) xs = Inr ts"
  shows "ser_list oxm_ser ts buf offset = ser_list (kv_ser na) xs buf offset"
  using assms
  by (induction xs arbitrary: ts buf offset)
    (auto simp: rbind_eq_Inr kv_ser_def split_beta)

lemma from_user_all_ok:
  "list_all (kv_ok na) xs \<Longrightarrow> \<exists>ts. mapM (\<lambda>(k, uv). oxm_from_user na k uv) xs = Inr ts"
  by (induction xs) (auto elim!: kv_okE simp: split_beta)


section \<open>The whole match\<close>

lemma match_old_fields:
  assumes "list_all (kv_ok na) xs"
  shows "\<exists>fs. \<forall>pre post. par_loop OFPMatchField_parser (pre @ concat (map (kv_enc na) xs) @ post)
           (length pre) (length (concat (map (kv_enc na) xs))) = Inr fs"
proof -
  have "\<forall>x \<in> set xs. \<exists>f. \<forall>pre post. OFPMatchField_parser (pre @ kv_enc na x @ post) (length pre)
          = Inr (f, length (kv_enc na x))"
  proof
    fix x assume "x \<in> set xs"
    with assms have "kv_ok na x" by (simp add: list_all_iff)
    then show "\<exists>f. \<forall>pre post. OFPMatchField_parser (pre @ kv_enc na x @ post) (length pre)
          = Inr (f, length (kv_enc na x))"
      by (rule kv_okE) (simp add: OFPMatchField_parser_enc)
  qed
  then obtain g where g: "\<forall>x \<in> set xs. \<forall>pre post.
      OFPMatchField_parser (pre @ kv_enc na x @ post) (length pre) = Inr (g x, length (kv_enc na x))"
    by metis
  show ?thesis
    using par_loop_all [of xs OFPMatchField_parser "kv_enc na" g] g assms kv.enc_nonempty
    by (auto simp: list_all_iff)
qed

lemma length_match_enc:
  "length (match_enc na xs) = round_up (4 + length (concat (map (kv_enc na) xs))) 8"
  using round_up_8(1) [of "4 + length (concat (map (kv_enc na) xs))"]
  by (simp add: match_enc_def Let_def)

lemma match_serialize_ok:
  assumes ok: "list_all (kv_ok na) (m_fields2 m)" and new: "\<not> composed_with_old_api m"
    and len: "4 + length (concat (map (kv_enc na) (m_fields2 m))) < 65536" and b: "length buf \<le> offset"
  shows "\<exists>m'. m_fields2 m' = m_fields2 m \<and> m_fields m' = m_fields m \<and>
           match_serialize na m buf offset =
             Inr (m', grow offset buf @ match_enc na (m_fields2 m), length (match_enc na (m_fields2 m)))"
proof -
  let ?xs = "m_fields2 m"
  define E where "E = concat (map (kv_enc na) ?xs)"
  obtain ts where ts: "mapM (\<lambda>(k, uv). oxm_from_user na k uv) ?xs = Inr ts"
    using from_user_all_ok [OF ok] by blast
  define buf1 where "buf1 = (if ?xs = [] then buf else grow (offset + 4) buf @ E)"
  have s: "ser_list oxm_ser ts buf (offset + 4) = Inr (buf1, offset + 4 + length E)"
    unfolding ser_list_from_user [OF ts] buf1_def E_def
    using kv.ser_list_ok [OF ok, of buf "offset + 4"] b by simp
  let ?h = "packed [fH, fH] [OFPMT_OXM, int (4 + length E)]"
  have f: "fits 2 (int (4 + length E))" "fits 2 OFPMT_OXM"
    using len by (auto simp: fits_def E_def)
  have p1: "pack_at ?h offset buf1 = grow offset buf @ ?h @ E"
  proof (cases "?xs = []")
    case True
    then show ?thesis using b by (simp add: buf1_def E_def pack_at_append)
  next
    case False
    have "pack_at ?h offset (grow (offset + 4) buf @ E) = grow offset buf @ ?h @ E"
      by (rule pack_at_header) (use b in \<open>simp_all only: packed_eq_Nil length_packed\<close>, simp_all)
    with False show ?thesis by (simp add: buf1_def)
  qed
  define pad where "pad = round_up (4 + length E) 8 - (4 + length E)"
  have p2: "pack_at (zeros pad) (offset + 4 + length E) (grow offset buf @ ?h @ E)
      = grow offset buf @ ?h @ E @ zeros pad"
    using b by (subst pack_at_append) (simp_all add: max_def grow_append_ge)
  have "match_finish buf1 offset (offset + 4 + length E) =
      Inr (grow offset buf @ match_enc na ?xs, 4 + length E, length (match_enc na ?xs))"
    using f p1 p2 round_up_8(1) [of "4 + length E"]
    by (simp add: match_finish_def msg_pack_into_eq Let_def match_enc_def pad_def
        E_def [symmetric] add.assoc)
  with s ts new show ?thesis by (simp add: match_serialize_def)
qed

lemma match_parser_ok:
  assumes ok: "list_all (kv_ok na) xs"
    and len: "4 + length (concat (map (kv_enc na) xs)) < 65536"
  shows "\<exists>m. m_fields2 m = xs \<and> m_type m = OFPMT_OXM \<and>
           m_length m = Some (int (4 + length (concat (map (kv_enc na) xs)))) \<and>
           (\<forall>pre post. match_parser na (pre @ match_enc na xs @ post) (length pre) = Inr m)"
proof -
  define E where "E = concat (map (kv_enc na) xs)"
  define h where "h = packed [fH, fH] [OFPMT_OXM, int (4 + length E)]"
  have lh: "length h = 4" by (simp add: h_def)
  define pad where "pad = zeros (round_up (4 + length E) 8 - (4 + length E))"
  have enc: "match_enc na xs = h @ E @ pad" by (simp add: match_enc_def Let_def h_def pad_def E_def)
  have u: "unpack_from [fH, fH] (pre @ match_enc na xs @ post) (length pre)
      = Inr [OFPMT_OXM, int (4 + length E)]" for pre post
    unfolding enc h_def append_assoc
    by (rule unpack_from_packed) (use len in \<open>auto simp: fits_def E_def\<close>)
  obtain fs where fs: "\<And>pre post. par_loop OFPMatchField_parser (pre @ E @ post) (length pre) (length E) = Inr fs"
    using match_old_fields [OF ok] unfolding E_def by blast
  have 1: "par_loop OFPMatchField_parser (pre @ match_enc na xs @ post) (length pre + 4) (length E) = Inr fs"
    for pre post
    using fs [of "pre @ h" "pad @ post"] lh by (simp add: enc)
  have 2: "par_loop (kv_par na) (pre @ match_enc na xs @ post) (length pre + 4) (length E) = Inr xs"
    for pre post
    using kv.par_loop_ok [OF ok, of "pre @ h" "pad @ post"] lh by (simp add: enc E_def)
  show ?thesis
    using u 1 2 by (simp add: match_parser_def Let_def E_def [symmetric])
qed

section \<open>The constructor\<close>

lemma from_user_value: "oxm_from_user na k uv = Inr (n, v, m) \<Longrightarrow> has_value uv \<Longrightarrow> v \<noteq> None"
  by (cases uv) (auto simp: oxm_from_user_eq has_value_def opt_map_eq_Inr_None rbind_eq_Inr)

lemma to_user_value: "oxm_to_user na n (Some b) m = Inr (k, uv) \<Longrightarrow> has_value uv"
proof -
  assume "oxm_to_user na n (Some b) m = Inr (k, uv)"
  then obtain t u where "(case m of None \<Rightarrow> Inr (k, UV (Some u))
      | Some mb \<Rightarrow> rbind (type_to_user na t mb) (\<lambda>um. Inr (k, UVM (Some u) (Some um)))) = Inr (k, uv)"
    unfolding oxm_to_user_def rbind_eq_Inr
    by (auto simp: rbind_eq_Inr split: if_splits option.split_asm)
  then show ?thesis by (cases m) (auto simp: has_value_def rbind_eq_Inr)
qed

lemma normalize_user_keeps:
  assumes nz: "oxm_normalize_user na k uv = Inr (k', uv')" and v: "has_value uv"
  shows "k' = k \<and> has_value uv'"
proof (cases "oxm_from_user na k uv")
  case (Inl e)
  with nz v show ?thesis by (simp add: oxm_normalize_user_def)
next
  case (Inr p)
  obtain n w m where p: "p = (n, w, m)" by (cases p)
  obtain b where w: "w = Some b" using from_user_value Inr p v by blast
  define b' where "b' = (case m of None \<Rightarrow> b | Some mb \<Rightarrow> apply_mask b mb)"
  have "oxm_normalize_user na k uv = (case oxm_to_user na n (Some b') m of
           Inl _ \<Rightarrow> Inr (k, uv) | Inr (k2, uv2) \<Rightarrow> rbind (rassert (k2 = k)) (\<lambda>_. Inr (k2, uv2)))"
    using Inr p w by (cases m) (simp_all add: oxm_normalize_user_def b'_def)
  with nz v to_user_value [of na n b' m] show ?thesis
    by (auto simp: rbind_eq_Inr split: sum.splits)
qed

lemma init_fields_ok:
  assumes na: "netaddr_ok na" and i: "OFPMatch_init na kw = Inr m"
    and kw: "\<And>k uv. (k, uv) \<in> set kw \<Longrightarrow> k \<in> oxm_name ` set oxm_types \<and> has_value uv"
  shows "list_all (kv_ok na) (m_fields2 m)" and "length (m_fields2 m) = length kw"
    and "\<not> composed_with_old_api m"
proof -
  obtain kw' fs fs2 where n: "mapM (\<lambda>(k, v). oxm_normalize_user na k v) kw = Inr kw'"
    and f: "mapM (\<lambda>(k, v). oxm_from_user na k v) kw' = Inr fs"
    and t: "mapM (\<lambda>(n, v, m). oxm_to_user na n v m) (sort_key (\<lambda>(n, v, m). oxm_sort_key n) fs) = Inr fs2"
    and m: "m = empty_match\<lparr>m_fields2 := fs2\<rparr>"
    using i by (auto simp: OFPMatch_init_def rbind_eq_Inr)
  have "kv_ok na x" if x: "x \<in> set fs2" for x
  proof -
    from mapM_set [OF t x] obtain n v mk where nv: "(n, v, mk) \<in> set fs" "oxm_to_user na n v mk = Inr x"
      by auto
    from mapM_set [OF f nv(1)] obtain k uv where ku: "(k, uv) \<in> set kw'" "oxm_from_user na k uv = Inr (n, v, mk)"
      by auto
    from mapM_set [OF n ku(1)] obtain k0 uv0 where k0: "(k0, uv0) \<in> set kw" "oxm_normalize_user na k0 uv0 = Inr (k, uv)"
      by auto
    have k: "k = k0" "has_value uv" using normalize_user_keeps [OF k0(2)] kw [OF k0(1)] by auto
    obtain d where d: "d \<in> set oxm_types" "k = oxm_name d" using kw [OF k0(1)] k by auto
    obtain b where b: "v = Some b" using from_user_value [OF ku(2) k(2)] by auto
    note tab = from_user_table [OF na d(1) ku(2) [unfolded b d(2)]]
    have "\<exists>uv. oxm_to_user na n v mk = Inr (k, uv) \<and> oxm_from_user na k uv = Inr (n, v, mk)"
      unfolding tab(1) b d(2)
      by (rule oxm_to_from_user [OF na info_by_name_table [OF d(1)] info_by_number_table [OF d(1)]])
        (use tab in \<open>auto split: option.splits\<close>)
    with nv d b na show ?thesis by (auto simp: kv_ok_def)
  qed
  then show "list_all (kv_ok na) (m_fields2 m)" by (simp add: m list_all_iff)
  show "length (m_fields2 m) = length kw" using mapM_length [OF n] mapM_length [OF f] mapM_length [OF t] by (simp add: m)
  show "\<not> composed_with_old_api m" by (simp add: m empty_match_def composed_with_old_api_def)
qed

lemma kv_enc_length: "kv_ok na x \<Longrightarrow> length (kv_enc na x) \<le> 42"
proof -
  assume "kv_ok na x"
  then obtain n v m t eh where f: "oxm_from_user na (fst x) (snd x) = Inr (n, Some v, m)"
    and h: "hdr_spec n t eh" and e: "kv_enc na x = oxm_enc t eh v m"
    by (rule kv_okE)
  obtain d where na: "netaddr_ok na" and d: "d \<in> set oxm_types" "fst x = oxm_name d"
    using \<open>kv_ok na x\<close> by (auto simp: kv_ok_def)
  note tab = from_user_table [OF na d(1) f [unfolded d(2)]]
  obtain sz where sz: "type_size (oxm_tdesc d) = Some sz" "sz \<le> 16"
    using desc_ok_table [OF d(1)] by (auto simp: desc_ok_def split: option.splits)
  have "length eh \<le> 6" using h by (auto simp: hdr_spec_def split: oxm_num.splits if_splits)
  moreover have "length v = sz" using tab(2) sz by (simp add: size_fits_def)
  moreover have "length b = sz" if "m = Some b" for b using tab(3) [OF that] sz by (simp add: size_fits_def)
  ultimately show ?thesis using sz by (cases m) (auto simp: e oxm_enc_def Let_def)
qed

lemma sum_kv_enc: "list_all (kv_ok na) xs \<Longrightarrow> length (concat (map (kv_enc na) xs)) \<le> 42 * length xs"
  by (induction xs) (auto dest: kv_enc_length)

lemma oxm_names_card: "distinct ks \<Longrightarrow> set ks \<subseteq> oxm_name ` set oxm_types \<Longrightarrow> length ks \<le> 65"
proof -
  assume a: "distinct ks" "set ks \<subseteq> oxm_name ` set oxm_types"
  have l: "length oxm_types = 65" by (simp add: oxm_types_def of13_oxm_types_def nx_oxm_types_def beba_oxm_types_def)
  have "length ks = card (set ks)" using a by (simp add: distinct_card)
  also have "\<dots> \<le> card (oxm_name ` set oxm_types)" using a by (intro card_mono) auto
  also have "\<dots> \<le> card (set oxm_types)" by (rule card_image_le) simp
  also have "\<dots> \<le> 65" using card_length [of oxm_types] l by simp
  finally show ?thesis .
qed

lemma normalize_user_name: "oxm_normalize_user na k uv = Inr (k', uv') \<Longrightarrow> k' = k"
  by (auto simp: oxm_normalize_user_def rbind_eq_Inr split: sum.splits prod.splits)
    (metis obj_sumE surj_pair)

lemma from_user_sort_key:
  "oxm_from_user na k uv = Inr (n, v, m) \<Longrightarrow> oxm_sort_key n = sort_key_of k"
  by (auto simp: oxm_from_user_eq sort_key_of_def oxm_from_user_header_def)

lemma state_info:
  "get_field_info_by_name ''state'' = Inr (ExpNum 3199909562 8388481, IntDescr 4)"
  "get_field_info_by_number (ExpNum 3199909562 8388481) = Inr (''state'', IntDescr 4)"
  "''state'' \<in> oxm_name ` set oxm_types"
proof -
  let ?d = "BebaExperimenter ''state'' 1 (IntDescr 4)"
  have d: "?d \<in> set oxm_types" by (simp add: oxm_types_def beba_oxm_types_def)
  have n: "oxm_name ?d = ''state''" "oxm_numb ?d = ExpNum 3199909562 8388481" "oxm_tdesc ?d = IntDescr 4"
    by (simp_all add: oxm_table_defs)
  show "get_field_info_by_name ''state'' = Inr (ExpNum 3199909562 8388481, IntDescr 4)"
    "get_field_info_by_number (ExpNum 3199909562 8388481) = Inr (''state'', IntDescr 4)"
    using info_by_name_table [OF d] info_by_number_table [OF d] n by simp_all
  show "''state'' \<in> oxm_name ` set oxm_types" using d n(1) by (metis imageI)
qed

lemma in_port_info:
  "get_field_info_by_name ''in_port'' = Inr (Num 4194304, IntDescr 4)"
  "get_field_info_by_number (Num 4194304) = Inr (''in_port'', IntDescr 4)"
  "''in_port'' \<in> oxm_name ` set oxm_types"
proof -
  let ?d = "OpenFlowBasic ''in_port'' 0 (IntDescr 4)"
  have d: "?d \<in> set oxm_types" by (simp add: oxm_types_def of13_oxm_types_def)
  have n: "oxm_name ?d = ''in_port''" "oxm_numb ?d = Num 4194304" "oxm_tdesc ?d = IntDescr 4"
    by (simp_all add: oxm_table_defs)
  show "get_field_info_by_name ''in_port'' = Inr (Num 4194304, IntDescr 4)"
    "get_field_info_by_number (Num 4194304) = Inr (''in_port'', IntDescr 4)"
    using info_by_name_table [OF d] info_by_number_table [OF d] n by simp_all
  show "''in_port'' \<in> oxm_name ` set oxm_types" using d n(1) by (metis imageI)
qed

text \<open>A match on the BEBA flow state and the input port, used in the witnesses below.\<close>

lemma sample_match:
  "OFPMatch_init netaddr_raw [(''state'', UV (Some (VInt 7))), (''in_port'', UV (Some (VInt 1)))]
   = Inr (empty_match\<lparr>m_fields2 := [(''in_port'', UV (Some (VInt 1))), (''state'', UV (Some (VInt 7)))]\<rparr>)"
  by (simp add: OFPMatch_init_def oxm_normalize_user_def oxm_from_user_def oxm_to_user_def
      state_info in_port_info int_from_user_eq int_to_user_eq fits_def)

section \<open>Properties\<close>

text \<open>
  C1. A match built from keyword arguments for table fields is serialised at
  any offset at or past the end of the buffer into a multiple of eight bytes, and parsing those
  bytes inside any message gives a match with the same fields in the same order.
\<close>

theorem match_roundtrip:
  assumes na: "netaddr_ok na" and i: "OFPMatch_init na kw = Inr m" and d: "distinct (map fst kw)"
    and kw: "\<And>k uv. (k, uv) \<in> set kw \<Longrightarrow> k \<in> oxm_name ` set oxm_types \<and> has_value uv"
    and b: "length buf \<le> offset"
  shows "\<exists>m' bs. match_serialize na m buf offset = Inr (m', grow offset buf @ bs, length bs) \<and>
           8 dvd length bs \<and>
           (\<forall>pre post. \<exists>m2. match_parser na (pre @ bs @ post) (length pre) = Inr m2 \<and>
                            m_fields2 m2 = m_fields2 m)"
proof -
  note ok = init_fields_ok [OF na i kw]
  have "length (map fst kw) \<le> 65" using kw d by (intro oxm_names_card) auto
  then have len: "4 + length (concat (map (kv_enc na) (m_fields2 m))) < 65536"
    using sum_kv_enc [OF ok(1)] ok(2) by simp
  from match_serialize_ok [OF ok(1,3) len b] match_parser_ok [OF ok(1) len] show ?thesis
    using round_up_8(3) length_match_enc by metis
qed

theorem match_roundtrip_witness:
  "\<exists>m' bs. match_serialize netaddr_raw
             (empty_match\<lparr>m_fields2 := [(''in_port'', UV (Some (VInt 1))), (''state'', UV (Some (VInt 7)))]\<rparr>)
             [1, 2] 4 = Inr (m', grow 4 [1, 2] @ bs, length bs) \<and>
           8 dvd length bs \<and>
           (\<forall>pre post. \<exists>m2. match_parser netaddr_raw (pre @ bs @ post) (length pre) = Inr m2 \<and>
                            m_fields2 m2 = [(''in_port'', UV (Some (VInt 1))), (''state'', UV (Some (VInt 7)))])"
proof -
  have "k \<in> oxm_name ` set oxm_types \<and> has_value uv"
    if "(k, uv) \<in> set [(''state'', UV (Some (VInt 7))), (''in_port'', UV (Some (VInt 1)))]" for k uv
    using that state_info(3) in_port_info(3) by (auto simp: has_value_def simp del: image_iff)
  from match_roundtrip [OF netaddr_ok_raw sample_match _ this, of "[1, 2]" 4] show ?thesis by simp
qed

text \<open>
  The order in which Python iterates over the keyword arguments
  does not matter: two orders of the same arguments build the same match, provided the sort key
  of the constructor (the field type, or the experimenter identifier for experimenter fields)
  separates the given fields.
\<close>

theorem match_init_deterministic:
  assumes i: "OFPMatch_init na kw = Inr m" and p: "set kw' = set kw"
    and d: "distinct (map fst kw)" "distinct (map fst kw')"
    and inj: "inj_on sort_key_of (fst ` set kw)"
  shows "OFPMatch_init na kw' = Inr m"
proof -
  let ?N = "\<lambda>(k, v). oxm_normalize_user na k v" and ?F = "\<lambda>(k, v). oxm_from_user na k v"
  let ?K = "\<lambda>(n, v :: bytes option, m :: bytes option). oxm_sort_key n"
  obtain ks fs fs2 where n: "mapM ?N kw = Inr ks" and f: "mapM ?F ks = Inr fs"
    and t: "mapM (\<lambda>(n, v, m). oxm_to_user na n v m) (sort_key ?K fs) = Inr fs2"
    and m: "m = empty_match\<lparr>m_fields2 := fs2\<rparr>"
    using i by (auto simp: OFPMatch_init_def rbind_eq_Inr)
  obtain ks' where n': "mapM ?N kw' = Inr ks'" "set ks' = set ks" using mapM_perm [OF n p] by blast
  obtain fs' where f': "mapM ?F ks' = Inr fs'" "set fs' = set fs" using mapM_perm [OF f n'(2)] by blast
  have keys: "map ?K gs = map (sort_key_of \<circ> fst) w" if "mapM ?N w = Inr us" "mapM ?F us = Inr gs" for w us gs
  proof -
    have "map ?K gs = map (sort_key_of \<circ> fst) us"
      by (rule mapM_map_eq [OF that(2)]) (auto simp: from_user_sort_key)
    also have "\<dots> = map (sort_key_of \<circ> fst) w"
      by (rule mapM_map_eq [OF that(1)]) (auto dest: normalize_user_name)
    finally show ?thesis .
  qed
  have inj2: "inj_on (sort_key_of \<circ> fst) (set kw)"
    using d(1) inj by (intro comp_inj_on) (auto simp: distinct_map)
  have dist: "distinct (map ?K fs)" "distinct (map ?K fs')"
    using d p inj2 by (auto simp: keys [OF n f] keys [OF n'(1) f'(1)] distinct_map)
  have "sort_key ?K fs' = sort_key ?K fs"
  proof (rule map_sorted_distinct_set_unique [where f = ?K])
    show "inj_on ?K (set (sort_key ?K fs') \<union> set (sort_key ?K fs))"
      using dist(1) f'(2) by (simp add: distinct_map)
    show "distinct (map ?K (sort_key ?K fs'))" "distinct (map ?K (sort_key ?K fs))"
      using dist by (simp_all add: distinct_map)
    show "set (sort_key ?K fs') = set (sort_key ?K fs)" using f'(2) by simp
  qed simp_all
  with n' f' t m show ?thesis by (simp add: OFPMatch_init_def)
qed

theorem match_init_deterministic_witness:
  "OFPMatch_init netaddr_raw [(''in_port'', UV (Some (VInt 1))), (''state'', UV (Some (VInt 7)))]
   = Inr (empty_match\<lparr>m_fields2 := [(''in_port'', UV (Some (VInt 1))), (''state'', UV (Some (VInt 7)))]\<rparr>)"
  by (rule match_init_deterministic [OF sample_match])
    (auto simp: sort_key_of_def oxm_from_user_header_def state_info in_port_info)

end
