(* ===== verification/OF13_Match_Old_Codec.thy ===== *)
theory OF13_Match_Old_Codec
  imports OF13_Match_Old OF13_Match_Codec
begin

text \<open>
  Correctness of the old interface of a match. The tables of the match field classes, of the old
  serialiser and of the field descriptors are shown to fit together (same names, distinct bit
  numbers, headers that identify the class), which gives that both interfaces write the same
  bytes.
\<close>

section \<open>Vocabulary\<close>

definition old_descs :: "oxm_desc list" where
  "old_descs = take 15 of13_oxm_types @ [of13_oxm_types ! 41] @ take 25 (drop 15 of13_oxm_types)"

section \<open>Lemmas\<close>

lemma old_descs_names: "map oxm_name old_descs = map fst (old_fields_a @ old_fields_b)"
  by (simp add: old_descs_def of13_oxm_types_def old_fields_a_def old_fields_b_def oxm_table_defs)

lemma old_descs_subset: "set old_descs \<subseteq> set oxm_types"
proof -
  have "of13_oxm_types ! 41 \<in> set of13_oxm_types" by (rule nth_mem) (simp add: of13_oxm_types_def)
  then show ?thesis
    using set_take_subset [of 15 of13_oxm_types] set_take_subset [of 25 "drop 15 of13_oxm_types"]
      set_drop_subset [of 15 of13_oxm_types]
    by (auto simp: old_descs_def oxm_types_def)
qed

lemma OFPXMT_OFB_name: "d \<in> set oxm_types \<Longrightarrow> OFPXMT_OFB (oxm_name d) = nat (oxm_field d)"
  by (simp add: OFPXMT_OFB_def name_to_field_iff [THEN iffD2])

lemma old_fields_bits: "map (\<lambda>e. OFPXMT_OFB (fst e)) (old_fields_a @ old_fields_b) = map (\<lambda>d. nat (oxm_field d)) old_descs"
proof -
  have "map (\<lambda>e. OFPXMT_OFB (fst e)) (old_fields_a @ old_fields_b) = map OFPXMT_OFB (map oxm_name old_descs)"
    unfolding old_descs_names by simp
  also have "\<dots> = map (\<lambda>d. nat (oxm_field d)) old_descs"
    using old_descs_subset OFPXMT_OFB_name by auto
  finally show ?thesis .
qed

lemma old_descs_bits: "map (\<lambda>d. nat (oxm_field d)) old_descs = [0..<15] @ [40] @ [15..<40]"
  by (simp add: old_descs_def of13_oxm_types_def oxm_table_defs upt_rec)

lemma ft_test_set:
  assumes "k < 64" and "j < 64"
  shows "ft_test j (ft_set k FlowWildcards) \<longleftrightarrow> j = k"
proof -
  have m: "(0xffffffffffffffff :: int) = mask 64" by (simp add: mask_eq_exp_minus_1)
  have "(mask 64 AND NOT (push_bit k 1)) AND push_bit j 1 = (0 :: int) \<longleftrightarrow> \<not> bit (mask 64 AND NOT (push_bit k 1 :: int)) j"
    by (metis bit_iff_and_push_bit_not_eq_0)
  also have "\<dots> \<longleftrightarrow> j = k"
    using assms by (auto simp: bit_and_iff bit_not_iff bit_push_bit_iff bit_mask_iff bit_1_iff bit_exp_iff)
  finally show ?thesis by (simp only: ft_test_def ft_set_def FlowWildcards_def UINT64_MAX_def m flow_wildcards.simps)
qed

lemma ft_test_init: "j < 64 \<Longrightarrow> \<not> ft_test j FlowWildcards"
proof -
  assume j: "j < 64"
  have m: "(0xffffffffffffffff :: int) = mask 64" by (simp add: mask_eq_exp_minus_1)
  have "mask 64 AND push_bit j 1 \<noteq> (0 :: int)"
    using j bit_iff_and_push_bit_not_eq_0 [of "mask 64 :: int" j] by (simp add: bit_mask_iff)
  then show ?thesis by (simp only: ft_test_def FlowWildcards_def UINT64_MAX_def m flow_wildcards.simps) simp
qed

lemma old_bit: "e \<in> set (old_fields_a @ old_fields_b) \<Longrightarrow> OFPXMT_OFB (fst e) < 64"
proof -
  assume "e \<in> set (old_fields_a @ old_fields_b)"
  then have "OFPXMT_OFB (fst e) \<in> set (map (\<lambda>e. OFPXMT_OFB (fst e)) (old_fields_a @ old_fields_b))" by auto
  then show ?thesis unfolding old_fields_bits old_descs_bits by auto
qed

lemma old_bits_distinct: "distinct (map (\<lambda>e. OFPXMT_OFB (fst e)) (old_fields_a @ old_fields_b))"
  unfolding old_fields_bits old_descs_bits by auto

text \<open>With a single cleared bit exactly one block of \<open>serialize_old\<close> appends a field.\<close>

lemma mapM_single:
  assumes "distinct (map g xs)" and "e \<in> set xs" and "\<And>x. x \<in> set xs \<Longrightarrow> g x \<noteq> g e \<Longrightarrow> f x = Inr []"
    and "f e = Inr r"
  shows "\<exists>rs. mapM f xs = Inr rs \<and> concat rs = r"
  using assms
proof (induction xs)
  case (Cons x xs)
  show ?case
  proof (cases "x = e")
    case True
    then have "g y \<noteq> g e" if "y \<in> set xs" for y using Cons.prems(1) that by (metis distinct.simps(2) list.set_map list.simps(9) rev_image_eqI)
    then have z: "f y = Inr []" if "y \<in> set xs" for y using Cons.prems(3) [of y] that by auto
    have "\<exists>rs. mapM f xs = Inr rs \<and> concat rs = []" using z by (induction xs) auto
    with True Cons.prems(4) show ?thesis by auto
  next
    case False
    with Cons.prems have e: "e \<in> set xs" by simp
    then have "g x \<noteq> g e" using Cons.prems(1) by (metis distinct.simps(2) list.set_map list.simps(9) rev_image_eqI)
    with Cons.prems(3) have "f x = Inr []" by simp
    moreover obtain rs where "mapM f xs = Inr rs" "concat rs = r"
      using Cons.IH [OF _ e] Cons.prems by auto
    ultimately show ?thesis by auto
  qed
qed simp

lemma old_fields_none: "old_fields flow FlowWildcards = Inr []"
proof -
  have "\<exists>rs. mapM (old_field flow FlowWildcards) es = Inr rs \<and> concat rs = []"
    if "set es \<subseteq> set (old_fields_a @ old_fields_b)" for es
    using that
  proof (induction es)
    case (Cons e es)
    then have "old_field flow FlowWildcards e = Inr []"
      using old_bit [of e] by (auto simp: old_field_def ft_test_init split: prod.splits)
    with Cons show ?case by auto
  qed simp
  from this [of "old_fields_a @ old_fields_b"] show ?thesis by (auto simp: old_fields_def)
qed

lemma old_fields_one:
  assumes e: "(name, attr, msk) \<in> set (old_fields_a @ old_fields_b)"
    and r: "rbind (old_header wc name msk) (\<lambda>(h, m). rbind (attr_get flow attr) (\<lambda>v.
              rbind (OFPMatchField_make h v m) (\<lambda>f. Inr [f]))) = Inr r"
    and wc: "wc_wildcards wc = wc_wildcards (ft_set (OFPXMT_OFB name) FlowWildcards)"
  shows "old_fields flow wc = Inr r"
proof -
  let ?k = "OFPXMT_OFB name"
  have k: "?k < 64" using old_bit [OF e] by simp
  have t: "ft_test j wc \<longleftrightarrow> j = ?k" if "j < 64" for j
    using ft_test_set [OF k that] wc by (simp add: ft_test_def)
  have "\<exists>rs. mapM (old_field flow wc) (old_fields_a @ old_fields_b) = Inr rs \<and> concat rs = r"
  proof (rule mapM_single [OF old_bits_distinct e])
    fix x assume "x \<in> set (old_fields_a @ old_fields_b)" "OFPXMT_OFB (fst x) \<noteq> OFPXMT_OFB (fst (name, attr, msk))"
    then show "old_field flow wc x = Inr []"
      using t old_bit [of x] by (auto simp: old_field_def split: prod.splits)
  next
    show "old_field flow wc (name, attr, msk) = Inr r"
      using r t [OF k] by (simp add: old_field_def)
  qed
  then show ?thesis by (auto simp: old_fields_def)
qed

theorem old_api_serialize_once:
  assumes "composed_with_old_api m" and "match_serialize na m buf offset = Inr (m', buf', len)"
  shows "composed_with_old_api m' \<and> match_serialize na m' buf2 offset2 = Inl OtherException"
proof -
  obtain fs where "m' = m\<lparr>m_serialized := True, m_fields := m_fields m @ fs\<rparr>"
    using assms by (auto simp: match_serialize_def match_serialize_old_def rbind_eq_Inr Let_def split: if_splits)
  with assms(1) show ?thesis
    by (auto simp: composed_with_old_api_def match_serialize_def match_serialize_old_def)
qed

lemma flow_attrs: "map fst Flow = map (\<lambda>(n, a, m). a) (old_fields_a @ old_fields_b)"
  by (simp add: Flow_def old_fields_a_def old_fields_b_def)

lemma map_of_attr_set: "a \<in> fst ` set d \<Longrightarrow> map_of (attr_set a v d) a = Some v"
  unfolding attr_set_def
proof (induction d)
  case (Cons p d)
  then show ?case by (cases p; cases "fst p = a") simp_all
qed simp

lemma attr_get_set: "a \<in> fst ` set d \<Longrightarrow> attr_get (attr_set a v d) a = Inr v"
  by (simp add: attr_get_def map_of_attr_set)

lemma tlv_header_eq:
  assumes "0 \<le> f" "f < 128" "0 \<le> l" "l < 128"
  shows "oxm_tlv_header f l = 0x80000000 + f * 512 + l"
    and "oxm_tlv_header_w f l = 0x80000000 + f * 512 + 256 + l * 2"
proof -
  have 1: "push_bit 16 OFPXMC_OPENFLOW_BASIC = push_bit 9 (0x400000 :: int)" by simp
  have 2: "(push_bit 9 0x400000 OR push_bit 9 f) = push_bit 9 (0x400000 OR f)" by (simp add: push_bit_or)
  have 3: "0x400000 OR f = 0x400000 + f"
    using int_shift_or [of f 7 "0x8000"] assms by simp
  show "oxm_tlv_header f l = 0x80000000 + f * 512 + l"
    using hdr_word(1) [of l "0x400000 + f"] assms
    by (simp only: oxm_tlv_header_def oxm_tlv_header_impl_def 1 2 3 or.assoc [symmetric]) simp
  show "oxm_tlv_header_w f l = 0x80000000 + f * 512 + 256 + l * 2"
    using hdr_word(2) [of "l * 2" "0x400000 + f"] assms
    by (simp only: oxm_tlv_header_w_def oxm_tlv_header_impl_def 1 or.assoc [symmetric] 2 3) simp
qed

lemma mt_in_old: "set (map mt_oxm mt_classes) \<subseteq> set (map fst (old_fields_a @ old_fields_b))"
  by (simp add: mt_classes_def mt_classes_a_def mt_classes_b_def mt_classes_c_def mt_classes_d_def
    old_fields_a_def old_fields_b_def)

lemma mt_distinct: "distinct (map mt_oxm mt_classes)"
  by (simp add: mt_classes_def mt_classes_a_def mt_classes_b_def mt_classes_c_def mt_classes_d_def)

lemma old_in_mt: "set (map fst (old_fields_a @ old_fields_b)) \<subseteq> set (map mt_oxm mt_classes)"
  by (simp add: mt_classes_def mt_classes_a_def mt_classes_b_def mt_classes_c_def mt_classes_d_def
    old_fields_a_def old_fields_b_def)

lemma old_descs_basic:
  "d \<in> set old_descs \<Longrightarrow> 0 \<le> oxm_field d \<and> oxm_field d < 128 \<and> oxm_class d = OFPXMC_OPENFLOW_BASIC \<and>
     oxm_numb d = Num (0x400000 + oxm_field d) \<and> (\<exists>sz. type_size (oxm_tdesc d) = Some sz \<and> 0 < sz \<and> sz \<le> 16)"
proof -
  have "list_all (\<lambda>d. 0 \<le> oxm_field d \<and> oxm_field d < 128 \<and> oxm_class d = OFPXMC_OPENFLOW_BASIC \<and>
     oxm_numb d = Num (0x400000 + oxm_field d) \<and> (\<exists>sz. type_size (oxm_tdesc d) = Some sz \<and> 0 < sz \<and> sz \<le> 16)) old_descs"
    by (simp add: old_descs_def of13_oxm_types_def OpenFlowBasic_def OxmClass_def)
  then show "d \<in> set old_descs \<Longrightarrow> ?thesis" by (simp add: list_all_iff)
qed

lemma old_desc_of_name:
  assumes "name \<in> set (map fst (old_fields_a @ old_fields_b))"
  obtains d where "d \<in> set old_descs" "oxm_name d = name" "name_to_field name = Some d" "d \<in> set oxm_types"
proof -
  from assms have "name \<in> set (map oxm_name old_descs)" unfolding old_descs_names .
  then obtain d where d: "d \<in> set old_descs" "oxm_name d = name" by auto
  with old_descs_subset show thesis by (intro that) (auto simp: name_to_field_iff)
qed

lemma field_number_inj:
  assumes "d \<in> set old_descs" "d' \<in> set old_descs" "oxm_field d = oxm_field d'"
  shows "d = d'"
proof -
  have "distinct (map (\<lambda>d. nat (oxm_field d)) old_descs)" unfolding old_descs_bits by auto
  with assms show ?thesis by (auto simp: distinct_map inj_on_def)
qed

lemma find_unique:
  assumes x: "x \<in> set xs" "P x" and u: "\<And>y. y \<in> set xs \<Longrightarrow> P y \<Longrightarrow> y = x"
  shows "List.find P xs = Some x"
proof (cases "List.find P xs")
  case None
  with x show ?thesis by (simp add: find_None_iff)
next
  case (Some y)
  then have "P y" "y \<in> set xs" by (auto simp: find_Some_iff)
  with u Some show ?thesis by simp
qed

lemma FIELDS_HEADERS_of:
  assumes md: "md \<in> set mt_classes" and d: "d \<in> set old_descs" "oxm_name d = mt_oxm md"
    and sz: "type_size (oxm_tdesc d) = Some sz"
  shows "FIELDS_HEADERS (oxm_tlv_header (oxm_field d) (int sz)) = Some md"
  unfolding FIELDS_HEADERS_def
proof (rule find_unique [OF md])
  have nd: "name_to_field (mt_oxm md) = Some d" using d old_descs_subset by (auto simp: name_to_field_iff)
  show "mt_registered (oxm_tlv_header (oxm_field d) (int sz)) md"
    by (simp add: mt_registered_def nd sz)
  fix y assume y: "y \<in> set mt_classes" "mt_registered (oxm_tlv_header (oxm_field d) (int sz)) y"
  obtain d' where d': "d' \<in> set old_descs" "oxm_name d' = mt_oxm y" "name_to_field (mt_oxm y) = Some d'"
  proof -
    have "mt_oxm y \<in> set (map mt_oxm mt_classes)" using y(1) by simp
    then show thesis using that old_desc_of_name mt_in_old by blast
  qed
  obtain sz' where sz': "type_size (oxm_tdesc d') = Some sz'" using old_descs_basic [OF d'(1)] by blast
  have b: "sz \<le> 16" "sz' \<le> 16" using old_descs_basic [OF d(1)] old_descs_basic [OF d'(1)] sz sz' by auto
  have "oxm_tlv_header (oxm_field d) (int sz) = oxm_tlv_header (oxm_field d') (int sz') \<or>
      oxm_tlv_header (oxm_field d) (int sz) = oxm_tlv_header_w (oxm_field d') (int sz')"
    using y(2) by (auto simp: mt_registered_def d'(3) sz')
  moreover have f: "0 \<le> oxm_field d" "oxm_field d < 128" "0 \<le> oxm_field d'" "oxm_field d' < 128"
    using old_descs_basic [OF d(1)] old_descs_basic [OF d'(1)] by auto
  moreover have s: "0 \<le> int sz" "int sz < 128" "0 \<le> int sz'" "int sz' < 128" using b by auto
  ultimately have "0x80000000 + oxm_field d * 512 + int sz = 0x80000000 + oxm_field d' * 512 + int sz' \<or>
      0x80000000 + oxm_field d * 512 + int sz = 0x80000000 + oxm_field d' * 512 + 256 + int sz' * 2"
    by (simp only: tlv_header_eq [OF f(1,2) s(1,2)] tlv_header_eq [OF f(3,4) s(3,4)])
  then have "oxm_field d = oxm_field d'" using b by linarith
  then have "d = d'" using field_number_inj d(1) d'(1) by blast
  then have "mt_oxm y = mt_oxm md" using d(2) d'(2) by simp
  then show "y = md" using mt_distinct md y(1) by (auto simp: distinct_map inj_on_def)
qed

lemma mt_int_kind:
  assumes "md \<in> set mt_classes" "d \<in> set old_descs" "oxm_name d = mt_oxm md" "oxm_tdesc d = IntDescr n"
    and "mt_oxm md \<notin> {''vlan_vid'', ''pbb_isid''}"
  shows "mt_kind md = MTInt n"
proof -
  let ?is = "[0, 2, 1, 3, 4, 5, 6, 7, 8, 9, 10, 11, 12, 13, 14, 15, 16, 17, 18, 19, 20, 21, 22, 23, 24, 25, 26, 27, 28, 34, 29, 30, 31, 32, 33, 35, 36, 37, 38, 39, 41]"
  let ?R = "\<lambda>md d. oxm_name d = mt_oxm md \<and> (mt_oxm md = ''vlan_vid'' \<or> mt_oxm md = ''pbb_isid'' \<or>
      (case oxm_tdesc d of IntDescr n \<Rightarrow> mt_kind md = MTInt n | _ \<Rightarrow> True))"
  have r: "list_all2 ?R mt_classes (map (nth of13_oxm_types) ?is)"
    by (simp add: mt_classes_def mt_classes_a_def mt_classes_b_def mt_classes_c_def mt_classes_d_def
      of13_oxm_types_def OpenFlowBasic_def OxmClass_def)
  obtain i where i: "i < length mt_classes" "md = mt_classes ! i" using assms(1) by (metis in_set_conv_nth)
  define d' where "d' = map (nth of13_oxm_types) ?is ! i"
  have R: "?R md d'" unfolding d'_def i(2) by (rule list_all2_nthD [OF r i(1)])
  have "set ?is \<subseteq> {..< length of13_oxm_types}" by (simp add: of13_oxm_types_def)
  then have "set (map (nth of13_oxm_types) ?is) \<subseteq> set of13_oxm_types" by (force intro: nth_mem)
  moreover have "d' \<in> set (map (nth of13_oxm_types) ?is)"
    unfolding d'_def by (rule nth_mem) (use i(1) list_all2_lengthD [OF r] in simp)
  ultimately have "d' \<in> set oxm_types" by (auto simp: oxm_types_def)
  moreover have "d \<in> set oxm_types" using assms(2) old_descs_subset by auto
  ultimately have "d = d'" using R assms(3) by (metis name_to_field_iff option.inject)
  with R assms(4,5) show ?thesis by simp
qed

lemma old_no_mask_names:
  "(name, attr, NoMask) \<in> set (old_fields_a @ old_fields_b) \<Longrightarrow> name \<notin> {''vlan_vid'', ''pbb_isid''}"
  by (auto simp: old_fields_a_def old_fields_b_def)

lemma init_int_field:
  assumes d: "d \<in> set oxm_types" and t: "oxm_tdesc d = IntDescr n" and v: "fits n v"
  shows "oxm_from_user na (oxm_name d) (UV (Some (VInt v))) = Inr (oxm_numb d, Some (be_bytes n v), None)"
    and "OFPMatch_init na [(oxm_name d, UV (Some (VInt v)))] =
           Inr (empty_match\<lparr>m_fields2 := [(oxm_name d, UV (Some (VInt v)))]\<rparr>)"
proof -
  show f: "oxm_from_user na (oxm_name d) (UV (Some (VInt v))) = Inr (oxm_numb d, Some (be_bytes n v), None)"
    by (simp add: oxm_from_user_def info_by_name_table [OF d] t int_from_user_eq)
  have t: "oxm_to_user na (oxm_numb d) (Some (be_bytes n v)) None = Inr (oxm_name d, UV (Some (VInt v)))"
    using v by (simp add: oxm_to_user_def info_by_number_table [OF d] t int_to_user_eq)
  show "OFPMatch_init na [(oxm_name d, UV (Some (VInt v)))] =
           Inr (empty_match\<lparr>m_fields2 := [(oxm_name d, UV (Some (VInt v)))]\<rparr>)"
    using f t by (simp add: OFPMatch_init_def oxm_normalize_user_def)
qed

lemma mt_serialize_int:
  assumes h: "header = 0x80000000 + f * 512 + int n" "0 \<le> f" "f < 128" "n \<le> 16" and k: "mt_kind md = MTInt n"
    and v: "fits n v" and b: "length buf \<le> offset"
  shows "mt_serialize \<lparr>mf_class = Some md, mf_header = header, mf_value = Some (MTI v), mf_mask = None, mf_length = 0\<rparr> buf offset
         = Inr (grow offset buf @ packed [fI] [header] @ be_bytes n v, 4 + n)"
proof -
  have e: "header = (0x400000 + f) * 512 + of_bool False * 256 + int n" using h by simp
  have hm: "oxm_tlv_header_extract_hasmask header = 0" "header AND 255 = int n"
    using hdr_word_fields(2,3) [of "int n" "0x400000 + f" False] h(4) unfolding e by simp_all
  then have len: "oxm_tlv_header_extract_length header = int n" by (simp add: oxm_tlv_header_extract_length_def)
  have fh: "fits 4 header" using h by (auto simp: fits_def)
  have "pack_at (packed [fI] [header]) offset buf = grow offset buf @ packed [fI] [header]"
    using b by (rule pack_at_append)
  moreover have "pack_at (be_bytes n v) (offset + 4) (grow offset buf @ packed [fI] [header])
      = grow offset buf @ packed [fI] [header] @ be_bytes n v"
    using b by (simp add: pack_at_append)
  ultimately show ?thesis
    using hm len k v fh
    by (simp add: mt_serialize_def mt_writes_mask_def mt_n_bytes_def mt_put_at_def msg_pack_into_eq struct_pack_eq del: packed.simps)
       (simp add: max_absorb1)
qed

lemma old_set_int:
  assumes na: "netaddr_ok na" and e: "(name, attr, NoMask) \<in> set (old_fields_a @ old_fields_b)"
    and nd: "name_to_field name = Some d" and t: "oxm_tdesc d = IntDescr n" and v: "fits n v"
    and b: "length buf \<le> offset"
  shows "\<exists>m m1 m2 bs len. OFPMatch_init na [(name, UV (Some (VInt v)))] = Inr m \<and>
           match_serialize na m buf offset = Inr (m1, bs, len) \<and>
           match_serialize na (old_set name attr (MTI v) empty_match) buf offset = Inr (m2, bs, len) \<and>
           composed_with_old_api (old_set name attr (MTI v) empty_match)"
proof -
  have d: "d \<in> set oxm_types" "oxm_name d = name" using nd by (auto simp: name_to_field_iff)
  have nm: "name \<in> set (map fst (old_fields_a @ old_fields_b))" using e by force
  have od: "d \<in> set old_descs" using old_desc_of_name [OF nm] nd by auto
  note db = old_descs_basic [OF od]
  have n: "0 < n" "n \<le> 16" using db t by auto
  define header where "header = 0x80000000 + oxm_field d * 512 + int n"
  have hd: "oxm_tlv_header (oxm_field d) (int n) = header"
    using tlv_header_eq(1) [of "oxm_field d" "int n"] db n by (simp add: header_def)
  obtain md where md: "md \<in> set mt_classes" "mt_oxm md = name" using old_in_mt nm by auto
  have fh: "FIELDS_HEADERS header = Some md"
    using FIELDS_HEADERS_of [OF md(1) od] d(2) md(2) t by (simp add: hd)
  have k: "mt_kind md = MTInt n"
    by (rule mt_int_kind [OF md(1) od _ t]) (use d(2) md(2) old_no_mask_names [OF e] in simp_all)
  define f where "f = \<lparr>mf_class = Some md, mf_header = header, mf_value = Some (MTI v), mf_mask = None, mf_length = 0\<rparr>"
  let ?o = "old_set name attr (MTI v) empty_match"
  have "OXM_OF name = Inr header"
    using nd db t hd by (auto simp: OXM_OF_def)
  moreover have "attr_get (m_flow ?o) attr = Inr (MTI v)"
  proof -
    have "attr \<in> set (map (\<lambda>(n, a, m). a) (old_fields_a @ old_fields_b))" using e by force
    then have "attr \<in> fst ` set Flow" unfolding flow_attrs [symmetric] by simp
    then show ?thesis by (simp add: old_set_def empty_match_def attr_get_set)
  qed
  ultimately have "old_fields (m_flow ?o) (m_wc ?o) = Inr [f]"
    by (intro old_fields_one [OF e])
      (simp_all add: OFPMatchField_make_def fh f_def old_set_def empty_match_def)
  moreover have c: "composed_with_old_api ?o"
    using old_bit [OF e] ft_test_set [of "OFPXMT_OFB name" "OFPXMT_OFB name"] ft_test_init [of "OFPXMT_OFB name"]
    by (auto simp: composed_with_old_api_def old_set_def empty_match_def)
  ultimately have old: "match_serialize na ?o buf offset =
      rbind (ser_list mt_serialize [f] buf (offset + 4)) (\<lambda>(buf1, field_offset).
      rbind (match_finish buf1 offset field_offset) (\<lambda>(buf2, len, total).
        Inr (?o\<lparr>m_serialized := True, m_fields := [f]\<rparr>, buf2, total)))"
    by (simp add: match_serialize_def match_serialize_old_def Let_def) (simp add: old_set_def empty_match_def)
  let ?m = "empty_match\<lparr>m_fields2 := [(name, UV (Some (VInt v)))]\<rparr>"
  have init: "OFPMatch_init na [(name, UV (Some (VInt v)))] = Inr ?m"
    using init_int_field(2) [OF d(1) t v] d(2) by simp
  have new: "match_serialize na ?m buf offset =
      rbind (ser_list oxm_ser [(Num (0x400000 + oxm_field d), Some (be_bytes n v), None)] buf (offset + 4)) (\<lambda>(buf1, field_offset).
      rbind (match_finish buf1 offset field_offset) (\<lambda>(buf2, len, total). Inr (?m\<lparr>m_length := Some (int len)\<rparr>, buf2, total)))"
    using init_int_field(1) [OF d(1) t v, of na] d(2) db
    by (simp add: match_serialize_def composed_with_old_api_def empty_match_def)
  have hs: "hdr_spec (Num (0x400000 + oxm_field d)) (0x400000 + oxm_field d) []"
    using db by (auto simp: hdr_spec_def)
  have "num_to_field (Num (0x400000 + oxm_field d)) = Some d" using db d(1) by (simp add: num_to_field_iff)
  then have mk: "oxm_make_exp_hdr (Num (0x400000 + oxm_field d)) = Inr (Num (0x400000 + oxm_field d), [])"
    using db by (simp add: oxm_make_exp_hdr_def OFPXXC_EXPERIMENTER_def)
  have "oxm_serialize (Num (0x400000 + oxm_field d)) (Some (be_bytes n v)) None buf (offset + 4)
      = Inr (grow (offset + 4) buf @ packed [fI] [header] @ be_bytes n v, 4 + n)"
    using oxm_serialize_spec [OF mk hs, of "be_bytes n v" None buf "offset + 4"] b n
    by (simp add: payload_ok_def oxm_enc_def header_def algebra_simps flip: length_0_conv)
  moreover have "mt_serialize f buf (offset + 4) = Inr (grow (offset + 4) buf @ packed [fI] [header] @ be_bytes n v, 4 + n)"
    unfolding f_def by (rule mt_serialize_int [OF header_def]) (use db n k v b in auto)
  ultimately have s: "ser_list mt_serialize [f] buf (offset + 4) =
      ser_list oxm_ser [(Num (0x400000 + oxm_field d), Some (be_bytes n v), None)] buf (offset + 4)"
    by (simp add: oxm_ser_def)
  have "4 + length (concat (map (kv_enc na) (m_fields2 ?m))) < 65536" "list_all (kv_ok na) (m_fields2 ?m)"
    "\<not> composed_with_old_api ?m"
    using init_fields_ok [OF na init] sum_kv_enc [of na "m_fields2 ?m"] d by (auto simp: has_value_def)
  with match_serialize_ok [of na ?m buf offset] b obtain m1 bs len
    where r: "match_serialize na ?m buf offset = Inr (m1, bs, len)" by blast
  from r [unfolded new] obtain b1 fo l where
    "ser_list oxm_ser [(Num (0x400000 + oxm_field d), Some (be_bytes n v), None)] buf (offset + 4) = Inr (b1, fo)"
    "match_finish b1 offset fo = Inr (bs, l, len)"
    by (auto simp: rbind_eq_Inr simp del: ser_list.simps)
  with old s obtain m2 where "match_serialize na ?o buf offset = Inr (m2, bs, len)"
    by (simp del: ser_list.simps)
  with init r c show ?thesis by blast
qed

lemma in_port_desc:
  "name_to_field ''in_port'' = Some (OpenFlowBasic ''in_port'' 0 (IntDescr 4))"
  "oxm_tdesc (OpenFlowBasic ''in_port'' 0 (IntDescr 4)) = IntDescr 4"
  "(''in_port'', ''in_port'', NoMask) \<in> set (old_fields_a @ old_fields_b)"
  by (simp_all add: name_to_field_iff oxm_types_def of13_oxm_types_def OpenFlowBasic_def OxmClass_def old_fields_a_def)

theorem old_api_serialize_once_witness:
  "\<exists>m' bs len. match_serialize netaddr_raw (set_in_port 3 empty_match) [] 0 = Inr (m', bs, len) \<and>
     match_serialize netaddr_raw m' [] 0 = Inl OtherException"
proof -
  let ?m = "old_set ''in_port'' ''in_port'' (MTI 3) empty_match"
  obtain m' bs len where m: "match_serialize netaddr_raw ?m [] 0 = Inr (m', bs, len)" "composed_with_old_api ?m"
    using old_set_int [OF netaddr_ok_raw in_port_desc(3,1,2), of 3 "[]" 0] by (auto simp: fits_def)
  from old_api_serialize_once [OF m(2,1), of "[]" 0] m(1) show ?thesis by (auto simp: set_in_port_def)
qed

section \<open>Properties\<close>



end
