(* ===== verification/OF13_Action.thy ===== *)
theory OF13_Action
  imports OF13_Match
begin

text \<open>
  The actions of \<open>ryu/ofproto/ofproto_v1_3_parser.py\<close> and the Nicira experimenter actions of
  \<open>ryu/ofproto/nx_actions.py\<close>: their attributes, \<open>serialize\<close> and \<open>parser\<close>. A serialiser returns
  the new buffer and the value it leaves in \<open>self.len\<close>; a parser returns the action and its
  \<open>len\<close> (the class constant for the fixed-size actions, the length found on the wire for
  \<open>SetField\<close> and the experimenter actions).
\<close>

section \<open>Data\<close>

datatype nx_src = NXSubfield string int | NXImmediate int

datatype nx_flow_spec =
    NXFlowSpecMatch nx_src "string \<times> int" int
  | NXFlowSpecLoad nx_src "string \<times> int" int
  | NXFlowSpecOutput nx_src int

record nx_learn =
  nxl_idle_timeout :: int
  nxl_hard_timeout :: int
  nxl_priority :: int
  nxl_cookie :: int
  nxl_flags :: int
  nxl_table_id :: int
  nxl_fin_idle_timeout :: int
  nxl_fin_hard_timeout :: int

record nx_ct =
  nxc_flags :: int
  nxc_zone_src :: int
  nxc_zone_ofs_nbits :: int
  nxc_recirc_table :: int
  nxc_alg :: int

text \<open>
  A \<open>SetField\<close> holds a plain value (the constructor refuses a tuple). The class for unknown
  Nicira subtypes has no objects: its constructor reads an attribute that the class lacks.
\<close>

datatype of_action =
    OFPActionOutput int int
  | OFPActionGroup int
  | OFPActionSetQueue int
  | OFPActionSetMplsTtl int
  | OFPActionDecMplsTtl
  | OFPActionSetNwTtl int
  | OFPActionDecNwTtl
  | OFPActionCopyTtlOut
  | OFPActionCopyTtlIn
  | OFPActionPushVlan int
  | OFPActionPushMpls int
  | OFPActionPopVlan
  | OFPActionPopMpls int
  | OFPActionPushPbb int
  | OFPActionPopPbb
  | OFPActionSetField string "user_val option"
  | OFPActionExperimenterUnknown int "bytes option"
  | NXActionRegMove string string int int int
  | NXActionLearn nx_learn "nx_flow_spec list"
  | NXActionConjunction int int int
  | NXActionResubmitTable int int
  | NXActionCT nx_ct "of_action list"

section \<open>The fixed-size action classes\<close>

text \<open>
  What such a class consists of: the type and length it is registered with, the format its
  \<open>parser\<close> and \<open>serialize\<close> share, and the constructor applied to the unpacked attributes.
\<close>

record act_cls =
  cls_action_type :: int
  cls_action_len :: nat
  cls_pack_str :: fmt
  cls_make :: "int list \<Rightarrow> of_action"

definition OFPActionOutput_cls :: act_cls where
  "OFPActionOutput_cls =
     \<lparr>cls_action_type = OFPAT_OUTPUT, cls_action_len = OFP_ACTION_OUTPUT_SIZE,
      cls_pack_str = OFP_ACTION_OUTPUT_PACK_STR, cls_make = (\<lambda>vs. OFPActionOutput (vs ! 0) (vs ! 1))\<rparr>"

definition OFPActionGroup_cls :: act_cls where
  "OFPActionGroup_cls =
     \<lparr>cls_action_type = OFPAT_GROUP, cls_action_len = OFP_ACTION_GROUP_SIZE,
      cls_pack_str = OFP_ACTION_GROUP_PACK_STR, cls_make = (\<lambda>vs. OFPActionGroup (vs ! 0))\<rparr>"

definition OFPActionSetQueue_cls :: act_cls where
  "OFPActionSetQueue_cls =
     \<lparr>cls_action_type = OFPAT_SET_QUEUE, cls_action_len = OFP_ACTION_SET_QUEUE_SIZE,
      cls_pack_str = OFP_ACTION_SET_QUEUE_PACK_STR, cls_make = (\<lambda>vs. OFPActionSetQueue (vs ! 0))\<rparr>"

definition OFPActionSetMplsTtl_cls :: act_cls where
  "OFPActionSetMplsTtl_cls =
     \<lparr>cls_action_type = OFPAT_SET_MPLS_TTL, cls_action_len = OFP_ACTION_MPLS_TTL_SIZE,
      cls_pack_str = OFP_ACTION_MPLS_TTL_PACK_STR, cls_make = (\<lambda>vs. OFPActionSetMplsTtl (vs ! 0))\<rparr>"

definition OFPActionDecMplsTtl_cls :: act_cls where
  "OFPActionDecMplsTtl_cls =
     \<lparr>cls_action_type = OFPAT_DEC_MPLS_TTL, cls_action_len = OFP_ACTION_HEADER_SIZE,
      cls_pack_str = OFP_ACTION_HEADER_PACK_STR, cls_make = (\<lambda>vs. OFPActionDecMplsTtl)\<rparr>"

definition OFPActionSetNwTtl_cls :: act_cls where
  "OFPActionSetNwTtl_cls =
     \<lparr>cls_action_type = OFPAT_SET_NW_TTL, cls_action_len = OFP_ACTION_NW_TTL_SIZE,
      cls_pack_str = OFP_ACTION_NW_TTL_PACK_STR, cls_make = (\<lambda>vs. OFPActionSetNwTtl (vs ! 0))\<rparr>"

definition OFPActionDecNwTtl_cls :: act_cls where
  "OFPActionDecNwTtl_cls =
     \<lparr>cls_action_type = OFPAT_DEC_NW_TTL, cls_action_len = OFP_ACTION_HEADER_SIZE,
      cls_pack_str = OFP_ACTION_HEADER_PACK_STR, cls_make = (\<lambda>vs. OFPActionDecNwTtl)\<rparr>"

definition OFPActionCopyTtlOut_cls :: act_cls where
  "OFPActionCopyTtlOut_cls =
     \<lparr>cls_action_type = OFPAT_COPY_TTL_OUT, cls_action_len = OFP_ACTION_HEADER_SIZE,
      cls_pack_str = OFP_ACTION_HEADER_PACK_STR, cls_make = (\<lambda>vs. OFPActionCopyTtlOut)\<rparr>"

definition OFPActionCopyTtlIn_cls :: act_cls where
  "OFPActionCopyTtlIn_cls =
     \<lparr>cls_action_type = OFPAT_COPY_TTL_IN, cls_action_len = OFP_ACTION_HEADER_SIZE,
      cls_pack_str = OFP_ACTION_HEADER_PACK_STR, cls_make = (\<lambda>vs. OFPActionCopyTtlIn)\<rparr>"

definition OFPActionPushVlan_cls :: act_cls where
  "OFPActionPushVlan_cls =
     \<lparr>cls_action_type = OFPAT_PUSH_VLAN, cls_action_len = OFP_ACTION_PUSH_SIZE,
      cls_pack_str = OFP_ACTION_PUSH_PACK_STR, cls_make = (\<lambda>vs. OFPActionPushVlan (vs ! 0))\<rparr>"

definition OFPActionPushMpls_cls :: act_cls where
  "OFPActionPushMpls_cls =
     \<lparr>cls_action_type = OFPAT_PUSH_MPLS, cls_action_len = OFP_ACTION_PUSH_SIZE,
      cls_pack_str = OFP_ACTION_PUSH_PACK_STR, cls_make = (\<lambda>vs. OFPActionPushMpls (vs ! 0))\<rparr>"

definition OFPActionPopVlan_cls :: act_cls where
  "OFPActionPopVlan_cls =
     \<lparr>cls_action_type = OFPAT_POP_VLAN, cls_action_len = OFP_ACTION_HEADER_SIZE,
      cls_pack_str = OFP_ACTION_HEADER_PACK_STR, cls_make = (\<lambda>vs. OFPActionPopVlan)\<rparr>"

definition OFPActionPopMpls_cls :: act_cls where
  "OFPActionPopMpls_cls =
     \<lparr>cls_action_type = OFPAT_POP_MPLS, cls_action_len = OFP_ACTION_POP_MPLS_SIZE,
      cls_pack_str = OFP_ACTION_POP_MPLS_PACK_STR, cls_make = (\<lambda>vs. OFPActionPopMpls (vs ! 0))\<rparr>"

definition OFPActionPushPbb_cls :: act_cls where
  "OFPActionPushPbb_cls =
     \<lparr>cls_action_type = OFPAT_PUSH_PBB, cls_action_len = OFP_ACTION_PUSH_SIZE,
      cls_pack_str = OFP_ACTION_PUSH_PACK_STR, cls_make = (\<lambda>vs. OFPActionPushPbb (vs ! 0))\<rparr>"

definition OFPActionPopPbb_cls :: act_cls where
  "OFPActionPopPbb_cls =
     \<lparr>cls_action_type = OFPAT_POP_PBB, cls_action_len = OFP_ACTION_HEADER_SIZE,
      cls_pack_str = OFP_ACTION_HEADER_PACK_STR, cls_make = (\<lambda>vs. OFPActionPopPbb)\<rparr>"

definition ACTION_TYPES :: "act_cls list" where
  "ACTION_TYPES =
    [OFPActionOutput_cls,
     OFPActionGroup_cls,
     OFPActionSetQueue_cls,
     OFPActionSetMplsTtl_cls,
     OFPActionDecMplsTtl_cls,
     OFPActionSetNwTtl_cls,
     OFPActionDecNwTtl_cls,
     OFPActionCopyTtlOut_cls,
     OFPActionCopyTtlIn_cls,
     OFPActionPushVlan_cls,
     OFPActionPushMpls_cls,
     OFPActionPopVlan_cls,
     OFPActionPopMpls_cls,
     OFPActionPushPbb_cls,
     OFPActionPopPbb_cls]"

fun act_attrs :: "of_action \<Rightarrow> (act_cls \<times> int list) option" where
  "act_attrs (OFPActionOutput port max_len) = Some (OFPActionOutput_cls, [port, max_len])"
| "act_attrs (OFPActionGroup group_id) = Some (OFPActionGroup_cls, [group_id])"
| "act_attrs (OFPActionSetQueue queue_id) = Some (OFPActionSetQueue_cls, [queue_id])"
| "act_attrs (OFPActionSetMplsTtl mpls_ttl) = Some (OFPActionSetMplsTtl_cls, [mpls_ttl])"
| "act_attrs OFPActionDecMplsTtl = Some (OFPActionDecMplsTtl_cls, [])"
| "act_attrs (OFPActionSetNwTtl nw_ttl) = Some (OFPActionSetNwTtl_cls, [nw_ttl])"
| "act_attrs OFPActionDecNwTtl = Some (OFPActionDecNwTtl_cls, [])"
| "act_attrs OFPActionCopyTtlOut = Some (OFPActionCopyTtlOut_cls, [])"
| "act_attrs OFPActionCopyTtlIn = Some (OFPActionCopyTtlIn_cls, [])"
| "act_attrs (OFPActionPushVlan ethertype) = Some (OFPActionPushVlan_cls, [ethertype])"
| "act_attrs (OFPActionPushMpls ethertype) = Some (OFPActionPushMpls_cls, [ethertype])"
| "act_attrs OFPActionPopVlan = Some (OFPActionPopVlan_cls, [])"
| "act_attrs (OFPActionPopMpls ethertype) = Some (OFPActionPopMpls_cls, [ethertype])"
| "act_attrs (OFPActionPushPbb ethertype) = Some (OFPActionPushPbb_cls, [ethertype])"
| "act_attrs OFPActionPopPbb = Some (OFPActionPopPbb_cls, [])"
| "act_attrs a = None"

definition fixed_action_parser :: "act_cls \<Rightarrow> bytes \<Rightarrow> nat \<Rightarrow> (of_action \<times> nat) res" where
  "fixed_action_parser c buf offset =
     rbind (unpack_from (cls_pack_str c) buf offset) (\<lambda>vs.
       Inr (cls_make c (drop 2 vs), cls_action_len c))"

definition fixed_action_serialize :: "act_cls \<Rightarrow> int list \<Rightarrow> bytes \<Rightarrow> nat \<Rightarrow> (bytes \<times> nat) res" where
  "fixed_action_serialize c vs buf offset =
     rbind (msg_pack_into (cls_pack_str c) buf offset
              (cls_action_type c # int (cls_action_len c) # vs)) (\<lambda>buf'.
       Inr (buf', cls_action_len c))"

section \<open>SetField\<close>

definition OFPActionSetField_serialize ::
  "netaddr \<Rightarrow> string \<Rightarrow> user_val option \<Rightarrow> bytes \<Rightarrow> nat \<Rightarrow> (bytes \<times> nat) res" where
  "OFPActionSetField_serialize na key value buf offset =
     rbind (oxm_from_user na key (UV value)) (\<lambda>(n, v, m).
     rbind (oxm_serialize n v m buf (offset + 4)) (\<lambda>(buf1, len).
       let self_len = round_up (4 + len) 8 in
       rbind (msg_pack_into [fH, fH] buf1 offset [OFPAT_SET_FIELD, int self_len]) (\<lambda>buf2.
         let pad_len = self_len - (4 + len) in
         rbind (msg_pack_into [Pad pad_len] buf2 (offset + 4 + len) []) (\<lambda>buf3.
           Inr (buf3, self_len)))))"

definition OFPActionSetField_parser :: "netaddr \<Rightarrow> bytes \<Rightarrow> nat \<Rightarrow> (of_action \<times> nat) res" where
  "OFPActionSetField_parser na buf offset =
     rbind (unpack_from OFP_ACTION_SET_FIELD_PACK_STR buf offset) (\<lambda>hs.
     rbind (oxm_parse buf (offset + 4)) (\<lambda>(n, value, m, len).
     rbind (oxm_to_user na n (Some value) m) (\<lambda>(k, uv).
       case uv of
         UVM _ _ \<Rightarrow> Inl AssertionError
       | UV v \<Rightarrow>
           rbind (OFPMatchField_parser buf (offset + 4)) (\<lambda>_.
             Inr (OFPActionSetField k v, nat (hs ! 1))))))"

section \<open>Experimenter actions\<close>

definition OFPActionExperimenter_serialize :: "int \<Rightarrow> nat \<Rightarrow> bytes \<Rightarrow> nat \<Rightarrow> bytes res" where
  "OFPActionExperimenter_serialize experimenter len buf offset =
     msg_pack_into OFP_ACTION_EXPERIMENTER_HEADER_PACK_STR buf offset
       [OFPAT_EXPERIMENTER, int len, experimenter]"

text \<open>The length counts the payload rounded up; the payload is written as it is.\<close>

definition OFPActionExperimenterUnknown_serialize ::
  "int \<Rightarrow> bytes option \<Rightarrow> bytes \<Rightarrow> nat \<Rightarrow> (bytes \<times> nat) res" where
  "OFPActionExperimenterUnknown_serialize experimenter self_data buf offset =
     (let data = (case self_data of None \<Rightarrow> [] | Some d \<Rightarrow> d);
          len = round_up (length data) 8 + OFP_ACTION_EXPERIMENTER_HEADER_SIZE
      in rbind (OFPActionExperimenter_serialize experimenter len buf offset) (\<lambda>buf1.
         rbind (rget TypeError self_data) (\<lambda>d.
         rbind (msg_pack_into_s [] [d] buf1 (offset + OFP_ACTION_EXPERIMENTER_HEADER_SIZE) []) (\<lambda>buf2.
           Inr (buf2, len)))))"

section \<open>Nicira flow specifications\<close>

definition NXAST_REG_MOVE :: int where [simp]: "NXAST_REG_MOVE = 6"
definition NXAST_RESUBMIT_TABLE :: int where [simp]: "NXAST_RESUBMIT_TABLE = 14"
definition NXAST_LEARN :: int where [simp]: "NXAST_LEARN = 16"
definition NXAST_CONJUNCTION :: int where [simp]: "NXAST_CONJUNCTION = 34"
definition NXAST_CT :: int where [simp]: "NXAST_CT = 35"

definition nx_parse_subfield :: "bytes \<Rightarrow> (string \<times> int) res" where
  "nx_parse_subfield buf =
     rbind (oxm_parse_header buf 0) (\<lambda>(n, len).
     rbind (rassert (len = 4)) (\<lambda>_.
     rbind (oxm_to_user_header n) (\<lambda>field.
     rbind (unpack_from [fH] (drop len buf) 0) (\<lambda>os. Inr (field, os ! 0)))))"

definition nx_serialize_subfield :: "string \<times> int \<Rightarrow> bytes res" where
  "nx_serialize_subfield subfield =
     rbind (oxm_from_user_header (fst subfield)) (\<lambda>n.
     rbind (oxm_serialize_header n [] 0) (\<lambda>(buf, len).
     rbind (rassert (length buf = 4)) (\<lambda>_.
       msg_pack_into [fH] buf 4 [snd subfield])))"

fun spec_dst_type :: "nx_flow_spec \<Rightarrow> int" where
  "spec_dst_type (NXFlowSpecMatch src dst n) = 0"
| "spec_dst_type (NXFlowSpecLoad src dst n) = 1"
| "spec_dst_type (NXFlowSpecOutput src n) = 2"

fun spec_parts :: "nx_flow_spec \<Rightarrow> nx_src \<times> (string \<times> int) option \<times> int" where
  "spec_parts (NXFlowSpecMatch src dst n) = (src, Some dst, n)"
| "spec_parts (NXFlowSpecLoad src dst n) = (src, Some dst, n)"
| "spec_parts (NXFlowSpecOutput src n) = (src, None, n)"

fun src_type_of :: "nx_src \<Rightarrow> int" where
  "src_type_of (NXSubfield f ofs) = 0"
| "src_type_of (NXImmediate i) = 1"

definition imm_len :: "int \<Rightarrow> nat" where
  "imm_len n_bits = nat ((n_bits + 15) div 16 * 2)"

definition nx_spec_serialize :: "nx_flow_spec \<Rightarrow> bytes res" where
  "nx_spec_serialize spec =
     (let (src, dst, n_bits) = spec_parts spec;
          val = push_bit 13 (src_type_of src) OR push_bit 11 (spec_dst_type spec) OR n_bits
      in rbind (msg_pack_into [fH] [] 0 [val]) (\<lambda>buf.
         rbind (case src of
                  NXSubfield f ofs \<Rightarrow> nx_serialize_subfield (f, ofs)
                | NXImmediate i \<Rightarrow> Inr (int_from_user (imm_len n_bits) i [])) (\<lambda>s.
         rbind (case dst of None \<Rightarrow> Inr [] | Some d \<Rightarrow> nx_serialize_subfield d) (\<lambda>d.
           Inr (buf @ s @ d)))))"

text \<open>Parsing one specification; an all-zero header is padding.\<close>

definition nx_spec_parse :: "bytes \<Rightarrow> (nx_flow_spec option \<times> bytes) res" where
  "nx_spec_parse buf =
     rbind (unpack_from [fH] buf 0) (\<lambda>hs.
       let hdr = hs ! 0; rest = drop 2 buf in
       if hdr = 0 then Inr (None, rest)
       else
         let src_type = drop_bit 13 hdr AND 1; dst_type = drop_bit 11 hdr AND 3;
             n_bits = hdr AND 0x3ff
         in if dst_type = 3 then Inl KeyError
            else
              rbind (if src_type = 0
                     then rbind (nx_parse_subfield rest) (\<lambda>(f, ofs).
                            Inr (NXSubfield f ofs, drop 6 rest))
                     else rbind (int_to_user (imm_len n_bits) 0 (take (imm_len n_bits) rest)) (\<lambda>i.
                            Inr (NXImmediate i, drop (imm_len n_bits) rest))) (\<lambda>(src, rest1).
                if dst_type = 2 then Inr (Some (NXFlowSpecOutput src n_bits), rest1)
                else rbind (nx_parse_subfield rest1) (\<lambda>dst.
                       Inr (Some (if dst_type = 0 then NXFlowSpecMatch src dst n_bits
                                  else NXFlowSpecLoad src dst n_bits), drop 6 rest1))))"

lemma nx_spec_parse_shorter: "nx_spec_parse buf = Inr (s, rest) \<Longrightarrow> length rest < length buf"
proof -
  assume a: "nx_spec_parse buf = Inr (s, rest)"
  then have "2 \<le> length buf" by (auto simp: nx_spec_parse_def rbind_eq_Inr unpack_from_def split: if_splits)
  moreover have "length rest \<le> length buf - 2"
    using a by (auto simp: nx_spec_parse_def rbind_eq_Inr Let_def split: if_splits)
  ultimately show ?thesis by simp
qed

function nx_specs_parse :: "bytes \<Rightarrow> nx_flow_spec list res" where
  "nx_specs_parse rest =
     (if rest = [] then Inr []
      else rbind (nx_spec_parse rest) (\<lambda>(spec, rest').
           rbind (nx_specs_parse rest') (\<lambda>specs.
             Inr (case spec of None \<Rightarrow> specs | Some s \<Rightarrow> s # specs))))"
  by pat_completeness auto

termination
  by (relation "measure length") (auto dest: nx_spec_parse_shorter)

declare nx_specs_parse.simps [simp del]

section \<open>Nicira actions\<close>

abbreviation NX_REG_MOVE_FMT :: fmt where "NX_REG_MOVE_FMT \<equiv> [fH, fH, fH]"
abbreviation NX_LEARN_FMT :: fmt where "NX_LEARN_FMT \<equiv> [fH, fH, fH, fQ, fH, fB, Pad 1, fH, fH]"
abbreviation NX_CONJUNCTION_FMT :: fmt where "NX_CONJUNCTION_FMT \<equiv> [fB, fB, fI]"
abbreviation NX_RESUBMIT_TABLE_FMT :: fmt where "NX_RESUBMIT_TABLE_FMT \<equiv> [fH, fB, Pad 3]"
abbreviation NX_CT_FMT :: fmt where "NX_CT_FMT \<equiv> [fH, fI, fH, fB, Pad 3, fH]"

text \<open>
  The common end of the Nicira serialisers: the experimenter header with the rounded length,
  the subtype, and the payload behind them.
\<close>

definition NXAction_serialize :: "int \<Rightarrow> bytes \<Rightarrow> bytes \<Rightarrow> nat \<Rightarrow> (bytes \<times> nat) res" where
  "NXAction_serialize subtype data buf offset =
     (let payload_offset = OFP_ACTION_EXPERIMENTER_HEADER_SIZE + 2;
          len = round_up (payload_offset + length data) 8
      in rbind (OFPActionExperimenter_serialize NX_EXPERIMENTER_ID len buf offset) (\<lambda>buf1.
         rbind (msg_pack_into [fH] buf1 (offset + OFP_ACTION_EXPERIMENTER_HEADER_SIZE) [subtype]) (\<lambda>buf2.
         rbind (msg_pack_into_s [] [data] buf2 (offset + payload_offset) []) (\<lambda>buf3.
           Inr (buf3, len)))))"

definition NXActionRegMove_data :: "string \<Rightarrow> string \<Rightarrow> int \<Rightarrow> int \<Rightarrow> int \<Rightarrow> bytes res" where
  "NXActionRegMove_data src_field dst_field n_bits src_ofs dst_ofs =
     rbind (msg_pack_into NX_REG_MOVE_FMT [] 0 [n_bits, src_ofs, dst_ofs]) (\<lambda>data.
     rbind (oxm_from_user_header src_field) (\<lambda>n.
     rbind (oxm_serialize_header n data (length data)) (\<lambda>(data1, _).
     rbind (oxm_from_user_header dst_field) (\<lambda>n2.
     rbind (oxm_serialize_header n2 data1 (length data1)) (\<lambda>(data2, _). Inr data2)))))"

definition NXActionRegMove_parse :: "bytes \<Rightarrow> of_action res" where
  "NXActionRegMove_parse buf =
     rbind (unpack_from NX_REG_MOVE_FMT buf 0) (\<lambda>vs.
       let rest = drop 6 buf in
       rbind (oxm_parse_header rest 0) (\<lambda>(n, len).
       rbind (oxm_to_user_header n) (\<lambda>src_field.
       rbind (oxm_parse_header (drop len rest) 0) (\<lambda>(n2, len2).
       rbind (oxm_to_user_header n2) (\<lambda>dst_field.
         Inr (NXActionRegMove src_field dst_field (vs ! 0) (vs ! 1) (vs ! 2)))))))"

definition NXActionLearn_data :: "nx_learn \<Rightarrow> nx_flow_spec list \<Rightarrow> bytes res" where
  "NXActionLearn_data l specs =
     rbind (msg_pack_into NX_LEARN_FMT [] 0
              [nxl_idle_timeout l, nxl_hard_timeout l, nxl_priority l, nxl_cookie l, nxl_flags l,
               nxl_table_id l, nxl_fin_idle_timeout l, nxl_fin_hard_timeout l]) (\<lambda>data.
     rbind (mapM nx_spec_serialize specs) (\<lambda>ss. Inr (data @ concat ss)))"

definition NXActionLearn_parse :: "bytes \<Rightarrow> of_action res" where
  "NXActionLearn_parse buf =
     rbind (unpack_from NX_LEARN_FMT buf 0) (\<lambda>vs.
     rbind (nx_specs_parse (drop 22 buf)) (\<lambda>specs.
       Inr (NXActionLearn
              \<lparr>nxl_idle_timeout = vs ! 0, nxl_hard_timeout = vs ! 1, nxl_priority = vs ! 2,
               nxl_cookie = vs ! 3, nxl_flags = vs ! 4, nxl_table_id = vs ! 5,
               nxl_fin_idle_timeout = vs ! 6, nxl_fin_hard_timeout = vs ! 7\<rparr> specs)))"

definition NXActionConjunction_parse :: "bytes \<Rightarrow> of_action res" where
  "NXActionConjunction_parse buf =
     rbind (unpack_from NX_CONJUNCTION_FMT buf 0) (\<lambda>vs.
       Inr (NXActionConjunction (vs ! 0) (vs ! 1) (vs ! 2)))"

definition NXActionResubmitTable_parse :: "bytes \<Rightarrow> of_action res" where
  "NXActionResubmitTable_parse buf =
     rbind (unpack_from NX_RESUBMIT_TABLE_FMT buf 0) (\<lambda>vs.
       Inr (NXActionResubmitTable (vs ! 0) (vs ! 1)))"

text \<open>
  \<open>NXAction.parse\<close> without the connection tracking action, whose payload holds actions again.
  An unknown subtype raises in the constructor of \<open>NXActionUnknown\<close>.
\<close>

definition NXAction_parse_flat :: "int \<Rightarrow> bytes \<Rightarrow> of_action res" where
  "NXAction_parse_flat subtype rest =
     (if subtype = NXAST_REG_MOVE then NXActionRegMove_parse rest
      else if subtype = NXAST_LEARN then NXActionLearn_parse rest
      else if subtype = NXAST_CONJUNCTION then NXActionConjunction_parse rest
      else if subtype = NXAST_RESUBMIT_TABLE then NXActionResubmitTable_parse rest
      else Inl AttributeError)"

section \<open>Parsing actions\<close>

definition simple_action_parser :: "netaddr \<Rightarrow> int \<Rightarrow> bytes \<Rightarrow> nat \<Rightarrow> (of_action \<times> nat) res" where
  "simple_action_parser na type buf offset =
     (if type = OFPAT_SET_FIELD then OFPActionSetField_parser na buf offset
      else case List.find (\<lambda>c. cls_action_type c = type) ACTION_TYPES of
             None \<Rightarrow> Inl AssertionError
           | Some c \<Rightarrow> fixed_action_parser c buf offset)"

function OFPAction_parser :: "netaddr \<Rightarrow> bytes \<Rightarrow> nat \<Rightarrow> (of_action \<times> nat) res"
  and NXActionCT_actions :: "netaddr \<Rightarrow> bytes \<Rightarrow> of_action list res"
where
  "OFPAction_parser na buf offset =
     rbind (unpack_from OFP_ACTION_HEADER_PACK_STR buf offset) (\<lambda>hs.
       if hs ! 0 = OFPAT_EXPERIMENTER
       then rbind (unpack_from OFP_ACTION_EXPERIMENTER_HEADER_PACK_STR buf offset) (\<lambda>es.
              if es ! 2 = NX_EXPERIMENTER_ID
              then rbind (unpack_from [fH] (slice (offset + 8) (offset + nat (es ! 1)) buf) 0) (\<lambda>ss.
                     if ss ! 0 = NXAST_CT
                     then rbind (unpack_from NX_CT_FMT
                                   (drop 2 (slice (offset + 8) (offset + nat (es ! 1)) buf)) 0) (\<lambda>vs.
                          rbind (NXActionCT_actions na
                                   (drop 16 (slice (offset + 8) (offset + nat (es ! 1)) buf))) (\<lambda>actions.
                            Inr (NXActionCT
                                   \<lparr>nxc_flags = vs ! 0, nxc_zone_src = vs ! 1,
                                    nxc_zone_ofs_nbits = vs ! 2, nxc_recirc_table = vs ! 3,
                                    nxc_alg = vs ! 4\<rparr> actions, nat (es ! 1))))
                     else rbind (NXAction_parse_flat (ss ! 0)
                                   (drop 2 (slice (offset + 8) (offset + nat (es ! 1)) buf))) (\<lambda>a.
                            Inr (a, nat (es ! 1))))
              else Inr (OFPActionExperimenterUnknown (es ! 2)
                          (Some (slice (offset + 8) (offset + nat (es ! 1)) buf)), nat (es ! 1)))
       else simple_action_parser na (hs ! 0) buf offset)"
| "NXActionCT_actions na rest =
     (if rest = [] then Inr []
      else rbind (OFPAction_parser na rest 0) (\<lambda>(action, len).
             if len = 0 then Inl Diverges
             else rbind (NXActionCT_actions na (drop len rest)) (\<lambda>actions. Inr (action # actions))))"
  by pat_completeness auto

termination
proof (relation "measure (\<lambda>x. case x of Inl (na, buf, offset) \<Rightarrow> 2 * length buf
                                      | Inr (na, rest) \<Rightarrow> 2 * length rest + 1)", goal_cases)
  case (2 na buf offset hs es ss vs)
  then have "2 \<le> length (slice (offset + 8) (offset + nat (es ! 1)) buf)"
    by (auto simp: unpack_from_def split: if_splits)
  then show ?case by auto
qed auto

declare OFPAction_parser.simps [simp del] NXActionCT_actions.simps [simp del]

section \<open>Serialising actions\<close>

fun action_serialize :: "netaddr \<Rightarrow> of_action \<Rightarrow> bytes \<Rightarrow> nat \<Rightarrow> (bytes \<times> nat) res"
  and actions_append :: "netaddr \<Rightarrow> of_action list \<Rightarrow> bytes \<Rightarrow> bytes res"
where
  "action_serialize na (OFPActionSetField k v) buf offset =
     OFPActionSetField_serialize na k v buf offset"
| "action_serialize na (OFPActionExperimenterUnknown e d) buf offset =
     OFPActionExperimenterUnknown_serialize e d buf offset"
| "action_serialize na (NXActionRegMove src_field dst_field n_bits src_ofs dst_ofs) buf offset =
     rbind (NXActionRegMove_data src_field dst_field n_bits src_ofs dst_ofs) (\<lambda>data.
       NXAction_serialize NXAST_REG_MOVE data buf offset)"
| "action_serialize na (NXActionLearn l specs) buf offset =
     rbind (NXActionLearn_data l specs) (\<lambda>data. NXAction_serialize NXAST_LEARN data buf offset)"
| "action_serialize na (NXActionConjunction clause n_clauses i) buf offset =
     rbind (msg_pack_into NX_CONJUNCTION_FMT [] 0 [clause, n_clauses, i]) (\<lambda>data.
       NXAction_serialize NXAST_CONJUNCTION data buf offset)"
| "action_serialize na (NXActionResubmitTable in_port table_id) buf offset =
     rbind (msg_pack_into NX_RESUBMIT_TABLE_FMT [] 0 [in_port, table_id]) (\<lambda>data.
       NXAction_serialize NXAST_RESUBMIT_TABLE data buf offset)"
| "action_serialize na (NXActionCT c actions) buf offset =
     rbind (msg_pack_into NX_CT_FMT [] 0
              [nxc_flags c, nxc_zone_src c, nxc_zone_ofs_nbits c, nxc_recirc_table c, nxc_alg c]) (\<lambda>data.
     rbind (actions_append na actions data) (\<lambda>data1. NXAction_serialize NXAST_CT data1 buf offset))"
| "action_serialize na a buf offset =
     (case act_attrs a of
        Some (c, vs) \<Rightarrow> fixed_action_serialize c vs buf offset
      | None \<Rightarrow> Inl AttributeError)"
| "actions_append na [] data = Inr data"
| "actions_append na (a # as) data =
     rbind (action_serialize na a data (length data)) (\<lambda>(data1, len). actions_append na as data1)"

end
