(* ===== verification/OF13_Instr.thy ===== *)
theory OF13_Instr
  imports OF13_Action Beba_Proto
begin

text \<open>
  The instructions and buckets of \<open>ryu/ofproto/ofproto_v1_3_parser.py\<close>, and the packet
  generation instruction of \<open>ryu/ofproto/beba_v1_0_parser.py\<close>, which is a subclass of
  \<open>OFPInstruction\<close> but is not registered with its parser.
\<close>

datatype of_instr =
    OFPInstructionGotoTable int
  | OFPInstructionWriteMetadata int int
  | OFPInstructionActions int "of_action list"
  | OFPInstructionMeter int
  | OFPInstructionInSwitchPktGen int "of_action list"

section \<open>Serialising instructions\<close>

text \<open>
  The serialiser of an instruction that holds actions: the actions behind the room for the
  header, padding to eight bytes, and the header in place. \<open>vals\<close> gives the header from the
  final length.
\<close>

definition actions_instr_serialize ::
  "netaddr \<Rightarrow> nat \<Rightarrow> fmt \<Rightarrow> (int \<Rightarrow> int list) \<Rightarrow> of_action list \<Rightarrow> bytes \<Rightarrow> nat \<Rightarrow> (bytes \<times> nat) res" where
  "actions_instr_serialize na hsize f vals actions buf offset =
     rbind (ser_list (action_serialize na) actions buf (offset + hsize)) (\<lambda>(buf1, action_offset).
       let len0 = action_offset - offset; pad_len = round_up len0 8 - len0 in
       rbind (msg_pack_into [Pad pad_len] buf1 action_offset []) (\<lambda>buf2.
         let len = len0 + pad_len in
         rbind (msg_pack_into f buf2 offset (vals (int len))) (\<lambda>buf3. Inr (buf3, len))))"

definition OFPInstructionGotoTable_serialize :: "int \<Rightarrow> bytes \<Rightarrow> nat \<Rightarrow> (bytes \<times> nat) res" where
  "OFPInstructionGotoTable_serialize table_id buf offset =
     rbind (msg_pack_into OFP_INSTRUCTION_GOTO_TABLE_PACK_STR buf offset
              [OFPIT_GOTO_TABLE, int OFP_INSTRUCTION_GOTO_TABLE_SIZE, table_id]) (\<lambda>buf'.
       Inr (buf', OFP_INSTRUCTION_GOTO_TABLE_SIZE))"

definition OFPInstructionWriteMetadata_serialize :: "int \<Rightarrow> int \<Rightarrow> bytes \<Rightarrow> nat \<Rightarrow> (bytes \<times> nat) res" where
  "OFPInstructionWriteMetadata_serialize metadata metadata_mask buf offset =
     rbind (msg_pack_into OFP_INSTRUCTION_WRITE_METADATA_PACK_STR buf offset
              [OFPIT_WRITE_METADATA, int OFP_INSTRUCTION_WRITE_METADATA_SIZE, metadata, metadata_mask])
       (\<lambda>buf'. Inr (buf', OFP_INSTRUCTION_WRITE_METADATA_SIZE))"

definition OFPInstructionMeter_serialize :: "int \<Rightarrow> bytes \<Rightarrow> nat \<Rightarrow> (bytes \<times> nat) res" where
  "OFPInstructionMeter_serialize meter_id buf offset =
     rbind (msg_pack_into OFP_INSTRUCTION_METER_PACK_STR buf offset
              [OFPIT_METER, int OFP_INSTRUCTION_METER_SIZE, meter_id]) (\<lambda>buf'.
       Inr (buf', OFP_INSTRUCTION_METER_SIZE))"

definition OFPInstructionActions_serialize ::
  "netaddr \<Rightarrow> int \<Rightarrow> of_action list \<Rightarrow> bytes \<Rightarrow> nat \<Rightarrow> (bytes \<times> nat) res" where
  "OFPInstructionActions_serialize na type actions buf offset =
     actions_instr_serialize na OFP_INSTRUCTION_ACTIONS_SIZE OFP_INSTRUCTION_ACTIONS_PACK_STR
       (\<lambda>len. [type, len]) actions buf offset"

definition InSwitchPktGen_serialize ::
  "netaddr \<Rightarrow> int \<Rightarrow> of_action list \<Rightarrow> bytes \<Rightarrow> nat \<Rightarrow> (bytes \<times> nat) res" where
  "InSwitchPktGen_serialize na pkttmp_id actions buf offset =
     actions_instr_serialize na OFP_INSTRUCTION_INSWITCH_PKT_GEN_SIZE
       OFP_INSTRUCTION_INSWITCH_PKT_GEN_PACK_STR
       (\<lambda>len. [OFPIT_EXPERIMENTER, len, BEBA_EXPERIMENTER_ID, OFPIT_IN_SWITCH_PKT_GEN, pkttmp_id])
       actions buf offset"

fun instr_serialize :: "netaddr \<Rightarrow> of_instr \<Rightarrow> bytes \<Rightarrow> nat \<Rightarrow> (bytes \<times> nat) res" where
  "instr_serialize na (OFPInstructionGotoTable t) buf offset =
     OFPInstructionGotoTable_serialize t buf offset"
| "instr_serialize na (OFPInstructionWriteMetadata m k) buf offset =
     OFPInstructionWriteMetadata_serialize m k buf offset"
| "instr_serialize na (OFPInstructionActions t as) buf offset =
     OFPInstructionActions_serialize na t as buf offset"
| "instr_serialize na (OFPInstructionMeter m) buf offset = OFPInstructionMeter_serialize m buf offset"
| "instr_serialize na (OFPInstructionInSwitchPktGen p as) buf offset =
     InSwitchPktGen_serialize na p as buf offset"

section \<open>Parsing instructions\<close>

definition OFPInstructionGotoTable_parser :: "bytes \<Rightarrow> nat \<Rightarrow> (of_instr \<times> nat) res" where
  "OFPInstructionGotoTable_parser buf offset =
     rbind (unpack_from OFP_INSTRUCTION_GOTO_TABLE_PACK_STR buf offset) (\<lambda>vs.
       Inr (OFPInstructionGotoTable (vs ! 2), OFP_INSTRUCTION_GOTO_TABLE_SIZE))"

definition OFPInstructionWriteMetadata_parser :: "bytes \<Rightarrow> nat \<Rightarrow> (of_instr \<times> nat) res" where
  "OFPInstructionWriteMetadata_parser buf offset =
     rbind (unpack_from OFP_INSTRUCTION_WRITE_METADATA_PACK_STR buf offset) (\<lambda>vs.
       Inr (OFPInstructionWriteMetadata (vs ! 2) (vs ! 3), OFP_INSTRUCTION_WRITE_METADATA_SIZE))"

definition OFPInstructionActions_parser :: "netaddr \<Rightarrow> bytes \<Rightarrow> nat \<Rightarrow> (of_instr \<times> nat) res" where
  "OFPInstructionActions_parser na buf offset =
     rbind (unpack_from OFP_INSTRUCTION_ACTIONS_PACK_STR buf offset) (\<lambda>vs.
     rbind (par_loop (OFPAction_parser na) buf (offset + OFP_INSTRUCTION_ACTIONS_SIZE)
              (nat (vs ! 1 - int OFP_INSTRUCTION_ACTIONS_SIZE))) (\<lambda>actions.
       Inr (OFPInstructionActions (vs ! 0) actions, nat (vs ! 1))))"

definition OFPInstructionMeter_parser :: "bytes \<Rightarrow> nat \<Rightarrow> (of_instr \<times> nat) res" where
  "OFPInstructionMeter_parser buf offset =
     rbind (unpack_from OFP_INSTRUCTION_METER_PACK_STR buf offset) (\<lambda>vs.
       Inr (OFPInstructionMeter (vs ! 2), OFP_INSTRUCTION_METER_SIZE))"

text \<open>An unknown type gives \<open>None.parser\<close>.\<close>

definition OFPInstruction_parser :: "netaddr \<Rightarrow> bytes \<Rightarrow> nat \<Rightarrow> (of_instr \<times> nat) res" where
  "OFPInstruction_parser na buf offset =
     rbind (unpack_from [fH, fH] buf offset) (\<lambda>hs.
       let type = hs ! 0 in
       if type = OFPIT_GOTO_TABLE then OFPInstructionGotoTable_parser buf offset
       else if type = OFPIT_WRITE_METADATA then OFPInstructionWriteMetadata_parser buf offset
       else if type = OFPIT_WRITE_ACTIONS \<or> type = OFPIT_APPLY_ACTIONS \<or> type = OFPIT_CLEAR_ACTIONS
         then OFPInstructionActions_parser na buf offset
       else if type = OFPIT_METER then OFPInstructionMeter_parser buf offset
       else Inl AttributeError)"

text \<open>
  The parser of the packet generation instruction assigns the values of its format to four
  names; Python raises \<open>ValueError\<close> unless there are exactly four. What follows the assignment
  builds the instruction from the type found on the wire.
\<close>

definition InSwitchPktGen_parser :: "netaddr \<Rightarrow> bytes \<Rightarrow> nat \<Rightarrow> (of_instr \<times> nat) res" where
  "InSwitchPktGen_parser na buf offset =
     rbind (unpack_from OFP_INSTRUCTION_INSWITCH_PKT_GEN_PACK_STR buf offset) (\<lambda>vs.
       if length vs \<noteq> 4 then Inl ValueError
       else rbind (par_loop (OFPAction_parser na) buf (offset + OFP_INSTRUCTION_INSWITCH_PKT_GEN_SIZE)
                     (nat (vs ! 1 - int OFP_INSTRUCTION_INSWITCH_PKT_GEN_SIZE))) (\<lambda>actions.
              Inr (OFPInstructionInSwitchPktGen (vs ! 0) actions, nat (vs ! 1))))"

section \<open>Buckets\<close>

record of_bucket =
  b_weight :: int
  b_watch_port :: int
  b_watch_group :: int
  b_actions :: "of_action list"

definition OFPBucket_serialize :: "netaddr \<Rightarrow> of_bucket \<Rightarrow> bytes \<Rightarrow> nat \<Rightarrow> (bytes \<times> nat) res" where
  "OFPBucket_serialize na b buf offset =
     rbind (ser_list (action_serialize na) (b_actions b) buf (offset + OFP_BUCKET_SIZE)) (\<lambda>(buf1, action_offset).
       let action_len = action_offset - (offset + OFP_BUCKET_SIZE);
           len = round_up (OFP_BUCKET_SIZE + action_len) 8
       in rbind (msg_pack_into OFP_BUCKET_PACK_STR buf1 offset
                   [int len, b_weight b, b_watch_port b, b_watch_group b]) (\<lambda>buf2.
            Inr (buf2, len)))"

definition OFPBucket_parser :: "netaddr \<Rightarrow> bytes \<Rightarrow> nat \<Rightarrow> (of_bucket \<times> nat) res" where
  "OFPBucket_parser na buf offset =
     rbind (unpack_from OFP_BUCKET_PACK_STR buf offset) (\<lambda>vs.
     rbind (par_loop (OFPAction_parser na) buf (offset + OFP_BUCKET_SIZE)
              (nat (vs ! 0) - OFP_BUCKET_SIZE)) (\<lambda>actions.
       Inr (\<lparr>b_weight = vs ! 1, b_watch_port = vs ! 2, b_watch_group = vs ! 3, b_actions = actions\<rparr>,
            nat (vs ! 0))))"

end
