(* ===== verification/OF13_Msg.thy ===== *)
theory OF13_Msg
  imports OF13_Instr
begin

text \<open>
  Messages: the common header and the three steps of \<open>MsgBase.serialize\<close> from
  \<open>ryu/ofproto/ofproto_parser.py\<close>, and the message classes of
  \<open>ryu/ofproto/ofproto_v1_3_parser.py\<close> the controller core and the BEBA extension use. A body
  serialiser maps the buffer \<open>self.buf\<close> to the new buffer; a parser returns the attributes it
  sets. Registries filled at import time are arguments.
\<close>

section \<open>Header and base class\<close>

definition ofp_header :: "bytes \<Rightarrow> int list res" where
  "ofp_header buf =
     rbind (rassert (OFP_HEADER_SIZE \<le> length buf)) (\<lambda>_. unpack_from OFP_HEADER_PACK_STR buf 0)"

definition serialize_pre :: bytes where
  "serialize_pre = zeros OFP_HEADER_SIZE"

definition serialize_header :: "int \<Rightarrow> int option \<Rightarrow> bytes \<Rightarrow> bytes res" where
  "serialize_header msg_type xid buf =
     rbind (rassert (OFP_HEADER_SIZE \<le> length buf)) (\<lambda>_.
     rbind (struct_pack OFP_HEADER_PACK_STR
              [OFP_VERSION, msg_type, int (length buf), case xid of None \<Rightarrow> 0 | Some x \<Rightarrow> x]) (\<lambda>h.
       Inr (overwrite 0 h buf)))"

definition msg_serialize :: "int \<Rightarrow> int option \<Rightarrow> (bytes \<Rightarrow> bytes res) \<Rightarrow> bytes res" where
  "msg_serialize msg_type xid body =
     rbind (body serialize_pre) (\<lambda>buf. serialize_header msg_type xid buf)"

text \<open>\<open>MsgBase.parser\<close>: the type in the header must be the type of the class.\<close>

definition MsgBase_parser :: "int \<Rightarrow> int \<Rightarrow> unit res" where
  "MsgBase_parser cls_msg_type msg_type = rassert (msg_type = cls_msg_type)"

text \<open>
  \<open>ofproto_parser.msg\<close>: any exception of the version's parser is logged and \<open>None\<close> returned.
  A parser that does not return is not caught.
\<close>

type_synonym 'm msg_parser_fn = "int \<Rightarrow> int \<Rightarrow> int \<Rightarrow> int \<Rightarrow> bytes \<Rightarrow> 'm res"

definition ofproto_msg ::
  "(int \<Rightarrow> 'm msg_parser_fn option) \<Rightarrow> int \<Rightarrow> int \<Rightarrow> int \<Rightarrow> int \<Rightarrow> bytes \<Rightarrow> 'm option res" where
  "ofproto_msg MSG_PARSERS version msg_type msg_len xid buf =
     rbind (rassert (msg_len \<le> int (length buf))) (\<lambda>_.
       case MSG_PARSERS version of
         None \<Rightarrow> Inl OFPUnknownVersion
       | Some msg_parser \<Rightarrow>
           (case msg_parser version msg_type msg_len xid buf of
              Inr m \<Rightarrow> Inr (Some m)
            | Inl Diverges \<Rightarrow> Inl Diverges
            | Inl _ \<Rightarrow> Inr None))"

definition msg_parser :: "(int \<Rightarrow> 'm msg_parser_fn option) \<Rightarrow> 'm msg_parser_fn" where
  "msg_parser MSG_PARSERS version msg_type msg_len xid buf =
     (case MSG_PARSERS msg_type of
        None \<Rightarrow> Inl TypeError
      | Some parser \<Rightarrow> parser version msg_type msg_len xid buf)"

section \<open>Hello\<close>

record hello_elem =
  he_versions :: "nat list"
  he_length :: nat
  he_bitmaps :: "int list"

fun read_bitmaps :: "bytes \<Rightarrow> nat \<Rightarrow> nat \<Rightarrow> int list res" where
  "read_bitmaps buf offset 0 = Inr []"
| "read_bitmaps buf offset (Suc n) =
     rbind (unpack_from [fI] buf offset) (\<lambda>b.
     rbind (read_bitmaps buf (offset + 4) n) (\<lambda>bs. Inr (b ! 0 # bs)))"

definition bitmap_versions :: "int list \<Rightarrow> nat list" where
  "bitmap_versions bitmaps =
     concat (map (\<lambda>(i, bitmap). map (\<lambda>shift. i * 32 + shift)
                    (filter (\<lambda>shift. bitmap AND push_bit shift 1 \<noteq> 0) [0..<31]))
               (enumerate 0 bitmaps))"

definition OFPHelloElemVersionBitmap_parser :: "bytes \<Rightarrow> nat \<Rightarrow> hello_elem res" where
  "OFPHelloElemVersionBitmap_parser buf offset =
     rbind (unpack_from OFP_HELLO_ELEM_VERSIONBITMAP_HEADER_PACK_STR buf offset) (\<lambda>hs.
     rbind (rassert (hs ! 0 = OFPHET_VERSIONBITMAP)) (\<lambda>_.
       let len = nat (hs ! 1); bitmaps_len = len - OFP_HELLO_ELEM_VERSIONBITMAP_HEADER_SIZE in
       rbind (read_bitmaps buf (offset + OFP_HELLO_ELEM_VERSIONBITMAP_HEADER_SIZE) (bitmaps_len div 4))
         (\<lambda>bitmaps. Inr \<lparr>he_versions = bitmap_versions bitmaps, he_length = len, he_bitmaps = bitmaps\<rparr>)))"

text \<open>An element of length zero keeps the offset, so the loop does not end.\<close>

function hello_elems :: "bytes \<Rightarrow> nat \<Rightarrow> nat \<Rightarrow> hello_elem list res" where
  "hello_elems buf msg_len offset =
     (if msg_len \<le> offset then Inr []
      else rbind (unpack_from OFP_HELLO_ELEM_HEADER_PACK_STR buf offset) (\<lambda>hs.
           rbind (if hs ! 0 = OFPHET_VERSIONBITMAP
                  then rbind (OFPHelloElemVersionBitmap_parser buf offset) (\<lambda>e. Inr [e])
                  else Inr []) (\<lambda>es.
             if nat (hs ! 1) = 0 then Inl Diverges
             else rbind (hello_elems buf msg_len (offset + nat (hs ! 1))) (\<lambda>rest. Inr (es @ rest)))))"
  by pat_completeness auto

termination
  by (relation "measure (\<lambda>(buf, msg_len, offset). msg_len - offset)") auto

declare hello_elems.simps [simp del]

definition OFPHello_parser :: "int \<Rightarrow> int \<Rightarrow> bytes \<Rightarrow> hello_elem list res" where
  "OFPHello_parser msg_type msg_len buf =
     rbind (MsgBase_parser OFPT_HELLO msg_type) (\<lambda>_. hello_elems buf (nat msg_len) OFP_HELLO_HEADER_SIZE)"

section \<open>Error\<close>

datatype error_msg =
    OFPErrorMsg int int bytes
  | OFPErrorExperimenterMsg int int int bytes

definition OFPErrorExperimenterMsg_parser :: "bytes \<Rightarrow> error_msg res" where
  "OFPErrorExperimenterMsg_parser buf =
     rbind (unpack_from OFP_ERROR_EXPERIMENTER_MSG_PACK_STR buf OFP_HEADER_SIZE) (\<lambda>vs.
       Inr (OFPErrorExperimenterMsg (vs ! 0) (vs ! 1) (vs ! 2)
              (drop OFP_ERROR_EXPERIMENTER_MSG_SIZE buf)))"

definition OFPErrorMsg_parser :: "int \<Rightarrow> bytes \<Rightarrow> error_msg res" where
  "OFPErrorMsg_parser msg_type buf =
     rbind (unpack_from [fH] buf OFP_HEADER_SIZE) (\<lambda>ts.
       if ts ! 0 = OFPET_EXPERIMENTER then OFPErrorExperimenterMsg_parser buf
       else rbind (MsgBase_parser OFPT_ERROR msg_type) (\<lambda>_.
            rbind (unpack_from OFP_ERROR_MSG_PACK_STR buf OFP_HEADER_SIZE) (\<lambda>vs.
              Inr (OFPErrorMsg (vs ! 0) (vs ! 1) (drop OFP_ERROR_MSG_SIZE buf)))))"

definition OFPErrorMsg_body :: "int \<Rightarrow> int \<Rightarrow> bytes option \<Rightarrow> bytes \<Rightarrow> bytes res" where
  "OFPErrorMsg_body type code data buf =
     rbind (rget AssertionError data) (\<lambda>d.
     rbind (msg_pack_into OFP_ERROR_MSG_PACK_STR buf OFP_HEADER_SIZE [type, code]) (\<lambda>buf1.
       Inr (buf1 @ d)))"

definition OFPErrorExperimenterMsg_body :: "int \<Rightarrow> int \<Rightarrow> bytes option \<Rightarrow> bytes \<Rightarrow> bytes res" where
  "OFPErrorExperimenterMsg_body etype experimenter data buf =
     rbind (rget AssertionError data) (\<lambda>d.
     rbind (msg_pack_into OFP_ERROR_EXPERIMENTER_MSG_PACK_STR buf OFP_HEADER_SIZE
              [OFPET_EXPERIMENTER, etype, experimenter]) (\<lambda>buf1.
       Inr (buf1 @ d)))"

section \<open>Echo\<close>

definition OFPEchoRequest_parser :: "int \<Rightarrow> bytes \<Rightarrow> bytes res" where
  "OFPEchoRequest_parser msg_type buf =
     rbind (MsgBase_parser OFPT_ECHO_REQUEST msg_type) (\<lambda>_. Inr (drop OFP_HEADER_SIZE buf))"

definition OFPEchoRequest_body :: "bytes option \<Rightarrow> bytes \<Rightarrow> bytes res" where
  "OFPEchoRequest_body data buf = Inr (case data of None \<Rightarrow> buf | Some d \<Rightarrow> buf @ d)"

definition OFPEchoReply_parser :: "int \<Rightarrow> bytes \<Rightarrow> bytes res" where
  "OFPEchoReply_parser msg_type buf =
     rbind (MsgBase_parser OFPT_ECHO_REPLY msg_type) (\<lambda>_. Inr (drop OFP_HEADER_SIZE buf))"

definition OFPEchoReply_body :: "bytes option \<Rightarrow> bytes \<Rightarrow> bytes res" where
  "OFPEchoReply_body data buf = rbind (rget AssertionError data) (\<lambda>d. Inr (buf @ d))"

section \<open>Experimenter\<close>

record experimenter_msg =
  em_experimenter :: int
  em_exp_type :: int
  em_data :: bytes

definition OFPExperimenter_parser :: "int \<Rightarrow> bytes \<Rightarrow> experimenter_msg res" where
  "OFPExperimenter_parser msg_type buf =
     rbind (MsgBase_parser OFPT_EXPERIMENTER msg_type) (\<lambda>_.
     rbind (unpack_from OFP_EXPERIMENTER_HEADER_PACK_STR buf OFP_HEADER_SIZE) (\<lambda>vs.
       Inr \<lparr>em_experimenter = vs ! 0, em_exp_type = vs ! 1,
            em_data = drop OFP_EXPERIMENTER_HEADER_SIZE buf\<rparr>))"

definition OFPExperimenter_body :: "int \<Rightarrow> int \<Rightarrow> bytes option \<Rightarrow> bytes \<Rightarrow> bytes res" where
  "OFPExperimenter_body experimenter etype data buf =
     rbind (rget AssertionError data) (\<lambda>d.
     rbind (msg_pack_into OFP_EXPERIMENTER_HEADER_PACK_STR buf OFP_HEADER_SIZE
              [experimenter, etype]) (\<lambda>buf1.
       Inr (buf1 @ d)))"

section \<open>Features and configuration\<close>

record switch_features =
  sf_datapath_id :: int
  sf_n_buffers :: int
  sf_n_tables :: int
  sf_auxiliary_id :: int
  sf_capabilities :: int

definition OFPFeaturesRequest_body :: "bytes \<Rightarrow> bytes res" where
  "OFPFeaturesRequest_body buf = Inr buf"

definition OFPSwitchFeatures_parser :: "int \<Rightarrow> bytes \<Rightarrow> switch_features res" where
  "OFPSwitchFeatures_parser msg_type buf =
     rbind (MsgBase_parser OFPT_FEATURES_REPLY msg_type) (\<lambda>_.
     rbind (unpack_from OFP_SWITCH_FEATURES_PACK_STR buf OFP_HEADER_SIZE) (\<lambda>vs.
       Inr \<lparr>sf_datapath_id = vs ! 0, sf_n_buffers = vs ! 1, sf_n_tables = vs ! 2,
            sf_auxiliary_id = vs ! 3, sf_capabilities = vs ! 4\<rparr>))"

definition OFPGetConfigRequest_body :: "bytes \<Rightarrow> bytes res" where
  "OFPGetConfigRequest_body buf = Inr buf"

definition OFPGetConfigReply_parser :: "int \<Rightarrow> bytes \<Rightarrow> (int \<times> int) res" where
  "OFPGetConfigReply_parser msg_type buf =
     rbind (MsgBase_parser OFPT_GET_CONFIG_REPLY msg_type) (\<lambda>_.
     rbind (unpack_from OFP_SWITCH_CONFIG_PACK_STR buf OFP_HEADER_SIZE) (\<lambda>vs.
       Inr (vs ! 0, vs ! 1)))"

definition OFPSetConfig_body :: "int option \<Rightarrow> int option \<Rightarrow> bytes \<Rightarrow> bytes res" where
  "OFPSetConfig_body flags miss_send_len buf =
     rbind (rget AssertionError flags) (\<lambda>f.
     rbind (rget AssertionError miss_send_len) (\<lambda>m.
       msg_pack_into OFP_SWITCH_CONFIG_PACK_STR buf OFP_HEADER_SIZE [f, m]))"

section \<open>Packets, flows and ports\<close>

record packet_in =
  pi_buffer_id :: int
  pi_total_len :: int
  pi_reason :: int
  pi_table_id :: int
  pi_cookie :: int
  pi_match :: of_match
  pi_data :: bytes

definition OFPPacketIn_parser :: "netaddr \<Rightarrow> int \<Rightarrow> bytes \<Rightarrow> packet_in res" where
  "OFPPacketIn_parser na msg_type buf =
     rbind (MsgBase_parser OFPT_PACKET_IN msg_type) (\<lambda>_.
     rbind (unpack_from OFP_PACKET_IN_PACK_STR buf OFP_HEADER_SIZE) (\<lambda>vs.
     rbind (match_parser na buf (OFP_PACKET_IN_SIZE - OFP_MATCH_SIZE)) (\<lambda>m.
     rbind (rget TypeError (m_length m)) (\<lambda>len.
       let match_len = round_up (nat len) 8;
           data = drop (OFP_PACKET_IN_SIZE - OFP_MATCH_SIZE + match_len + 2) buf;
           total_len = vs ! 1
       in Inr \<lparr>pi_buffer_id = vs ! 0, pi_total_len = total_len, pi_reason = vs ! 2,
               pi_table_id = vs ! 3, pi_cookie = vs ! 4, pi_match = m,
               pi_data = (if total_len < int (length data) then take (nat total_len) data else data)\<rparr>))))"

record flow_removed =
  fr_cookie :: int
  fr_priority :: int
  fr_reason :: int
  fr_table_id :: int
  fr_duration_sec :: int
  fr_duration_nsec :: int
  fr_idle_timeout :: int
  fr_hard_timeout :: int
  fr_packet_count :: int
  fr_byte_count :: int
  fr_match :: of_match

definition OFPFlowRemoved_parser :: "netaddr \<Rightarrow> int \<Rightarrow> bytes \<Rightarrow> flow_removed res" where
  "OFPFlowRemoved_parser na msg_type buf =
     rbind (MsgBase_parser OFPT_FLOW_REMOVED msg_type) (\<lambda>_.
     rbind (unpack_from OFP_FLOW_REMOVED_PACK_STR0 buf OFP_HEADER_SIZE) (\<lambda>vs.
     rbind (match_parser na buf (OFP_FLOW_REMOVED_SIZE - OFP_MATCH_SIZE)) (\<lambda>m.
       Inr \<lparr>fr_cookie = vs ! 0, fr_priority = vs ! 1, fr_reason = vs ! 2, fr_table_id = vs ! 3,
            fr_duration_sec = vs ! 4, fr_duration_nsec = vs ! 5, fr_idle_timeout = vs ! 6,
            fr_hard_timeout = vs ! 7, fr_packet_count = vs ! 8, fr_byte_count = vs ! 9, fr_match = m\<rparr>)))"

record of_port =
  port_no :: int
  port_hw_addr :: string
  port_name :: bytes
  port_config :: int
  port_state :: int
  port_curr :: int
  port_advertised :: int
  port_supported :: int
  port_peer :: int
  port_curr_speed :: int
  port_max_speed :: int

definition rstrip0 :: "bytes \<Rightarrow> bytes" where
  "rstrip0 b = rev (dropWhile (\<lambda>x. x = 0) (rev b))"

definition OFPPort_parser :: "netaddr \<Rightarrow> bytes \<Rightarrow> nat \<Rightarrow> (of_port \<times> nat) res" where
  "OFPPort_parser na buf offset =
     rbind (unpack_from OFP_PORT_PACK_STR buf offset) (\<lambda>vs.
     rbind (addrconv_bin_to_text na MacK (be_bytes 6 (vs ! 1))) (\<lambda>hw_addr.
       Inr (\<lparr>port_no = vs ! 0, port_hw_addr = hw_addr, port_name = rstrip0 (be_bytes 16 (vs ! 2)),
             port_config = vs ! 3, port_state = vs ! 4, port_curr = vs ! 5, port_advertised = vs ! 6,
             port_supported = vs ! 7, port_peer = vs ! 8, port_curr_speed = vs ! 9,
             port_max_speed = vs ! 10\<rparr>, OFP_PORT_SIZE)))"

definition OFPPortStatus_parser :: "netaddr \<Rightarrow> int \<Rightarrow> bytes \<Rightarrow> (int \<times> of_port) res" where
  "OFPPortStatus_parser na msg_type buf =
     rbind (MsgBase_parser OFPT_PORT_STATUS msg_type) (\<lambda>_.
     rbind (unpack_from OFP_PORT_STATUS_PACK_STR buf OFP_HEADER_SIZE) (\<lambda>vs.
     rbind (OFPPort_parser na buf OFP_PORT_STATUS_DESC_OFFSET) (\<lambda>(desc, _).
       Inr (vs ! 0, desc))))"

text \<open>
  \<open>OFPPacketOut\<close> writes the actions, then appends the data, then writes its own fixed part in
  front; the room for that part exists only once an action has been written behind it.
\<close>

definition OFPPacketOut_body ::
  "netaddr \<Rightarrow> int \<Rightarrow> int \<Rightarrow> of_action list \<Rightarrow> bytes option \<Rightarrow> bytes \<Rightarrow> bytes res" where
  "OFPPacketOut_body na buffer_id in_port actions data buf =
     rbind (ser_list (action_serialize na) actions buf OFP_PACKET_OUT_SIZE) (\<lambda>(buf1, offset).
     rbind (case data of
              None \<Rightarrow> Inr buf1
            | Some d \<Rightarrow> rbind (rassert (buffer_id = 0xffffffff)) (\<lambda>_. Inr (buf1 @ d))) (\<lambda>buf2.
       msg_pack_into OFP_PACKET_OUT_PACK_STR buf2 OFP_HEADER_SIZE
         [buffer_id, in_port, int (offset - OFP_PACKET_OUT_SIZE)]))"

record flow_mod =
  fm_cookie :: int
  fm_cookie_mask :: int
  fm_table_id :: int
  fm_command :: int
  fm_idle_timeout :: int
  fm_hard_timeout :: int
  fm_priority :: int
  fm_buffer_id :: int
  fm_out_port :: int
  fm_out_group :: int
  fm_flags :: int
  fm_match :: of_match
  fm_instructions :: "of_instr list"

definition OFPFlowMod_body :: "netaddr \<Rightarrow> flow_mod \<Rightarrow> bytes \<Rightarrow> bytes res" where
  "OFPFlowMod_body na fm buf =
     rbind (msg_pack_into OFP_FLOW_MOD_PACK_STR0 buf OFP_HEADER_SIZE
              [fm_cookie fm, fm_cookie_mask fm, fm_table_id fm, fm_command fm, fm_idle_timeout fm,
               fm_hard_timeout fm, fm_priority fm, fm_buffer_id fm, fm_out_port fm, fm_out_group fm,
               fm_flags fm]) (\<lambda>buf1.
       let offset = OFP_FLOW_MOD_SIZE - OFP_MATCH_SIZE in
       rbind (match_serialize na (fm_match fm) buf1 offset) (\<lambda>(_, buf2, match_len).
       rbind (ser_list (instr_serialize na) (fm_instructions fm) buf2 (offset + match_len)) (\<lambda>(buf3, _).
         Inr buf3)))"

record group_mod =
  gm_command :: int
  gm_type :: int
  gm_group_id :: int
  gm_buckets :: "of_bucket list"

definition OFPGroupMod_body :: "netaddr \<Rightarrow> group_mod \<Rightarrow> bytes \<Rightarrow> bytes res" where
  "OFPGroupMod_body na gm buf =
     rbind (msg_pack_into OFP_GROUP_MOD_PACK_STR buf OFP_HEADER_SIZE
              [gm_command gm, gm_type gm, gm_group_id gm]) (\<lambda>buf1.
     rbind (ser_list (OFPBucket_serialize na) (gm_buckets gm) buf1 OFP_GROUP_MOD_SIZE) (\<lambda>(buf2, _).
       Inr buf2))"

definition OFPTableMod_body :: "int \<Rightarrow> int \<Rightarrow> bytes \<Rightarrow> bytes res" where
  "OFPTableMod_body table_id config buf =
     msg_pack_into OFP_TABLE_MOD_PACK_STR buf OFP_HEADER_SIZE [table_id, config]"

section \<open>Multipart\<close>

definition OFPMultipartRequest_body :: "int \<Rightarrow> int \<Rightarrow> (bytes \<Rightarrow> bytes res) \<Rightarrow> bytes \<Rightarrow> bytes res" where
  "OFPMultipartRequest_body type flags stats_body buf =
     rbind (msg_pack_into OFP_MULTIPART_REQUEST_PACK_STR buf OFP_HEADER_SIZE [type, flags]) stats_body"

text \<open>
  \<open>OFPMultipartReply.parser\<close>. The registry maps a type to the parser of one body entry and to
  whether the body is a single structure, which is then the first entry of the list.
\<close>

datatype 'b mp_body = MPSingle 'b | MPList "'b list"

record 'b multipart_reply =
  mp_type :: int
  mp_flags :: int
  mp_body :: "'b mp_body"

definition OFPMultipartReply_parser ::
  "(int \<Rightarrow> ((bytes \<Rightarrow> nat \<Rightarrow> ('b \<times> nat) res) \<times> bool) option) \<Rightarrow> int \<Rightarrow> int \<Rightarrow> bytes
     \<Rightarrow> 'b multipart_reply res" where
  "OFPMultipartReply_parser STATS_MSG_TYPES msg_type msg_len buf =
     rbind (unpack_from OFP_MULTIPART_REPLY_PACK_STR buf OFP_HEADER_SIZE) (\<lambda>vs.
     rbind (rget AttributeError (STATS_MSG_TYPES (vs ! 0))) (\<lambda>(body_parser, single).
     rbind (MsgBase_parser OFPT_MULTIPART_REPLY msg_type) (\<lambda>_.
     rbind (par_loop body_parser buf OFP_MULTIPART_REPLY_SIZE (nat msg_len - OFP_MULTIPART_REPLY_SIZE))
       (\<lambda>body.
       rbind (if single then rbind (if body = [] then Inl IndexError else Inr (hd body))
                               (\<lambda>b. Inr (MPSingle b))
              else Inr (MPList body)) (\<lambda>mb.
         Inr \<lparr>mp_type = vs ! 0, mp_flags = vs ! 1, mp_body = mb\<rparr>)))))"

text \<open>The entry of an experimenter reply takes the rest of the buffer but announces 16 bytes.\<close>

definition OFPExperimenterMultipart_parser :: "bytes \<Rightarrow> nat \<Rightarrow> (experimenter_msg \<times> nat) res" where
  "OFPExperimenterMultipart_parser buf offset =
     rbind (unpack_from OFP_EXPERIMENTER_MULTIPART_HEADER_PACK_STR buf offset) (\<lambda>vs.
       Inr (\<lparr>em_experimenter = vs ! 0, em_exp_type = vs ! 1,
             em_data = drop (offset + OFP_EXPERIMENTER_MULTIPART_HEADER_SIZE) buf\<rparr>,
            OFP_METER_FEATURES_SIZE))"

definition OFPExperimenterMultipart_serialize :: "int \<Rightarrow> int \<Rightarrow> bytes \<Rightarrow> bytes res" where
  "OFPExperimenterMultipart_serialize experimenter etype data =
     rbind (msg_pack_into OFP_EXPERIMENTER_MULTIPART_HEADER_PACK_STR [] 0 [experimenter, etype])
       (\<lambda>buf. Inr (buf @ data))"

definition OFPExperimenterStatsRequest_body :: "int \<Rightarrow> int \<Rightarrow> int \<Rightarrow> bytes \<Rightarrow> bytes \<Rightarrow> bytes res" where
  "OFPExperimenterStatsRequest_body flags experimenter etype data buf =
     OFPMultipartRequest_body OFPMP_EXPERIMENTER flags
       (\<lambda>b. rbind (OFPExperimenterMultipart_serialize experimenter etype data) (\<lambda>s. Inr (b @ s))) buf"

text \<open>
  The class decorator of \<open>OFPExperimenterStatsReply\<close> adds this entry to the registry; \<open>others\<close>
  are the entries of the remaining classes.
\<close>

definition register_experimenter_stats ::
  "(int \<Rightarrow> ((bytes \<Rightarrow> nat \<Rightarrow> ((experimenter_msg + 'b) \<times> nat) res) \<times> bool) option)
     \<Rightarrow> int \<Rightarrow> ((bytes \<Rightarrow> nat \<Rightarrow> ((experimenter_msg + 'b) \<times> nat) res) \<times> bool) option" where
  "register_experimenter_stats others =
     others(OFPMP_EXPERIMENTER \<mapsto>
       (\<lambda>buf offset. rbind (OFPExperimenterMultipart_parser buf offset) (\<lambda>(e, len). Inr (Inl e, len)), True))"

section \<open>Barrier and role\<close>

definition OFPBarrierRequest_body :: "bytes \<Rightarrow> bytes res" where
  "OFPBarrierRequest_body buf = Inr buf"

definition OFPRoleRequest_body :: "int option \<Rightarrow> int option \<Rightarrow> bytes \<Rightarrow> bytes res" where
  "OFPRoleRequest_body role generation_id buf =
     rbind (rget AssertionError role) (\<lambda>r.
     rbind (rget AssertionError generation_id) (\<lambda>g.
       msg_pack_into OFP_ROLE_REQUEST_PACK_STR buf OFP_HEADER_SIZE [r, g]))"

definition OFPRoleReply_parser :: "int \<Rightarrow> bytes \<Rightarrow> (int \<times> int) res" where
  "OFPRoleReply_parser msg_type buf =
     rbind (MsgBase_parser OFPT_ROLE_REPLY msg_type) (\<lambda>_.
     rbind (unpack_from OFP_ROLE_REQUEST_PACK_STR buf OFP_HEADER_SIZE) (\<lambda>vs.
       Inr (vs ! 0, vs ! 1)))"

end
