(* ===== verification/OF13_Action_Codec.thy ===== *)
theory OF13_Action_Codec
  imports OF13_Action OF13_Match_Codec
begin

text \<open>
  Correctness of the action codec: for every action that fits its wire format, including the
  nested connection tracking action, \<open>serialize\<close> appends bytes from which \<open>OFPAction.parser\<close>
  reads the same action and length. The contract is the interpretation \<open>act\<close> of \<open>wire_codec\<close>.
\<close>

section \<open>Vocabulary\<close>

definition oxm_hdr_bytes :: "oxm_desc \<Rightarrow> bytes" where
  "oxm_hdr_bytes d =
     (case oxm_serialize_header (oxm_numb d) [] 0 of Inr (b, l) \<Rightarrow> b | Inl e \<Rightarrow> [])"

definition set_field_bytes :: "netaddr \<Rightarrow> kv \<Rightarrow> bytes" where
  "set_field_bytes na x =
     (let body = kv_enc na x; len = round_up (4 + length body) 8
      in packed [fH, fH] [OFPAT_SET_FIELD, int len] @ body @ zeros (len - (4 + length body)))"

definition exp_bytes :: "int \<Rightarrow> bytes \<Rightarrow> bytes" where
  "exp_bytes e data =
     packed OFP_ACTION_EXPERIMENTER_HEADER_PACK_STR [OFPAT_EXPERIMENTER, int (8 + length data), e] @ data"

definition nx_bytes :: "int \<Rightarrow> bytes \<Rightarrow> bytes" where
  "nx_bytes subtype data = exp_bytes NX_EXPERIMENTER_ID (be_bytes 2 subtype @ data)"

definition nx_data_ok :: "bytes \<Rightarrow> bool" where
  "nx_data_ok data \<longleftrightarrow> 8 dvd (10 + length data) \<and> 10 + length data < 65536"

definition reg_move_ok :: "string \<Rightarrow> string \<Rightarrow> int \<Rightarrow> int \<Rightarrow> int \<Rightarrow> bool" where
  "reg_move_ok s d n so do \<longleftrightarrow>
     s \<in> oxm_name ` set oxm_types \<and> d \<in> oxm_name ` set oxm_types \<and> packable NX_REG_MOVE_FMT [n, so, do]"

definition subfield_ok :: "string \<times> int \<Rightarrow> bool" where
  "subfield_ok sf \<longleftrightarrow> (\<exists>d \<in> set oxm_types. fst sf = oxm_name d \<and> length (oxm_hdr_bytes d) = 4) \<and> fits 2 (snd sf)"

fun src_ok :: "int \<Rightarrow> nx_src \<Rightarrow> bool" where
  "src_ok n (NXSubfield f ofs) \<longleftrightarrow> subfield_ok (f, ofs)"
| "src_ok n (NXImmediate i) \<longleftrightarrow> fits (imm_len n) i"

definition spec_ok :: "nx_flow_spec \<Rightarrow> bool" where
  "spec_ok s \<longleftrightarrow>
     (case spec_parts s of (src, dst, n) \<Rightarrow>
        0 < n \<and> n < 1024 \<and> src_ok n src \<and> (case dst of None \<Rightarrow> True | Some d \<Rightarrow> subfield_ok d))"

abbreviation learn_vals :: "nx_learn \<Rightarrow> int list" where
  "learn_vals l \<equiv> [nxl_idle_timeout l, nxl_hard_timeout l, nxl_priority l, nxl_cookie l, nxl_flags l,
     nxl_table_id l, nxl_fin_idle_timeout l, nxl_fin_hard_timeout l]"

abbreviation ct_vals :: "nx_ct \<Rightarrow> int list" where
  "ct_vals c \<equiv> [nxc_flags c, nxc_zone_src c, nxc_zone_ofs_nbits c, nxc_recirc_table c, nxc_alg c]"

definition act_enc :: "netaddr \<Rightarrow> of_action \<Rightarrow> bytes" where
  "act_enc na a = (case action_serialize na a [] 0 of Inr (b, l) \<Rightarrow> b | Inl e \<Rightarrow> [])"

text \<open>
  The actions that can be written: attributes within the width of their wire fields, canonical
  match fields, and experimenter payloads whose length needs no padding (the code announces the
  padded length but writes the payload as it is).
\<close>

fun act_ok :: "netaddr \<Rightarrow> of_action \<Rightarrow> bool" where
  "act_ok na (OFPActionSetField k v) \<longleftrightarrow> kv_ok na (k, UV v)"
| "act_ok na (OFPActionExperimenterUnknown e d) \<longleftrightarrow>
     (case d of None \<Rightarrow> False
      | Some b \<Rightarrow> fits 4 e \<and> e \<noteq> NX_EXPERIMENTER_ID \<and> 8 dvd length b \<and> 8 + length b < 65536)"
| "act_ok na (NXActionRegMove s d n so do) \<longleftrightarrow>
     reg_move_ok s d n so do \<and>
     (case NXActionRegMove_data s d n so do of Inr data \<Rightarrow> nx_data_ok data | Inl e \<Rightarrow> False)"
| "act_ok na (NXActionLearn l specs) \<longleftrightarrow>
     list_all spec_ok specs \<and> packable NX_LEARN_FMT (learn_vals l) \<and>
     (case NXActionLearn_data l specs of Inr data \<Rightarrow> nx_data_ok data | Inl e \<Rightarrow> False)"
| "act_ok na (NXActionConjunction c n i) \<longleftrightarrow> packable NX_CONJUNCTION_FMT [c, n, i]"
| "act_ok na (NXActionResubmitTable p t) \<longleftrightarrow> packable NX_RESUBMIT_TABLE_FMT [p, t]"
| "act_ok na (NXActionCT c actions) \<longleftrightarrow>
     packable NX_CT_FMT (ct_vals c) \<and> list_all (act_ok na) actions \<and>
     24 + length (concat (map (act_enc na) actions)) < 65536"
| "act_ok na a \<longleftrightarrow>
     (case act_attrs a of
        None \<Rightarrow> False
      | Some (c, vs) \<Rightarrow> packable (cls_pack_str c) (cls_action_type c # int (cls_action_len c) # vs))"

definition act_wire :: "netaddr \<Rightarrow> of_action \<Rightarrow> bytes \<Rightarrow> bool" where
  "act_wire na a bs \<longleftrightarrow>
     (\<forall>buf offset. length buf \<le> offset \<longrightarrow> action_serialize na a buf offset = Inr (grow offset buf @ bs, length bs)) \<and>
     (\<forall>pre post. OFPAction_parser na (pre @ bs @ post) (length pre) = Inr (a, length bs)) \<and>
     8 dvd length bs \<and> bs \<noteq> []"

section \<open>Header-only fields\<close>

lemma oxm_header_roundtrip:
  assumes d: "d \<in> set oxm_types"
  shows "length buf \<le> offset \<Longrightarrow>
           oxm_serialize_header (oxm_numb d) buf offset
             = Inr (grow offset buf @ oxm_hdr_bytes d, length (oxm_hdr_bytes d))"
    and "oxm_parse_header (pre @ oxm_hdr_bytes d @ post) (length pre)
           = Inr (oxm_numb d, length (oxm_hdr_bytes d))"
    and "length (oxm_hdr_bytes d) = 4 \<or> length (oxm_hdr_bytes d) = 8 \<or> length (oxm_hdr_bytes d) = 10"
proof -
  obtain t eh where h: "oxm_make_exp_hdr (oxm_numb d) = Inr (Num t, eh)" "hdr_spec (oxm_numb d) t eh"
    using oxm_make_exp_hdr_spec oxm_codable_table [OF d] by blast
  obtain sz where sz: "type_size (oxm_tdesc d) = Some sz" "0 < sz" "sz \<le> 16"
    using desc_ok_table [OF d] by (auto simp: desc_ok_def split: option.splits)
  have f: "num_to_field (oxm_numb d) = Some d" using d by (simp add: num_to_field_iff)
  have t: "0 \<le> t" "t < 2 ^ 23" using h by (auto simp: hdr_spec_def)
  have eh: "length eh = 0 \<or> length eh = 4 \<or> length eh = 6"
    using h by (auto simp: hdr_spec_def split: oxm_num.splits if_splits)
  define L where "L = length eh + sz"
  have L: "0 \<le> int L" "int L < 256" using eh sz by (auto simp: L_def)
  define w where "w = t * 512 + of_bool False * 256 + int L"
  have w: "push_bit 9 t OR push_bit 8 0 OR int L = w"
    using hdr_word(1) [OF L] by (simp add: w_def)
  have fw: "fits 4 w" unfolding w_def by (rule hdr_word_fits [OF L t])
  have s: "oxm_serialize_header (oxm_numb d) buf offset
      = Inr (grow offset buf @ packed [fI] [w] @ eh, 4 + length eh)" if "length buf \<le> offset" for buf offset
    using that f h sz fw w by (simp add: oxm_serialize_header_def msg_pack_into_s_eq pack_at_append L_def)
  have b: "oxm_hdr_bytes d = packed [fI] [w] @ eh"
    using s [of "[]" 0] by (simp add: oxm_hdr_bytes_def)
  show "length buf \<le> offset \<Longrightarrow>
           oxm_serialize_header (oxm_numb d) buf offset
             = Inr (grow offset buf @ oxm_hdr_bytes d, length (oxm_hdr_bytes d))"
    using s by (simp add: b)
  show "oxm_parse_header (pre @ oxm_hdr_bytes d @ post) (length pre)
           = Inr (oxm_numb d, length (oxm_hdr_bytes d))"
    using oxm_parse_header_impl_spec [OF h(2), of L sz False pre post] sz L
    by (simp add: oxm_parse_header_def b L_def w_def)
  show "length (oxm_hdr_bytes d) = 4 \<or> length (oxm_hdr_bytes d) = 8 \<or> length (oxm_hdr_bytes d) = 10"
    using eh by (auto simp: b)
qed

lemma header_names:
  assumes "d \<in> set oxm_types"
  shows "oxm_from_user_header (oxm_name d) = Inr (oxm_numb d)"
    and "oxm_to_user_header (oxm_numb d) = Inr (oxm_name d)"
  using info_by_name_table [OF assms] info_by_number_table [OF assms]
  by (simp_all add: oxm_from_user_header_def oxm_to_user_header_def)

section \<open>Action headers\<close>

lemma unpack_action_header:
  assumes "fits 2 t" and "fits 2 l" and "4 \<le> length rest"
  shows "unpack_from OFP_ACTION_HEADER_PACK_STR (pre @ be_bytes 2 t @ be_bytes 2 l @ rest) (length pre)
         = Inr [t, l]"
  using assms by (simp add: unpack_from_def slice_def fmt_defs)

lemmas act_cls_defs =
  OFPActionOutput_cls_def OFPActionGroup_cls_def OFPActionSetQueue_cls_def
  OFPActionSetMplsTtl_cls_def OFPActionDecMplsTtl_cls_def OFPActionSetNwTtl_cls_def
  OFPActionDecNwTtl_cls_def OFPActionCopyTtlOut_cls_def OFPActionCopyTtlIn_cls_def
  OFPActionPushVlan_cls_def OFPActionPushMpls_cls_def OFPActionPopVlan_cls_def
  OFPActionPopMpls_cls_def OFPActionPushPbb_cls_def OFPActionPopPbb_cls_def

text \<open>The registered classes: what they have in common, and how the dispatchers reach them.\<close>

lemma fixed_class_layout:
  assumes "act_attrs a = Some (c, vs)"
  shows "\<exists>f. cls_pack_str c = fH # fH # f \<and> 4 \<le> calcsize f"
    and "calcsize (cls_pack_str c) = cls_action_len c"
    and "cls_action_len c = 8 \<or> cls_action_len c = 16"
    and "fits 2 (cls_action_type c)" and "cls_action_type c \<noteq> OFPAT_EXPERIMENTER"
    and "cls_make c vs = a"
  using assms by (cases a; auto simp: act_cls_defs fmt_defs fits_def)+

lemma fixed_class_dispatch:
  assumes "act_attrs a = Some (c, vs)"
  shows "simple_action_parser na (cls_action_type c) buf offset = fixed_action_parser c buf offset"
    and "action_serialize na a buf offset = fixed_action_serialize c vs buf offset"
  using assms by (cases a; auto simp: simple_action_parser_def ACTION_TYPES_def act_cls_defs)+

section \<open>Fixed-size actions\<close>

lemma fixed_action_ok:
  assumes a: "act_attrs a = Some (c, vs)"
    and p: "packable (cls_pack_str c) (cls_action_type c # int (cls_action_len c) # vs)"
  defines "bs \<equiv> packed (cls_pack_str c) (cls_action_type c # int (cls_action_len c) # vs)"
  shows "length buf \<le> offset \<Longrightarrow> action_serialize na a buf offset = Inr (grow offset buf @ bs, length bs)"
    and "OFPAction_parser na (pre @ bs @ post) (length pre) = Inr (a, length bs)"
    and "8 dvd length bs" and "bs \<noteq> []"
proof -
  note l = fixed_class_layout [OF a]
  have len: "length bs = cls_action_len c" using l(2) by (simp add: bs_def)
  show "length buf \<le> offset \<Longrightarrow> action_serialize na a buf offset = Inr (grow offset buf @ bs, length bs)"
    using p len by (simp add: fixed_class_dispatch(2) [OF a] fixed_action_serialize_def msg_pack_into_eq
        pack_at_append bs_def)
  obtain f where f: "cls_pack_str c = fH # fH # f" "4 \<le> calcsize f" using l(1) by blast
  have "unpack_from OFP_ACTION_HEADER_PACK_STR (pre @ bs @ post) (length pre)
      = Inr [cls_action_type c, int (cls_action_len c)]"
    using unpack_action_header [of "cls_action_type c" "int (cls_action_len c)" "packed f vs @ post" pre] f p
    by (simp add: bs_def)
  moreover have "unpack_from (cls_pack_str c) (pre @ bs @ post) (length pre)
      = Inr (cls_action_type c # int (cls_action_len c) # vs)"
    unfolding bs_def using p by simp
  ultimately show "OFPAction_parser na (pre @ bs @ post) (length pre) = Inr (a, length bs)"
    using l(5,6) len
    by (simp add: OFPAction_parser.simps fixed_class_dispatch(1) [OF a] fixed_action_parser_def)
  show "8 dvd length bs" "bs \<noteq> []" using l(3) len by auto
qed

section \<open>SetField\<close>

lemma length_set_field_bytes: "length (set_field_bytes na x) = round_up (4 + length (kv_enc na x)) 8"
  using round_up_8(1) [of "4 + length (kv_enc na x)"] by (simp add: set_field_bytes_def Let_def)

lemma set_field_serialize_ok:
  assumes ok: "kv_ok na (k, UV v)" and b: "length buf \<le> offset"
  shows "OFPActionSetField_serialize na k v buf offset =
         Inr (grow offset buf @ set_field_bytes na (k, UV v), length (set_field_bytes na (k, UV v)))"
proof -
  define E where "E = kv_enc na (k, UV v)"
  define len where "len = round_up (4 + length E) 8"
  have len: "4 + length E \<le> len" "len < 65536"
    using round_up_8 [of "4 + length E"] kv_enc_length [OF ok] by (auto simp: len_def E_def)
  obtain n w m where f: "oxm_from_user na k (UV v) = Inr (n, w, m)"
    using kv_okE [OF ok] by (metis fst_conv snd_conv)
  have s: "oxm_serialize n w m buf (offset + 4) = Inr (grow (offset + 4) buf @ E, length E)"
    using kv.ser_ok [OF ok, of buf "offset + 4"] b f by (simp add: kv_ser_def oxm_ser_def E_def)
  let ?h = "packed [fH, fH] [OFPAT_SET_FIELD, int len]"
  have fit: "packable [fH, fH] [OFPAT_SET_FIELD, int len]" using len by (simp add: fits_def)
  have p1: "pack_at ?h offset (grow (offset + 4) buf @ E) = grow offset buf @ ?h @ E"
    by (rule pack_at_header) (use b in \<open>simp_all only: packed_eq_Nil length_packed\<close>, simp_all)
  have p2: "pack_at (zeros (len - (4 + length E))) (offset + 4 + length E) (grow offset buf @ ?h @ E)
      = grow offset buf @ ?h @ E @ zeros (len - (4 + length E))"
    using b by (subst pack_at_append) (simp_all add: max_def grow_append_ge)
  show ?thesis
    using f s fit p1 p2 length_set_field_bytes [of na "(k, UV v)"]
    by (simp add: OFPActionSetField_serialize_def msg_pack_into_eq Let_def
        set_field_bytes_def E_def [symmetric] len_def [symmetric])
qed

lemma set_field_parser_ok:
  assumes ok: "kv_ok na (k, UV v)"
  shows "OFPAction_parser na (pre @ set_field_bytes na (k, UV v) @ post) (length pre) =
         Inr (OFPActionSetField k v, length (set_field_bytes na (k, UV v)))"
proof -
  define E where "E = kv_enc na (k, UV v)"
  define len where "len = round_up (4 + length E) 8"
  define pad where "pad = zeros (len - (4 + length E))"
  define h where "h = packed [fH, fH] [OFPAT_SET_FIELD, int len]"
  have lh: "length h = 4" by (simp add: h_def)
  have bs: "set_field_bytes na (k, UV v) = h @ E @ pad"
    by (simp add: set_field_bytes_def E_def h_def len_def pad_def Let_def)
  have len: "4 + length E \<le> len" "len < 65536" "8 \<le> len"
    using round_up_8 [of "4 + length E"] kv_enc_length [OF ok] kv.enc_nonempty [OF ok]
    by (auto simp: len_def E_def dvd_def)
  have lb: "length (set_field_bytes na (k, UV v)) = len" by (simp add: length_set_field_bytes len_def E_def)
  have ft: "fits 2 (int len)" "fits 2 OFPAT_SET_FIELD" using len by (auto simp: fits_def)
  have "4 \<le> length (E @ pad @ post)" using len lb lh by (simp add: bs)
  from unpack_action_header [OF ft(2,1) this, of pre]
  have u: "unpack_from OFP_ACTION_HEADER_PACK_STR (pre @ h @ E @ pad @ post) (length pre)
      = Inr [OFPAT_SET_FIELD, int len]"
    by (simp add: h_def)
  have u2: "unpack_from OFP_ACTION_SET_FIELD_PACK_STR (pre @ h @ E @ pad @ post) (length pre)
      = Inr [OFPAT_SET_FIELD, int len]"
    using u by (simp add: fmt_defs)
  have k: "kv_par na (pre @ h @ E @ pad @ post) (length pre + 4) = Inr ((k, UV v), length E)"
    using kv.par_ok [OF ok, of "pre @ h" "pad @ post"] lh by (simp add: E_def)
  obtain f where m: "OFPMatchField_parser (pre @ h @ E @ pad @ post) (length pre + 4) = Inr (f, length E)"
  proof -
    obtain n w m t eh where "hdr_spec n t eh" "payload_ok eh w m" "E = oxm_enc t eh w m"
      using kv_okE [OF ok] unfolding E_def by metis
    from OFPMatchField_parser_enc [OF this(1,2)] this(3) obtain f where
      "\<forall>pre post. OFPMatchField_parser (pre @ E @ post) (length pre) = Inr (f, length E)" by metis
    from this [THEN spec, THEN spec, of "pre @ h" "pad @ post"] show thesis using that lh by simp
  qed
  show ?thesis
    using u u2 k m lb
    by (auto simp: bs OFPAction_parser.simps simple_action_parser_def OFPActionSetField_parser_def
        kv_par_def rbind_eq_Inr)
qed

section \<open>Experimenter actions\<close>

lemma length_exp_bytes [simp]: "length (exp_bytes e data) = 8 + length data"
  by (simp add: exp_bytes_def)

lemma exp_header_packable:
  "fits 4 e \<Longrightarrow> n < 65536 \<Longrightarrow>
   packable OFP_ACTION_EXPERIMENTER_HEADER_PACK_STR [OFPAT_EXPERIMENTER, int n, e]"
  by (simp add: fmt_defs fits_def)

text \<open>What the parser of actions finds in an experimenter action.\<close>

lemma exp_unpack:
  assumes "fits 4 e" and "8 + length data < 65536"
  shows "unpack_from OFP_ACTION_HEADER_PACK_STR (pre @ exp_bytes e data @ post) (length pre)
           = Inr [OFPAT_EXPERIMENTER, int (8 + length data)]"
    and "unpack_from OFP_ACTION_EXPERIMENTER_HEADER_PACK_STR (pre @ exp_bytes e data @ post) (length pre)
           = Inr [OFPAT_EXPERIMENTER, int (8 + length data), e]"
    and "slice (length pre + 8) (length pre + (8 + length data)) (pre @ exp_bytes e data @ post) = data"
proof -
  have "fits 2 OFPAT_EXPERIMENTER" "fits 2 (int (8 + length data))" using assms by (auto simp: fits_def)
  from unpack_action_header [OF this, of "be_bytes 4 e @ data @ post" pre]
  show "unpack_from OFP_ACTION_HEADER_PACK_STR (pre @ exp_bytes e data @ post) (length pre)
           = Inr [OFPAT_EXPERIMENTER, int (8 + length data)]"
    by (simp add: exp_bytes_def fmt_defs)
  show "unpack_from OFP_ACTION_EXPERIMENTER_HEADER_PACK_STR (pre @ exp_bytes e data @ post) (length pre)
           = Inr [OFPAT_EXPERIMENTER, int (8 + length data), e]"
    unfolding exp_bytes_def append_assoc
    by (rule unpack_from_packed) (use exp_header_packable [OF assms] in simp_all)
  show "slice (length pre + 8) (length pre + (8 + length data)) (pre @ exp_bytes e data @ post) = data"
    by (simp add: slice_def exp_bytes_def)
qed

lemma unknown_action_ok:
  assumes e: "fits 4 e" "e \<noteq> NX_EXPERIMENTER_ID" and d: "8 dvd length d" "8 + length d < 65536"
  shows "length buf \<le> offset \<Longrightarrow>
           action_serialize na (OFPActionExperimenterUnknown e (Some d)) buf offset
             = Inr (grow offset buf @ exp_bytes e d, length (exp_bytes e d))"
    and "OFPAction_parser na (pre @ exp_bytes e d @ post) (length pre)
           = Inr (OFPActionExperimenterUnknown e (Some d), length (exp_bytes e d))"
proof -
  show "action_serialize na (OFPActionExperimenterUnknown e (Some d)) buf offset
             = Inr (grow offset buf @ exp_bytes e d, length (exp_bytes e d))" if "length buf \<le> offset"
    using that exp_header_packable [OF e(1) d(2)]
    by (simp add: OFPActionExperimenterUnknown_serialize_def OFPActionExperimenter_serialize_def
        round_up_8_id [OF d(1)] msg_pack_into_eq msg_pack_into_s_eq pack_at_append exp_bytes_def
        add.commute grow_append_ge)
  show "OFPAction_parser na (pre @ exp_bytes e d @ post) (length pre)
           = Inr (OFPActionExperimenterUnknown e (Some d), length (exp_bytes e d))"
    using e(2) exp_unpack [OF e(1) d(2), of pre post]
    by (simp add: OFPAction_parser.simps nat_add_distrib)
qed

section \<open>Nicira actions\<close>

lemma length_nx_bytes [simp]: "length (nx_bytes st data) = 10 + length data"
  by (simp add: nx_bytes_def)

lemma NXAction_serialize_ok:
  assumes "nx_data_ok data" and "fits 2 st" and "length buf \<le> offset"
  shows "NXAction_serialize st data buf offset = Inr (grow offset buf @ nx_bytes st data, length (nx_bytes st data))"
proof -
  have r: "round_up (10 + length data) 8 = 10 + length data" using assms by (simp add: nx_data_ok_def round_up_8_id)
  have p: "packable OFP_ACTION_EXPERIMENTER_HEADER_PACK_STR
      [OFPAT_EXPERIMENTER, int (10 + length data), NX_EXPERIMENTER_ID]"
    using assms by (intro exp_header_packable) (auto simp: nx_data_ok_def fits_def)
  show ?thesis
    using assms p r
    by (simp add: NXAction_serialize_def OFPActionExperimenter_serialize_def Let_def msg_pack_into_eq
        msg_pack_into_s_eq pack_at_append grow_append_ge nx_bytes_def exp_bytes_def)
qed

lemma nx_parse:
  assumes d: "nx_data_ok data" and st: "fits 2 st"
  shows "st \<noteq> NXAST_CT \<Longrightarrow> OFPAction_parser na (pre @ nx_bytes st data @ post) (length pre) =
           rbind (NXAction_parse_flat st data) (\<lambda>a. Inr (a, length (nx_bytes st data)))"
    and "st = NXAST_CT \<Longrightarrow> OFPAction_parser na (pre @ nx_bytes st data @ post) (length pre) =
           rbind (unpack_from NX_CT_FMT data 0) (\<lambda>vs.
           rbind (NXActionCT_actions na (drop 14 data)) (\<lambda>actions.
             Inr (NXActionCT \<lparr>nxc_flags = vs ! 0, nxc_zone_src = vs ! 1, nxc_zone_ofs_nbits = vs ! 2,
                    nxc_recirc_table = vs ! 3, nxc_alg = vs ! 4\<rparr> actions, length (nx_bytes st data))))"
proof -
  let ?d = "be_bytes 2 st @ data"
  have l: "8 + length ?d < 65536" using d by (simp add: nx_data_ok_def)
  have nx: "fits 4 NX_EXPERIMENTER_ID" by (simp add: fits_def)
  note u = exp_unpack [OF nx l, of pre post, folded nx_bytes_def]
  have s: "unpack_from [fH] ?d 0 = Inr [st]"
    using unpack_from_packed0 [of "[fH]" "[st]" data] st by simp
  have n: "nat (int (8 + length ?d)) = 8 + length ?d" by simp
  show "OFPAction_parser na (pre @ nx_bytes st data @ post) (length pre) =
           rbind (NXAction_parse_flat st data) (\<lambda>a. Inr (a, length (nx_bytes st data)))" if "st \<noteq> NXAST_CT"
    using that u s by (simp add: OFPAction_parser.simps nat_add_distrib)
  show "OFPAction_parser na (pre @ nx_bytes st data @ post) (length pre) =
           rbind (unpack_from NX_CT_FMT data 0) (\<lambda>vs.
           rbind (NXActionCT_actions na (drop 14 data)) (\<lambda>actions.
             Inr (NXActionCT \<lparr>nxc_flags = vs ! 0, nxc_zone_src = vs ! 1, nxc_zone_ofs_nbits = vs ! 2,
                    nxc_recirc_table = vs ! 3, nxc_alg = vs ! 4\<rparr> actions, length (nx_bytes st data))))"
    if "st = NXAST_CT"
    using that u s by (simp add: OFPAction_parser.simps nat_add_distrib)
qed

lemma int_and_3_1023: "(x :: int) AND 3 = x mod 4" "(x :: int) AND 1023 = x mod 1024"
  using int_and_mask [of x 2] int_and_mask [of x 10] by (simp_all add: mask_eq_exp_minus_1)

lemma reg_move_data:
  assumes "reg_move_ok s d n so do"
  shows "\<exists>data. NXActionRegMove_data s d n so do = Inr data \<and>
                NXActionRegMove_parse data = Inr (NXActionRegMove s d n so do)"
proof -
  obtain ds dd where t: "ds \<in> set oxm_types" "dd \<in> set oxm_types" "s = oxm_name ds" "d = oxm_name dd"
    and p: "packable NX_REG_MOVE_FMT [n, so, do]"
    using assms by (auto simp: reg_move_ok_def)
  define f where "f = packed NX_REG_MOVE_FMT [n, so, do]"
  have lf: "length f = 6" by (simp add: f_def)
  have u: "unpack_from NX_REG_MOVE_FMT (f @ x) 0 = Inr [n, so, do]" for x
    unfolding f_def by (rule unpack_from_packed0 [OF p])
  have "NXActionRegMove_data s d n so do = Inr (f @ oxm_hdr_bytes ds @ oxm_hdr_bytes dd)"
    using p by (simp add: NXActionRegMove_data_def t header_names msg_pack_into_eq pack_at_append
        oxm_header_roundtrip(1) f_def del: packed.simps packable.simps)
  moreover have "NXActionRegMove_parse (f @ oxm_hdr_bytes ds @ oxm_hdr_bytes dd) = Inr (NXActionRegMove s d n so do)"
    using oxm_header_roundtrip(2) [OF t(1), of "[]" "oxm_hdr_bytes dd"]
      oxm_header_roundtrip(2) [OF t(2), of "[]" "[]"] u lf
    by (simp add: NXActionRegMove_parse_def t header_names Let_def)
  ultimately show ?thesis by blast
qed

section \<open>Flow specifications\<close>

lemma subfield_roundtrip:
  assumes "subfield_ok sf"
  shows "\<exists>b. length b = 6 \<and> nx_serialize_subfield sf = Inr b \<and> (\<forall>rest. nx_parse_subfield (b @ rest) = Inr sf)"
proof -
  obtain d where d: "d \<in> set oxm_types" "fst sf = oxm_name d" "length (oxm_hdr_bytes d) = 4" and o: "fits 2 (snd sf)"
    using assms by (auto simp: subfield_ok_def)
  let ?b = "oxm_hdr_bytes d @ be_bytes 2 (snd sf)"
  have "nx_serialize_subfield sf = Inr ?b"
    using d o oxm_header_roundtrip(1) [OF d(1), of "[]" 0]
    by (simp add: nx_serialize_subfield_def header_names msg_pack_into_eq pack_at_append)
  moreover have "nx_parse_subfield (?b @ rest) = Inr sf" for rest
  proof -
    have "oxm_parse_header (?b @ rest) 0 = Inr (oxm_numb d, 4)"
      using oxm_header_roundtrip(2) [OF d(1), of "[]" "be_bytes 2 (snd sf) @ rest"] d(3) by simp
    moreover have "unpack_from [fH] (be_bytes 2 (snd sf) @ rest) 0 = Inr [snd sf]"
      using unpack_from_packed0 [of "[fH]" "[snd sf]" rest] o by simp
    ultimately show ?thesis
      using d by (simp add: nx_parse_subfield_def header_names prod_eq_iff)
  qed
  ultimately show ?thesis using d(3) by (intro exI [of _ ?b]) simp
qed

lemma spec_header:
  assumes "0 \<le> n" and "n < 1024" and "st \<in> {0, 1}" and "dt \<in> {0, 1, 2}"
  defines "w \<equiv> push_bit 13 st OR push_bit 11 dt OR (n :: int)"
  shows "w = st * 8192 + dt * 2048 + n" "drop_bit 13 w AND 1 = st" "drop_bit 11 w AND 3 = dt" "w AND 1023 = n"
    "fits 2 w"
proof -
  have 1: "push_bit 11 dt OR n = dt * 2048 + n" using int_shift_or [of n 11 dt] assms by simp
  have 2: "push_bit 13 st OR (dt * 2048 + n) = st * 8192 + (dt * 2048 + n)"
    using int_shift_or [of "dt * 2048 + n" 13 st] assms by auto
  show w: "w = st * 8192 + dt * 2048 + n" unfolding w_def or.assoc 1 2 by simp
  have r: "0 \<le> dt * 2048 + n" "dt * 2048 + n < 8192" "0 \<le> n" "n < 2048" using assms(1-4) by auto
  have e: "w = st * 8192 + (dt * 2048 + n)" "w = (st * 4 + dt) * 2048 + n" "w = (st * 8 + dt * 2) * 1024 + n"
    by (simp_all add: w)
  have d: "w div 8192 = st" unfolding e(1) using r by (simp only: div_mult_self3)
  have d2: "w div 2048 = st * 4 + dt" unfolding e(2) using r by (simp only: div_mult_self3)
  have d3: "w mod 1024 = n" unfolding e(3) using r assms(2) by (simp only: mod_mult_self3) simp
  show "drop_bit 13 w AND 1 = st" "drop_bit 11 w AND 3 = dt" "w AND 1023 = n"
    using assms(3,4) by (auto simp: drop_bit_eq_div int_and_3_1023 d d2 d3)
  show "fits 2 w" using assms(3,4) r by (auto simp: w fits_def)
qed

lemma src_roundtrip:
  assumes "src_ok n src"
  shows "\<exists>b. (case src of NXSubfield f ofs \<Rightarrow> nx_serialize_subfield (f, ofs)
                | NXImmediate i \<Rightarrow> Inr (int_from_user (imm_len n) i [])) = Inr b \<and>
           even (length b) \<and>
           (\<forall>rest. (if src_type_of src = 0
                     then rbind (nx_parse_subfield (b @ rest)) (\<lambda>(f, ofs). Inr (NXSubfield f ofs, drop 6 (b @ rest)))
                     else rbind (int_to_user (imm_len n) 0 (take (imm_len n) (b @ rest))) (\<lambda>i.
                            Inr (NXImmediate i, drop (imm_len n) (b @ rest)))) = Inr (src, rest))"
proof (cases src)
  case (NXSubfield f ofs)
  with assms subfield_roundtrip [of "(f, ofs)"] show ?thesis by auto
next
  case (NXImmediate i)
  have "even (imm_len n)" by (cases "0 \<le> (n + 15) div 16") (auto simp: imm_len_def nat_mult_distrib)
  with NXImmediate assms show ?thesis
    by (simp add: int_from_user_eq int_to_user_eq)
qed

lemma spec_roundtrip:
  assumes "spec_ok s"
  shows "\<exists>b. nx_spec_serialize s = Inr b \<and> even (length b) \<and>
             (\<forall>rest. nx_spec_parse (b @ rest) = Inr (Some s, rest))"
proof -
  obtain src dst n where p: "spec_parts s = (src, dst, n)" by (cases "spec_parts s")
  have n: "0 < n" "n < 1024" "src_ok n src" "case dst of None \<Rightarrow> True | Some d \<Rightarrow> subfield_ok d"
    using assms p by (auto simp: spec_ok_def)
  have st: "src_type_of src \<in> {0, 1}" by (cases src) auto
  have dt: "spec_dst_type s \<in> {0, 1, 2}" by (cases s) auto
  define w where "w = push_bit 13 (src_type_of src) OR push_bit 11 (spec_dst_type s) OR n"
  have w: "w = src_type_of src * 8192 + spec_dst_type s * 2048 + n"
    "drop_bit 13 w AND 1 = src_type_of src" "drop_bit 11 w AND 3 = spec_dst_type s" "w AND 1023 = n" "fits 2 w"
    unfolding w_def by (rule spec_header [OF _ n(2) st dt], use n in simp)+
  have w0: "w \<noteq> 0" using n st dt by (auto simp: w(1))
  obtain b1 where b1: "(case src of NXSubfield f ofs \<Rightarrow> nx_serialize_subfield (f, ofs)
                | NXImmediate i \<Rightarrow> Inr (int_from_user (imm_len n) i [])) = Inr b1" "even (length b1)"
      "\<And>rest. (if src_type_of src = 0
                     then rbind (nx_parse_subfield (b1 @ rest)) (\<lambda>(f, ofs). Inr (NXSubfield f ofs, drop 6 (b1 @ rest)))
                     else rbind (int_to_user (imm_len n) 0 (take (imm_len n) (b1 @ rest))) (\<lambda>i.
                            Inr (NXImmediate i, drop (imm_len n) (b1 @ rest)))) = Inr (src, rest)"
    using src_roundtrip [OF n(3)] by blast
  have u: "unpack_from [fH] (be_bytes 2 w @ x) 0 = Inr [w]" for x
    using unpack_from_packed0 [of "[fH]" "[w]" x] w(5) by simp
  have ser: "nx_spec_serialize s = rbind (case dst of None \<Rightarrow> Inr [] | Some d \<Rightarrow> nx_serialize_subfield d)
      (\<lambda>d. Inr (be_bytes 2 w @ b1 @ d))"
    using b1(1) w(5) by (simp add: nx_spec_serialize_def p w_def [symmetric] msg_pack_into_eq pack_at_append)
  have par: "nx_spec_parse (be_bytes 2 w @ b1 @ x) =
      (if spec_dst_type s = 2 then Inr (Some (NXFlowSpecOutput src n), x)
       else rbind (nx_parse_subfield x) (\<lambda>dst.
              Inr (Some (if spec_dst_type s = 0 then NXFlowSpecMatch src dst n
                         else NXFlowSpecLoad src dst n), drop 6 x)))" for x
    using u w0 w(2-4) b1(3) [of x] dt
    by (auto simp: nx_spec_parse_def Let_def simp del: int_and_numerals int_and_3_1023)
  show ?thesis
  proof (cases dst)
    case None
    then have "s = NXFlowSpecOutput src n" using p by (cases s) auto
    with None ser par b1(2) show ?thesis by (intro exI [of _ "be_bytes 2 w @ b1"]) simp
  next
    case (Some d)
    obtain b2 where b2: "length b2 = 6" "nx_serialize_subfield d = Inr b2" "\<And>rest. nx_parse_subfield (b2 @ rest) = Inr d"
      using subfield_roundtrip [of d] n(4) Some by auto
    have "nx_spec_parse (be_bytes 2 w @ b1 @ b2 @ rest) = Inr (Some s, rest)" for rest
      using par [of "b2 @ rest"] b2 Some p by (cases s) auto
    with ser b1(2) b2 Some show ?thesis by (intro exI [of _ "be_bytes 2 w @ b1 @ b2"]) simp
  qed
qed

lemma specs_roundtrip:
  "list_all spec_ok specs \<Longrightarrow> \<exists>bs. mapM nx_spec_serialize specs = Inr bs \<and> nx_specs_parse (concat bs) = Inr specs"
proof (induction specs)
  case Nil
  then show ?case by (simp add: nx_specs_parse.simps)
next
  case (Cons s specs)
  then obtain bs where bs: "mapM nx_spec_serialize specs = Inr bs" "nx_specs_parse (concat bs) = Inr specs" by auto
  obtain b where b: "nx_spec_serialize s = Inr b" "\<And>rest. nx_spec_parse (b @ rest) = Inr (Some s, rest)"
    using spec_roundtrip [of s] Cons.prems by auto
  have "b \<noteq> []" using nx_spec_parse_shorter b(2) by (metis append_Nil less_irrefl)
  with b bs show ?case
    by (intro exI [of _ "b # bs"]) (simp add: nx_specs_parse.simps [of "b @ concat bs"])
qed

lemma learn_data:
  assumes "list_all spec_ok specs" and p: "packable NX_LEARN_FMT (learn_vals l)"
  shows "\<exists>data. NXActionLearn_data l specs = Inr data \<and> NXActionLearn_parse data = Inr (NXActionLearn l specs)"
proof -
  obtain bs where bs: "mapM nx_spec_serialize specs = Inr bs" "nx_specs_parse (concat bs) = Inr specs"
    using specs_roundtrip [OF assms(1)] by blast
  define f where "f = packed NX_LEARN_FMT (learn_vals l)"
  have lf: "length f = 22" by (simp add: f_def)
  have u: "unpack_from NX_LEARN_FMT (f @ x) 0 = Inr (learn_vals l)" for x
    unfolding f_def by (rule unpack_from_packed0 [OF p])
  have "NXActionLearn_data l specs = Inr (f @ concat bs)"
    using p bs by (simp add: NXActionLearn_data_def msg_pack_into_eq pack_at_append f_def
        del: packed.simps packable.simps)
  moreover have "NXActionLearn_parse (f @ concat bs) = Inr (NXActionLearn l specs)"
    using u lf bs by (simp add: NXActionLearn_parse_def)
  ultimately show ?thesis by blast
qed

section \<open>The contract of actions\<close>

lemma act_wire_enc: "act_wire na a bs \<Longrightarrow> act_enc na a = bs"
  unfolding act_wire_def act_enc_def by (metis (no_types, lifting) append_Nil case_prod_conv grow_id le_numeral_extra(3) list.size(3) old.sum.simps(6))

lemma act_wire_nx:
  assumes "nx_data_ok data" and "fits 2 st" and "st \<noteq> NXAST_CT"
    and "\<And>buf offset. action_serialize na a buf offset = NXAction_serialize st data buf offset"
    and "NXAction_parse_flat st data = Inr a"
  shows "act_wire na a (nx_bytes st data)"
  using assms NXAction_serialize_ok [OF assms(1,2)] nx_parse(1) [OF assms(1-3), of na]
  by (auto simp: act_wire_def nx_data_ok_def nx_bytes_def exp_bytes_def simp flip: length_0_conv)

lemma act_wire_fixed:
  assumes "act_attrs a = Some (c, vs)"
    and "packable (cls_pack_str c) (cls_action_type c # int (cls_action_len c) # vs)"
  shows "\<exists>bs. act_wire na a bs"
  using fixed_action_ok [OF assms] unfolding act_wire_def by blast

lemma nonempty_bytes [simp]: "set_field_bytes na x \<noteq> []" "exp_bytes e d \<noteq> []" "nx_bytes st data \<noteq> []"
  using round_up_8(1) [of "4 + length (kv_enc na x)"] length_set_field_bytes [of na x]
  by (auto simp: exp_bytes_def nx_bytes_def)

lemma act_wire_set_field: "kv_ok na (k, UV v) \<Longrightarrow> \<exists>bs. act_wire na (OFPActionSetField k v) bs"
  using set_field_serialize_ok set_field_parser_ok length_set_field_bytes round_up_8(3)
  by (intro exI [of _ "set_field_bytes na (k, UV v)"]) (simp add: act_wire_def)

lemma act_wire_unknown:
  "fits 4 e \<Longrightarrow> e \<noteq> NX_EXPERIMENTER_ID \<Longrightarrow> 8 dvd length b \<Longrightarrow> 8 + length b < 65536 \<Longrightarrow>
   \<exists>bs. act_wire na (OFPActionExperimenterUnknown e (Some b)) bs"
  using unknown_action_ok [of e b]
  by (intro exI [of _ "exp_bytes e b"]) (simp add: act_wire_def)

lemma ct_append:
  assumes "\<And>a. a \<in> set as \<Longrightarrow> act_wire na a (act_enc na a)"
  shows "actions_append na as data = Inr (data @ concat (map (act_enc na) as))"
  using assms
proof (induction as arbitrary: data)
  case (Cons a as)
  then have "action_serialize na a data (length data) = Inr (data @ act_enc na a, length (act_enc na a))"
    by (auto simp: act_wire_def)
  with Cons show ?case by simp
qed simp

lemma ct_parse:
  assumes "\<And>a. a \<in> set as \<Longrightarrow> act_wire na a (act_enc na a)"
  shows "NXActionCT_actions na (concat (map (act_enc na) as)) = Inr as"
  using assms
proof (induction as)
  case Nil
  then show ?case by (simp add: NXActionCT_actions.simps)
next
  case (Cons a as)
  let ?rest = "concat (map (act_enc na) as)"
  have w: "act_wire na a (act_enc na a)" using Cons.prems by simp
  then have p: "OFPAction_parser na ([] @ act_enc na a @ ?rest) (length ([] :: bytes)) = Inr (a, length (act_enc na a))"
    unfolding act_wire_def by blast
  have "act_enc na a \<noteq> []" using w by (simp add: act_wire_def)
  with p Cons show ?case by (subst concat.simps list.map, subst NXActionCT_actions.simps) simp
qed

lemma dvd_concat: "(\<And>x. x \<in> set xs \<Longrightarrow> (k :: nat) dvd length (f x)) \<Longrightarrow> k dvd length (concat (map f xs))"
  by (induction xs) auto

lemma act_wire_ct:
  assumes p: "packable NX_CT_FMT (ct_vals c)" and a: "\<And>a. a \<in> set as \<Longrightarrow> act_wire na a (act_enc na a)"
    and l: "24 + length (concat (map (act_enc na) as)) < 65536"
  shows "\<exists>bs. act_wire na (NXActionCT c as) bs"
proof -
  let ?E = "concat (map (act_enc na) as)"
  define f where "f = packed NX_CT_FMT (ct_vals c)"
  have lf: "length f = 14" by (simp add: f_def)
  have u: "unpack_from NX_CT_FMT (f @ x) 0 = Inr (ct_vals c)" for x
    unfolding f_def by (rule unpack_from_packed0 [OF p])
  have d: "nx_data_ok (f @ ?E)"
    using dvd_concat [of as 8 "act_enc na"] a l lf by (auto simp: nx_data_ok_def act_wire_def)
  have s: "action_serialize na (NXActionCT c as) buf offset = NXAction_serialize NXAST_CT (f @ ?E) buf offset" for buf offset
    using p ct_append [OF a] by (simp add: msg_pack_into_eq pack_at_append f_def del: packed.simps packable.simps)
  have ft: "fits 2 NXAST_CT" by (simp add: fits_def)
  have "act_wire na (NXActionCT c as) (nx_bytes NXAST_CT (f @ ?E))"
    using NXAction_serialize_ok [OF d ft] nx_parse(2) [OF d ft refl, of na] u [of ?E] lf ct_parse [OF a] d
    by (simp add: act_wire_def s nx_data_ok_def del: action_serialize.simps)
  then show ?thesis by blast
qed

lemma act_ok_wire: "act_ok na a \<Longrightarrow> act_wire na a (act_enc na a)"
proof -
  have "act_ok na a \<Longrightarrow> \<exists>bs. act_wire na a bs"
  proof (induction a)
    case (NXActionRegMove s d n so do)
    then obtain data where "NXActionRegMove_data s d n so do = Inr data" "nx_data_ok data"
      "NXActionRegMove_parse data = Inr (NXActionRegMove s d n so do)"
      using reg_move_data [of s d n so do] by auto
    then show ?case
      by (intro exI [of _ "nx_bytes NXAST_REG_MOVE data"] act_wire_nx)
        (auto simp: NXAction_parse_flat_def fits_def)
  next
    case (NXActionLearn l specs)
    then obtain data where "NXActionLearn_data l specs = Inr data" "nx_data_ok data"
      "NXActionLearn_parse data = Inr (NXActionLearn l specs)"
      using learn_data [of specs l] by (auto simp del: packable.simps)
    then show ?case
      by (intro exI [of _ "nx_bytes NXAST_LEARN data"] act_wire_nx)
        (auto simp: NXAction_parse_flat_def fits_def)
  next
    case (NXActionConjunction c n i)
    then have p: "packable NX_CONJUNCTION_FMT [c, n, i]" by simp
    from unpack_from_packed0 [OF p, of "[]"] p show ?case
      by (intro exI [of _ "nx_bytes NXAST_CONJUNCTION (packed NX_CONJUNCTION_FMT [c, n, i])"] act_wire_nx)
        (auto simp: NXAction_parse_flat_def fits_def nx_data_ok_def msg_pack_into_eq pack_at_append
          NXActionConjunction_parse_def simp del: packed.simps packable.simps)
  next
    case (NXActionResubmitTable i t)
    then have p: "packable NX_RESUBMIT_TABLE_FMT [i, t]" by simp
    from unpack_from_packed0 [OF p, of "[]"] p show ?case
      by (intro exI [of _ "nx_bytes NXAST_RESUBMIT_TABLE (packed NX_RESUBMIT_TABLE_FMT [i, t])"] act_wire_nx)
        (auto simp: NXAction_parse_flat_def fits_def nx_data_ok_def msg_pack_into_eq pack_at_append
          NXActionResubmitTable_parse_def simp del: packed.simps packable.simps)
  next
    case (NXActionCT c as)
    then have "act_wire na a (act_enc na a)" if "a \<in> set as" for a
      using that act_wire_enc by (auto simp: list_all_iff)
    with NXActionCT.prems show ?case by (intro act_wire_ct) (auto simp del: packable.simps)
  qed (auto intro: act_wire_fixed act_wire_set_field act_wire_unknown simp del: packable.simps
       split: option.splits)
  then show "act_ok na a \<Longrightarrow> ?thesis" using act_wire_enc by blast
qed

interpretation act: wire_codec "action_serialize na" "OFPAction_parser na" "act_ok na" "act_enc na" for na
  by unfold_locales (use act_ok_wire in \<open>auto simp: act_wire_def\<close>)

section \<open>Properties\<close>

text \<open>
  C8. A non-empty list of well-formed actions (any of the classes,
  nested connection tracking included), written by the serialisation loop at any offset at or
  past the end of the buffer, is read back by the parsing loop from inside any message, and the
  loop advances by exactly the bytes written, which are a multiple of eight.
\<close>

theorem action_list_roundtrip:
  assumes "list_all (act_ok na) as" and "as \<noteq> []"
  shows "\<exists>bs. 8 dvd length bs \<and>
           (\<forall>buf offset. length buf \<le> offset \<longrightarrow>
              ser_list (action_serialize na) as buf offset = Inr (grow offset buf @ bs, offset + length bs)) \<and>
           (\<forall>pre post. par_loop (OFPAction_parser na) (pre @ bs @ post) (length pre) (length bs) = Inr as)"
proof -
  have "8 dvd length (concat (map (act_enc na) as))"
    using assms(1) act_ok_wire by (intro dvd_concat) (auto simp: list_all_iff act_wire_def)
  with act.ser_list_ok [OF assms(1)] act.par_loop_ok [OF assms(1)] assms(2) show ?thesis by auto
qed

theorem action_list_roundtrip_witness:
  "\<exists>bs. 8 dvd length bs \<and>
      (\<forall>buf offset. length buf \<le> offset \<longrightarrow>
         ser_list (action_serialize netaddr_raw)
           [OFPActionExperimenterUnknown 3199909562 (Some (zeros 16)), OFPActionOutput 1 65535, OFPActionPopVlan]
           buf offset = Inr (grow offset buf @ bs, offset + length bs)) \<and>
      (\<forall>pre post. par_loop (OFPAction_parser netaddr_raw) (pre @ bs @ post) (length pre) (length bs) =
         Inr [OFPActionExperimenterUnknown 3199909562 (Some (zeros 16)), OFPActionOutput 1 65535, OFPActionPopVlan])"
  by (rule action_list_roundtrip) (simp_all add: fits_def act_cls_defs fmt_defs)

end
