(* ===== verification/OF13_Instr_Codec.thy ===== *)
theory OF13_Instr_Codec
  imports OF13_Instr OF13_Action_Codec
begin

text \<open>
  Correctness of the instruction and bucket codecs, on top of the contract of actions. Both are
  interpretations of \<open>wire_codec\<close>. The parser of the packet generation instruction is shown to
  reject every input.
\<close>

section \<open>Vocabulary\<close>

definition actions_len_ok :: "netaddr \<Rightarrow> nat \<Rightarrow> of_action list \<Rightarrow> bool" where
  "actions_len_ok na sz as \<longleftrightarrow>
     list_all (act_ok na) as \<and> sz + length (concat (map (act_enc na) as)) < 65536"

fun instr_ok :: "netaddr \<Rightarrow> of_instr \<Rightarrow> bool" where
  "instr_ok na (OFPInstructionGotoTable t) \<longleftrightarrow> fits 1 t"
| "instr_ok na (OFPInstructionWriteMetadata m k) \<longleftrightarrow> fits 8 m \<and> fits 8 k"
| "instr_ok na (OFPInstructionActions t as) \<longleftrightarrow>
     t \<in> {OFPIT_WRITE_ACTIONS, OFPIT_APPLY_ACTIONS, OFPIT_CLEAR_ACTIONS} \<and> actions_len_ok na 8 as"
| "instr_ok na (OFPInstructionMeter m) \<longleftrightarrow> fits 4 m"
| "instr_ok na (OFPInstructionInSwitchPktGen p as) \<longleftrightarrow> False"

fun instr_enc :: "netaddr \<Rightarrow> of_instr \<Rightarrow> bytes" where
  "instr_enc na (OFPInstructionGotoTable t) = packed OFP_INSTRUCTION_GOTO_TABLE_PACK_STR [1, 8, t]"
| "instr_enc na (OFPInstructionWriteMetadata m k) =
     packed OFP_INSTRUCTION_WRITE_METADATA_PACK_STR [2, 24, m, k]"
| "instr_enc na (OFPInstructionActions t as) =
     packed OFP_INSTRUCTION_ACTIONS_PACK_STR [t, int (8 + length (concat (map (act_enc na) as)))]
       @ concat (map (act_enc na) as)"
| "instr_enc na (OFPInstructionMeter m) = packed OFP_INSTRUCTION_METER_PACK_STR [6, 8, m]"
| "instr_enc na (OFPInstructionInSwitchPktGen p as) =
     packed OFP_INSTRUCTION_INSWITCH_PKT_GEN_PACK_STR
       [OFPIT_EXPERIMENTER, int (24 + length (concat (map (act_enc na) as))), BEBA_EXPERIMENTER_ID,
        OFPIT_IN_SWITCH_PKT_GEN, p] @ concat (map (act_enc na) as)"

definition bucket_ok :: "netaddr \<Rightarrow> of_bucket \<Rightarrow> bool" where
  "bucket_ok na b \<longleftrightarrow>
     fits 2 (b_weight b) \<and> fits 4 (b_watch_port b) \<and> fits 4 (b_watch_group b) \<and>
     actions_len_ok na 16 (b_actions b)"

definition bucket_enc :: "netaddr \<Rightarrow> of_bucket \<Rightarrow> bytes" where
  "bucket_enc na b =
     (let E = concat (map (act_enc na) (b_actions b))
      in packed OFP_BUCKET_PACK_STR [int (16 + length E), b_weight b, b_watch_port b, b_watch_group b] @ E)"

section \<open>Actions behind a header\<close>

lemma act_enc_dvd: "list_all (act_ok na) as \<Longrightarrow> 8 dvd length (concat (map (act_enc na) as))"
  using act_ok_wire by (intro dvd_concat) (auto simp: list_all_iff act_wire_def)

lemma actions_instr_serialize_ok:
  assumes ok: "actions_len_ok na sz as" and b: "length buf \<le> offset"
    and sz: "calcsize f = sz" "8 dvd sz" "0 < sz"
    and p: "packable f (vals (int (sz + length (concat (map (act_enc na) as)))))"
  defines "E \<equiv> concat (map (act_enc na) as)"
  defines "h \<equiv> packed f (vals (int (sz + length E)))"
  shows "actions_instr_serialize na sz f vals as buf offset = Inr (grow offset buf @ h @ E, sz + length E)"
proof -
  have as: "list_all (act_ok na) as" using ok by (simp add: actions_len_ok_def)
  define buf1 where "buf1 = (if as = [] then buf else grow (offset + sz) buf @ E)"
  have s: "ser_list (action_serialize na) as buf (offset + sz) = Inr (buf1, offset + sz + length E)"
    using act.ser_list_ok [OF as, of buf "offset + sz"] b by (simp add: buf1_def E_def)
  have r: "round_up (sz + length E) 8 = sz + length E"
    using sz act_enc_dvd [OF as] by (simp add: round_up_8_id E_def)
  have g: "pack_at [] (offset + sz + length E) buf1 = grow (offset + sz) buf @ E"
    using b by (auto simp: buf1_def E_def pack_at_append)
  have "pack_at h offset (grow (offset + sz) buf @ E) = grow offset buf @ h @ E"
    by (rule pack_at_header) (use b sz in \<open>simp_all add: h_def\<close>)
  with s r g p show ?thesis
    by (simp add: actions_instr_serialize_def Let_def msg_pack_into_eq h_def E_def)
qed

lemma actions_par:
  assumes "actions_len_ok na sz as" and "length h = sz"
  shows "par_loop (OFPAction_parser na) (pre @ h @ concat (map (act_enc na) as) @ post) (length pre + sz)
           (length (concat (map (act_enc na) as))) = Inr as"
  using act.par_loop_ok [of na as "pre @ h" post] assms by (simp add: actions_len_ok_def)

section \<open>Instructions\<close>

lemma instr_enc_len: "instr_ok na i \<Longrightarrow> 8 dvd length (instr_enc na i) \<and> instr_enc na i \<noteq> []"
  using act_enc_dvd by (cases i) (auto simp: actions_len_ok_def)

lemma unpack_type_len:
  assumes "fits 2 t" and "fits 2 l"
  shows "unpack_from [fH, fH] (pre @ be_bytes 2 t @ be_bytes 2 l @ rest) (length pre) = Inr [t, l]"
  using unpack_from_packed [of "[fH, fH]" "[t, l]" "length pre" pre rest] assms by simp

interpretation instr: wire_codec "instr_serialize na" "OFPInstruction_parser na" "instr_ok na" "instr_enc na"
  for na
proof
  fix i buf offset pre post
  assume ok: "instr_ok na i"
  show "instr_enc na i \<noteq> []" using instr_enc_len [OF ok] by simp
  show "instr_serialize na i buf offset = Inr (grow offset buf @ instr_enc na i, length (instr_enc na i))"
    if b: "length buf \<le> offset"
  proof (cases i)
    case (OFPInstructionActions t as)
    with ok have "packable OFP_INSTRUCTION_ACTIONS_PACK_STR [t, int (8 + length (concat (map (act_enc na) as)))]"
      by (auto simp: fmt_defs fits_def actions_len_ok_def)
    with OFPInstructionActions ok b show ?thesis
      using actions_instr_serialize_ok [of na 8 as buf offset OFP_INSTRUCTION_ACTIONS_PACK_STR "\<lambda>len. [t, len]"]
      by (simp add: OFPInstructionActions_serialize_def)
  qed (use ok b in \<open>auto simp: OFPInstructionGotoTable_serialize_def OFPInstructionWriteMetadata_serialize_def
        OFPInstructionMeter_serialize_def msg_pack_into_eq pack_at_append fmt_defs fits_def\<close>)
  show "OFPInstruction_parser na (pre @ instr_enc na i @ post) (length pre) = Inr (i, length (instr_enc na i))"
  proof (cases i)
    case (OFPInstructionActions t as)
    let ?E = "concat (map (act_enc na) as)"
    let ?h = "packed OFP_INSTRUCTION_ACTIONS_PACK_STR [t, int (8 + length ?E)]"
    have ft: "fits 2 t" "fits 2 (int (8 + length ?E))" and t: "t = 3 \<or> t = 4 \<or> t = 5"
      and al: "actions_len_ok na 8 as"
      using ok OFPInstructionActions by (auto simp: fits_def actions_len_ok_def)
    have u: "unpack_from [fH, fH] (pre @ ?h @ ?E @ post) (length pre) = Inr [t, int (8 + length ?E)]"
      using unpack_type_len [OF ft, of pre "zeros 4 @ ?E @ post"] by (simp add: fmt_defs)
    have u2: "unpack_from OFP_INSTRUCTION_ACTIONS_PACK_STR (pre @ ?h @ ?E @ post) (length pre)
        = Inr [t, int (8 + length ?E)]"
      by (rule unpack_from_packed) (use ft in \<open>simp_all add: fmt_defs\<close>)
    have "par_loop (OFPAction_parser na) (pre @ ?h @ ?E @ post) (length pre + 8) (length ?E) = Inr as"
      by (rule actions_par [OF al]) simp
    with u u2 t OFPInstructionActions show ?thesis
      by (auto simp: OFPInstruction_parser_def OFPInstructionActions_parser_def nat_add_distrib)
  next
    case (OFPInstructionGotoTable t)
    with ok have f: "fits 2 1" "fits 2 8" "packable OFP_INSTRUCTION_GOTO_TABLE_PACK_STR [1, 8, t]"
      by (auto simp: fmt_defs fits_def)
    from unpack_type_len [OF f(1,2), of pre "be_bytes 1 t @ zeros 3 @ post"]
      unpack_from_packed [OF f(3) refl, of pre post] OFPInstructionGotoTable
    show ?thesis by (simp add: OFPInstruction_parser_def OFPInstructionGotoTable_parser_def fmt_defs)
  next
    case (OFPInstructionWriteMetadata m k)
    with ok have f: "fits 2 2" "fits 2 24" "packable OFP_INSTRUCTION_WRITE_METADATA_PACK_STR [2, 24, m, k]"
      by (auto simp: fmt_defs fits_def)
    from unpack_type_len [OF f(1,2), of pre "zeros 4 @ be_bytes 8 m @ be_bytes 8 k @ post"]
      unpack_from_packed [OF f(3) refl, of pre post] OFPInstructionWriteMetadata
    show ?thesis by (simp add: OFPInstruction_parser_def OFPInstructionWriteMetadata_parser_def fmt_defs)
  next
    case (OFPInstructionMeter m)
    with ok have f: "fits 2 6" "fits 2 8" "packable OFP_INSTRUCTION_METER_PACK_STR [6, 8, m]"
      by (auto simp: fmt_defs fits_def)
    from unpack_type_len [OF f(1,2), of pre "be_bytes 4 m @ post"]
      unpack_from_packed [OF f(3) refl, of pre post] OFPInstructionMeter
    show ?thesis by (simp add: OFPInstruction_parser_def OFPInstructionMeter_parser_def fmt_defs)
  qed (use ok in simp)
qed

section \<open>Buckets\<close>

interpretation bucket: wire_codec "OFPBucket_serialize na" "OFPBucket_parser na" "bucket_ok na" "bucket_enc na"
  for na
proof
  fix b buf offset pre post
  assume ok: "bucket_ok na b"
  define E where "E = concat (map (act_enc na) (b_actions b))"
  define h where "h = packed OFP_BUCKET_PACK_STR [int (16 + length E), b_weight b, b_watch_port b, b_watch_group b]"
  have enc: "bucket_enc na b = h @ E" by (simp add: bucket_enc_def E_def h_def Let_def)
  have al: "actions_len_ok na 16 (b_actions b)" and as: "list_all (act_ok na) (b_actions b)"
    using ok by (auto simp: bucket_ok_def actions_len_ok_def)
  have p: "packable OFP_BUCKET_PACK_STR [int (16 + length E), b_weight b, b_watch_port b, b_watch_group b]"
    using ok by (auto simp: bucket_ok_def actions_len_ok_def fmt_defs fits_def E_def)
  have lh: "length h = 16" by (simp add: h_def)
  show "bucket_enc na b \<noteq> []" by (simp add: enc h_def)
  show "OFPBucket_serialize na b buf offset = Inr (grow offset buf @ bucket_enc na b, length (bucket_enc na b))"
    if b: "length buf \<le> offset"
  proof -
    define buf1 where "buf1 = (if b_actions b = [] then buf else grow (offset + 16) buf @ E)"
    have s: "ser_list (action_serialize na) (b_actions b) buf (offset + 16) = Inr (buf1, offset + 16 + length E)"
      using act.ser_list_ok [OF as, of buf "offset + 16"] b by (simp add: buf1_def E_def)
    have r: "round_up (16 + length E) 8 = 16 + length E"
      using act_enc_dvd [OF as] by (simp add: round_up_8_id E_def)
    have "pack_at h offset buf1 = grow offset buf @ h @ E"
    proof (cases "b_actions b = []")
      case True
      then show ?thesis using b by (simp add: buf1_def E_def pack_at_append)
    next
      case False
      have "pack_at h offset (grow (offset + 16) buf @ E) = grow offset buf @ h @ E"
        by (rule pack_at_header) (use b lh in \<open>auto simp: h_def\<close>)
      with False show ?thesis by (simp add: buf1_def)
    qed
    with s r p lh show ?thesis
      by (simp add: OFPBucket_serialize_def Let_def msg_pack_into_eq enc) (simp add: h_def)
  qed
  have "unpack_from OFP_BUCKET_PACK_STR (pre @ h @ E @ post) (length pre)
      = Inr [int (16 + length E), b_weight b, b_watch_port b, b_watch_group b]"
    unfolding h_def by (rule unpack_from_packed [OF p refl])
  moreover have "par_loop (OFPAction_parser na) (pre @ h @ E @ post) (length pre + 16) (length E) = Inr (b_actions b)"
    unfolding E_def by (rule actions_par [OF al lh])
  ultimately show "OFPBucket_parser na (pre @ bucket_enc na b @ post) (length pre) = Inr (b, length (bucket_enc na b))"
    using lh by (simp add: OFPBucket_parser_def enc nat_add_distrib)
qed

section \<open>Properties\<close>

text \<open>
  C14. A non-empty list of well-formed instructions (goto-table,
  write-metadata, meter and the three action instructions with any well-formed actions) is
  written as a multiple of eight bytes and read back by the parsing loop from inside any message.
\<close>

theorem instr_list_roundtrip:
  assumes "list_all (instr_ok na) is" and "is \<noteq> []"
  shows "\<exists>bs. 8 dvd length bs \<and>
           (\<forall>buf offset. length buf \<le> offset \<longrightarrow>
              ser_list (instr_serialize na) is buf offset = Inr (grow offset buf @ bs, offset + length bs)) \<and>
           (\<forall>pre post. par_loop (OFPInstruction_parser na) (pre @ bs @ post) (length pre) (length bs) = Inr is)"
proof -
  have "8 dvd length (concat (map (instr_enc na) is))"
    using assms(1) instr_enc_len by (intro dvd_concat) (auto simp: list_all_iff)
  with instr.ser_list_ok [OF assms(1)] instr.par_loop_ok [OF assms(1)] assms(2) show ?thesis by auto
qed

theorem instr_list_roundtrip_witness:
  "\<exists>bs. 8 dvd length bs \<and>
      (\<forall>buf offset. length buf \<le> offset \<longrightarrow>
         ser_list (instr_serialize netaddr_raw) [OFPInstructionActions 3 [], OFPInstructionWriteMetadata 5 255,
             OFPInstructionGotoTable 2] buf offset = Inr (grow offset buf @ bs, offset + length bs)) \<and>
      (\<forall>pre post. par_loop (OFPInstruction_parser netaddr_raw) (pre @ bs @ post) (length pre) (length bs) =
         Inr [OFPInstructionActions 3 [], OFPInstructionWriteMetadata 5 255, OFPInstructionGotoTable 2])"
  by (rule instr_list_roundtrip) (simp_all add: fits_def actions_len_ok_def)

text \<open>
  C20. The parser of the BEBA in-switch packet generation instruction
  never returns: it unpacks five values into four names, so a buffer long enough for the fixed
  part raises \<open>ValueError\<close>, and a shorter one \<open>struct.error\<close>.
\<close>

theorem pktgen_parser_rejects:
  "InSwitchPktGen_parser na buf offset = Inl (if offset + 24 \<le> length buf then ValueError else StructError)"
  by (simp add: InSwitchPktGen_parser_def unpack_from_def fmt_defs)

end
