(* ===== verification/OF13_Msg_Codec.thy ===== *)
theory OF13_Msg_Codec
  imports OF13_Msg OF13_Instr_Codec
begin

text \<open>
  Correctness of the messages: every serialised message carries the right header; flow-mod,
  group-mod, packet-out and experimenter messages decode to what was encoded, using the
  contracts of matches, instructions, buckets and actions; hello, packet-in and experimenter
  multipart replies parse to what is on the wire. Two theorems record what the code does outside
  its contract: packet-out without actions, and experimenter replies of unlucky length.
\<close>

section \<open>Vocabulary\<close>

abbreviation xid_of :: "int option \<Rightarrow> int" where
  "xid_of xid \<equiv> (case xid of None \<Rightarrow> 0 | Some x \<Rightarrow> x)"

text \<open>Hello elements on the wire.\<close>

definition hello_elem_enc :: "int list \<Rightarrow> bytes" where
  "hello_elem_enc bitmaps =
     packed OFP_HELLO_ELEM_VERSIONBITMAP_HEADER_PACK_STR [OFPHET_VERSIONBITMAP, int (4 + 4 * length bitmaps)]
       @ concat (map (be_bytes 4) bitmaps)"

definition hello_elem_of :: "int list \<Rightarrow> hello_elem" where
  "hello_elem_of bitmaps =
     \<lparr>he_versions = bitmap_versions bitmaps, he_length = 4 + 4 * length bitmaps, he_bitmaps = bitmaps\<rparr>"

definition bitmaps_ok :: "int list \<Rightarrow> bool" where
  "bitmaps_ok bs \<longleftrightarrow> list_all (fits 4) bs \<and> length bs < 16383"

definition match_ok :: "netaddr \<Rightarrow> of_match \<Rightarrow> bool" where
  "match_ok na m \<longleftrightarrow> list_all (kv_ok na) (m_fields2 m) \<and> \<not> composed_with_old_api m \<and>
     4 + length (concat (map (kv_enc na) (m_fields2 m))) < 65536"

definition flow_mod_fields :: "flow_mod \<Rightarrow> int list" where
  "flow_mod_fields fm =
     [fm_cookie fm, fm_cookie_mask fm, fm_table_id fm, fm_command fm, fm_idle_timeout fm,
      fm_hard_timeout fm, fm_priority fm, fm_buffer_id fm, fm_out_port fm, fm_out_group fm, fm_flags fm]"

definition flow_mod_ok :: "netaddr \<Rightarrow> flow_mod \<Rightarrow> bool" where
  "flow_mod_ok na fm \<longleftrightarrow>
     packable OFP_FLOW_MOD_PACK_STR0 (flow_mod_fields fm) \<and> match_ok na (fm_match fm) \<and>
     list_all (instr_ok na) (fm_instructions fm) \<and>
     48 + length (match_enc na (m_fields2 (fm_match fm)))
        + length (concat (map (instr_enc na) (fm_instructions fm))) < 65536"

definition group_mod_ok :: "netaddr \<Rightarrow> group_mod \<Rightarrow> bool" where
  "group_mod_ok na gm \<longleftrightarrow>
     fits 2 (gm_command gm) \<and> fits 1 (gm_type gm) \<and> fits 4 (gm_group_id gm) \<and>
     list_all (bucket_ok na) (gm_buckets gm) \<and>
     16 + length (concat (map (bucket_enc na) (gm_buckets gm))) < 65536"

text \<open>The loop of the multipart reply over experimenter entries: a new entry every 16 bytes.\<close>

definition exp_entry :: "bytes \<Rightarrow> nat \<Rightarrow> experimenter_msg" where
  "exp_entry buf offset =
     (let vs = unpack_items OFP_EXPERIMENTER_MULTIPART_HEADER_PACK_STR (slice offset (offset + 8) buf)
      in \<lparr>em_experimenter = vs ! 0, em_exp_type = vs ! 1, em_data = drop (offset + 8) buf\<rparr>)"

definition exp_entries :: "bytes \<Rightarrow> nat \<Rightarrow> nat \<Rightarrow> (experimenter_msg + 'b) list" where
  "exp_entries buf offset n = map (\<lambda>k. Inl (exp_entry buf (offset + 16 * k))) [0..<(n + 15) div 16]"

definition sample_fm :: flow_mod where
  "sample_fm =
     \<lparr>fm_cookie = 0, fm_cookie_mask = 0, fm_table_id = 1, fm_command = 0, fm_idle_timeout = 0,
      fm_hard_timeout = 0, fm_priority = 32768, fm_buffer_id = 0xffffffff, fm_out_port = 0, fm_out_group = 0,
      fm_flags = 0,
      fm_match = empty_match\<lparr>m_fields2 := [(''in_port'', UV (Some (VInt 1))), (''state'', UV (Some (VInt 7)))]\<rparr>,
      fm_instructions = [OFPInstructionActions 4 [OFPActionOutput 2 65535], OFPInstructionGotoTable 3]\<rparr>"

section \<open>Lemmas\<close>

text \<open>A body that leaves room for the header and appends \<open>b\<close>.\<close>

lemma msg_serialize_ok:
  assumes "body (zeros 8) = Inr (zeros 8 @ b)" and "fits 1 t" and "fits 4 (xid_of xid)" and "8 + length b < 65536"
  obtains h where "length h = 8" and "msg_serialize t xid body = Inr (h @ b)"
    and "ofp_header (h @ b) = Inr [4, t, int (8 + length b), xid_of xid]"
proof -
  define h where "h = packed OFP_HEADER_PACK_STR [4, t, int (8 + length b), xid_of xid]"
  have p: "packable OFP_HEADER_PACK_STR [4, t, int (8 + length b), xid_of xid]"
    using assms(2-4) by (auto simp: fmt_defs fits_def)
  have lh: "length h = 8" by (simp add: h_def)
  moreover have "msg_serialize t xid body = Inr (h @ b)"
    using p assms(1)
    by (simp add: msg_serialize_def serialize_pre_def serialize_header_def struct_pack_eq overwrite_def h_def)
  moreover have "unpack_from OFP_HEADER_PACK_STR (h @ b) 0 = Inr [4, t, int (8 + length b), xid_of xid]"
    unfolding h_def using p by (rule unpack_from_packed0)
  moreover have "OFP_HEADER_SIZE \<le> length (h @ b)" using lh by simp
  ultimately show thesis by (intro that [of h]) (simp_all add: ofp_header_def)
qed

lemma msg_serialize_wire:
  assumes s: "msg_serialize msg_type xid body = Inr buf"
  shows "ofp_header buf = Inr [4, msg_type, int (length buf), xid_of xid] \<and>
    (\<exists>buf0. body serialize_pre = Inr buf0 \<and> length buf0 = length buf \<and> drop 8 buf0 = drop 8 buf)"
proof (intro conjI)
  let ?x = "xid_of xid"
  from s obtain buf0 where b: "body serialize_pre = Inr buf0" and h: "serialize_header msg_type xid buf0 = Inr buf"
    by (auto simp: msg_serialize_def rbind_eq_Inr)
  define w where "w = packed OFP_HEADER_PACK_STR [4, msg_type, int (length buf0), ?x]"
  from h have l: "8 \<le> length buf0" and p: "packable OFP_HEADER_PACK_STR [4, msg_type, int (length buf0), ?x]"
    and buf: "buf = w @ drop 8 buf0"
    by (auto simp: serialize_header_def struct_pack_eq rbind_eq_Inr rassert_def overwrite_def w_def split: if_splits)
  have lw: "length w = 8" by (simp add: w_def)
  have len: "length buf = length buf0" using buf l lw by simp
  have "unpack_from OFP_HEADER_PACK_STR buf 0 = Inr [4, msg_type, int (length buf0), ?x]"
    unfolding buf w_def using p by (rule unpack_from_packed0)
  then show "ofp_header buf = Inr [4, msg_type, int (length buf), ?x]"
    using l len by (simp add: ofp_header_def)
  show "\<exists>buf0. body serialize_pre = Inr buf0 \<and> length buf0 = length buf \<and> drop 8 buf0 = drop 8 buf"
    using b buf len lw by auto
qed

theorem msg_serialize_header:
  assumes s: "msg_serialize msg_type xid body = Inr buf"
  shows "ofp_header buf = Inr [4, msg_type, int (length buf), xid_of xid] \<and>
    (\<exists>buf0. body serialize_pre = Inr buf0 \<and> length buf0 = length buf \<and> drop 8 buf0 = drop 8 buf)"
  using s by (rule msg_serialize_wire)

lemma bitmap_versions_set:
  "v \<in> set (bitmap_versions bs) \<longleftrightarrow>
     v div 32 < length bs \<and> v mod 32 \<noteq> 31 \<and> bit (bs ! (v div 32)) (v mod 32)"
proof -
  have b: "b AND 2 ^ s \<noteq> 0 \<longleftrightarrow> bit b s" for b :: int and s
    using bit_iff_and_push_bit_not_eq_0 [of b s] by simp
  have "v \<in> set (bitmap_versions bs) \<longleftrightarrow>
      (\<exists>i b. (i, b) \<in> set (enumerate 0 bs) \<and> (\<exists>s. s < 31 \<and> bit b s \<and> v = i * 32 + s))"
    by (simp add: bitmap_versions_def b) auto
  also have "\<dots> \<longleftrightarrow> (\<exists>i s. i < length bs \<and> s < 31 \<and> bit (bs ! i) s \<and> v = i * 32 + s)"
    by (auto simp: in_set_enumerate_eq)
  also have "\<dots> \<longleftrightarrow> v div 32 < length bs \<and> v mod 32 \<noteq> 31 \<and> bit (bs ! (v div 32)) (v mod 32)"
  proof
    assume a: "v div 32 < length bs \<and> v mod 32 \<noteq> 31 \<and> bit (bs ! (v div 32)) (v mod 32)"
    have "v mod 32 < 32" by simp
    with a have "v mod 32 < 31" by linarith
    with a show "\<exists>i s. i < length bs \<and> s < 31 \<and> bit (bs ! i) s \<and> v = i * 32 + s"
      by (intro exI [of _ "v div 32"] exI [of _ "v mod 32"]) simp
  qed auto
  finally show ?thesis .
qed

lemma read_bitmaps_ok:
  assumes "list_all (fits 4) bs"
  shows "read_bitmaps (pre @ concat (map (be_bytes 4) bs) @ post) (length pre) (length bs) = Inr bs"
  using assms
proof (induction bs arbitrary: pre)
  case (Cons b bs)
  let ?tl = "concat (map (be_bytes 4) bs)"
  have "unpack_from [fI] (pre @ packed [fI] [b] @ ?tl @ post) (length pre) = Inr [b]"
    by (rule unpack_from_packed) (use Cons.prems in simp_all)
  moreover have "read_bitmaps ((pre @ be_bytes 4 b) @ ?tl @ post) (length (pre @ be_bytes 4 b)) (length bs) = Inr bs"
    using Cons.prems by (intro Cons.IH) simp
  ultimately show ?case by simp
qed simp

lemma hello_elem_parser_ok:
  assumes "bitmaps_ok bs"
  shows "OFPHelloElemVersionBitmap_parser (pre @ hello_elem_enc bs @ post) (length pre) = Inr (hello_elem_of bs)"
    and "unpack_from OFP_HELLO_ELEM_HEADER_PACK_STR (pre @ hello_elem_enc bs @ post) (length pre)
           = Inr [1, int (4 + 4 * length bs)]"
proof -
  define h where "h = packed OFP_HELLO_ELEM_VERSIONBITMAP_HEADER_PACK_STR [1, int (4 + 4 * length bs)]"
  have enc: "hello_elem_enc bs = h @ concat (map (be_bytes 4) bs)" by (simp add: hello_elem_enc_def h_def)
  have f: "packable OFP_HELLO_ELEM_VERSIONBITMAP_HEADER_PACK_STR [1, int (4 + 4 * length bs)]"
    using assms by (auto simp: bitmaps_ok_def fmt_defs fits_def)
  have u: "unpack_from OFP_HELLO_ELEM_VERSIONBITMAP_HEADER_PACK_STR (pre @ hello_elem_enc bs @ post) (length pre)
      = Inr [1, int (4 + 4 * length bs)]"
    unfolding enc h_def append_assoc by (rule unpack_from_packed [OF f refl])
  then show "unpack_from OFP_HELLO_ELEM_HEADER_PACK_STR (pre @ hello_elem_enc bs @ post) (length pre)
           = Inr [1, int (4 + 4 * length bs)]"
    by (simp add: fmt_defs)
  have "length (pre @ h) = length pre + 4" by (simp add: h_def)
  then have "read_bitmaps (pre @ hello_elem_enc bs @ post) (length pre + 4) (length bs) = Inr bs"
    using read_bitmaps_ok [of bs "pre @ h" post] assms by (simp add: bitmaps_ok_def enc)
  with u show "OFPHelloElemVersionBitmap_parser (pre @ hello_elem_enc bs @ post) (length pre) = Inr (hello_elem_of bs)"
    by (simp add: OFPHelloElemVersionBitmap_parser_def hello_elem_of_def nat_add_distrib nat_mult_distrib)
qed

lemma length_hello_elem_enc [simp]: "length (hello_elem_enc bs) = 4 + 4 * length bs"
proof -
  have "length (concat (map (be_bytes 4) bs)) = 4 * length bs" by (induction bs) auto
  then show ?thesis by (simp add: hello_elem_enc_def)
qed

lemma hello_elems_ok:
  assumes "list_all bitmaps_ok bss"
  shows "hello_elems (pre @ concat (map hello_elem_enc bss)) (length (pre @ concat (map hello_elem_enc bss))) (length pre)
         = Inr (map hello_elem_of bss)"
  using assms
proof (induction bss arbitrary: pre)
  case Nil
  then show ?case by (simp add: hello_elems.simps)
next
  case (Cons bs bss)
  let ?tl = "concat (map hello_elem_enc bss)"
  have ok: "bitmaps_ok bs" using Cons.prems by simp
  have "hello_elems ((pre @ hello_elem_enc bs) @ ?tl) (length ((pre @ hello_elem_enc bs) @ ?tl))
      (length (pre @ hello_elem_enc bs)) = Inr (map hello_elem_of bss)"
    using Cons.prems by (intro Cons.IH) simp
  then have "hello_elems (pre @ hello_elem_enc bs @ ?tl) (length pre + (4 + 4 * length bs + length ?tl))
      (length pre + (4 + 4 * length bs)) = Inr (map hello_elem_of bss)"
    by (simp add: add.assoc)
  with hello_elem_parser_ok [OF ok, of pre ?tl] show ?case
    by (subst hello_elems.simps) (simp add: nat_add_distrib nat_mult_distrib)
qed

lemma flow_mod_body_ok:
  assumes ok: "flow_mod_ok na fm"
  shows "OFPFlowMod_body na fm (zeros 8) =
     Inr (zeros 8 @ packed OFP_FLOW_MOD_PACK_STR0 (flow_mod_fields fm) @ match_enc na (m_fields2 (fm_match fm))
            @ concat (map (instr_enc na) (fm_instructions fm)))"
proof -
  define w where "w = packed OFP_FLOW_MOD_PACK_STR0 (flow_mod_fields fm)"
  define M where "M = match_enc na (m_fields2 (fm_match fm))"
  define I where "I = concat (map (instr_enc na) (fm_instructions fm))"
  have p: "packable OFP_FLOW_MOD_PACK_STR0 (flow_mod_fields fm)" and il: "list_all (instr_ok na) (fm_instructions fm)"
    using ok by (auto simp: flow_mod_ok_def)
  have lw: "length w = 40" by (simp add: w_def)
  obtain m' where m: "match_serialize na (fm_match fm) (zeros 8 @ w) 48 = Inr (m', (zeros 8 @ w) @ M, length M)"
    using match_serialize_ok [of na "fm_match fm" "zeros 8 @ w" 48] ok lw
    by (auto simp: flow_mod_ok_def match_ok_def M_def)
  have i: "ser_list (instr_serialize na) (fm_instructions fm) ((zeros 8 @ w) @ M) (48 + length M)
      = Inr ((zeros 8 @ w) @ M @ I, 48 + length M + length I)"
    using instr.ser_list_ok [OF il, of "(zeros 8 @ w) @ M" "48 + length M"] lw by (simp add: I_def)
  have "msg_pack_into OFP_FLOW_MOD_PACK_STR0 (zeros 8) 8 (flow_mod_fields fm) = Inr (zeros 8 @ w)"
    using p by (simp add: msg_pack_into_eq pack_at_append w_def)
  with m i show ?thesis
    unfolding OFPFlowMod_body_def by (simp flip: flow_mod_fields_def w_def M_def I_def)
qed

theorem group_mod_decodes:
  assumes ok: "group_mod_ok na gm" and x: "fits 4 (xid_of xid)"
  shows "\<exists>buf. msg_serialize OFPT_GROUP_MOD xid (OFPGroupMod_body na gm) = Inr buf \<and>
     ofp_header buf = Inr [4, OFPT_GROUP_MOD, int (length buf), xid_of xid] \<and>
     unpack_from OFP_GROUP_MOD_PACK_STR buf 8 = Inr [gm_command gm, gm_type gm, gm_group_id gm] \<and>
     par_loop (OFPBucket_parser na) buf 16 (length buf - 16) = Inr (gm_buckets gm)"
proof -
  define w where "w = packed OFP_GROUP_MOD_PACK_STR [gm_command gm, gm_type gm, gm_group_id gm]"
  define I where "I = concat (map (bucket_enc na) (gm_buckets gm))"
  have lw: "length w = 8" by (simp add: w_def)
  have p: "packable OFP_GROUP_MOD_PACK_STR [gm_command gm, gm_type gm, gm_group_id gm]"
    and bl: "list_all (bucket_ok na) (gm_buckets gm)"
    using ok by (auto simp: group_mod_ok_def fmt_defs)
  have "ser_list (OFPBucket_serialize na) (gm_buckets gm) (zeros 8 @ w) 16 = Inr (zeros 8 @ w @ I, 16 + length I)"
    using bucket.ser_list_ok [OF bl, of "zeros 8 @ w" 16] lw by (simp add: I_def)
  moreover have "msg_pack_into OFP_GROUP_MOD_PACK_STR (zeros 8) 8 [gm_command gm, gm_type gm, gm_group_id gm]
      = Inr (zeros 8 @ w)"
    using p by (simp add: msg_pack_into_eq pack_at_append w_def)
  ultimately have "OFPGroupMod_body na gm (zeros 8) = Inr (zeros 8 @ w @ I)"
    by (simp add: OFPGroupMod_body_def)
  then obtain h where lh: "length h = 8"
    and s: "msg_serialize OFPT_GROUP_MOD xid (OFPGroupMod_body na gm) = Inr (h @ w @ I)"
    and 1: "ofp_header (h @ w @ I) = Inr [4, OFPT_GROUP_MOD, int (8 + length (w @ I)), xid_of xid]"
    by (rule msg_serialize_ok [where t = OFPT_GROUP_MOD and xid = xid])
      (use x ok lw in \<open>auto simp: group_mod_ok_def I_def fits_def\<close>)
  have 2: "unpack_from OFP_GROUP_MOD_PACK_STR (h @ w @ I) 8 = Inr [gm_command gm, gm_type gm, gm_group_id gm]"
    unfolding w_def by (rule unpack_from_packed [OF p]) (simp add: lh)
  have "par_loop (OFPBucket_parser na) (h @ w @ I) 16 (length I) = Inr (gm_buckets gm)"
    using bucket.par_loop_ok [OF bl, of "h @ w" "[]"] lw lh by (simp add: I_def)
  with s 1 2 lw lh show ?thesis by (intro exI [of _ "h @ w @ I"]) simp
qed

lemma length_8_cases: "calcsize OFP_PACKET_OUT_PACK_STR = 16"
  by (simp add: fmt_defs)

lemma pack_at_over:
  assumes "length pre = offset" and "d \<noteq> []"
  shows "pack_at p offset (pre @ d) = pre @ p @ drop (length p) d"
proof -
  have "grow (offset + length p) (pre @ d) = pre @ grow (length p) d"
    using assms by (simp add: grow_def)
  moreover have "drop (length p) (grow (length p) d) = drop (length p) d"
    by (simp add: grow_def)
  ultimately show ?thesis using assms by (simp add: pack_at_def overwrite_def)
qed

theorem packet_out_decodes:
  assumes as: "list_all (act_ok na) actions" and ne: "actions \<noteq> []"
    and ip: "fits 4 in_port" and x: "fits 4 (xid_of xid)"
    and len: "24 + length (concat (map (act_enc na) actions)) + length data < 65536"
  shows "\<exists>buf. msg_serialize OFPT_PACKET_OUT xid (OFPPacketOut_body na 0xffffffff in_port actions (Some data)) = Inr buf \<and>
     ofp_header buf = Inr [4, OFPT_PACKET_OUT, int (length buf), xid_of xid] \<and>
     (\<exists>n. unpack_from OFP_PACKET_OUT_PACK_STR buf 8 = Inr [0xffffffff, in_port, int n] \<and>
          par_loop (OFPAction_parser na) buf 24 n = Inr actions \<and> drop (24 + n) buf = data)"
proof -
  define E where "E = concat (map (act_enc na) actions)"
  define w where "w = packed OFP_PACKET_OUT_PACK_STR [0xffffffff, in_port, int (length E)]"
  have p: "packable OFP_PACKET_OUT_PACK_STR [0xffffffff, in_port, int (length E)]"
    using ip len by (auto simp: fmt_defs fits_def E_def)
  have lw: "length w = 16" by (simp add: w_def fmt_defs)
  have s: "ser_list (action_serialize na) actions (zeros 8) 24 = Inr (grow 24 (zeros 8) @ E, 24 + length E)"
    using act.ser_list_ok [OF as, of "zeros 8" 24] ne by (simp add: E_def)
  have "pack_at w 8 (grow 24 (zeros 8) @ E @ data) = grow 8 (zeros 8) @ w @ E @ data"
    by (rule pack_at_header) (use lw in auto)
  with s p have "OFPPacketOut_body na 0xffffffff in_port actions (Some data) (zeros 8) = Inr (zeros 8 @ w @ E @ data)"
    by (simp add: OFPPacketOut_body_def msg_pack_into_eq w_def del: packed.simps)
  then obtain h where lh: "length h = 8"
    and m: "msg_serialize OFPT_PACKET_OUT xid (OFPPacketOut_body na 0xffffffff in_port actions (Some data)) = Inr (h @ w @ E @ data)"
    and 1: "ofp_header (h @ w @ E @ data) = Inr [4, OFPT_PACKET_OUT, int (8 + length (w @ E @ data)), xid_of xid]"
    by (rule msg_serialize_ok [where t = OFPT_PACKET_OUT and xid = xid])
      (use x len lw in \<open>auto simp: E_def fits_def\<close>)
  have 2: "unpack_from OFP_PACKET_OUT_PACK_STR (h @ w @ E @ data) 8 = Inr [0xffffffff, in_port, int (length E)]"
    unfolding w_def by (rule unpack_from_packed [OF p]) (simp add: lh)
  have 3: "par_loop (OFPAction_parser na) (h @ w @ E @ data) 24 (length E) = Inr actions"
    using act.par_loop_ok [OF as, of "h @ w" data] lw lh by (simp add: E_def)
  show ?thesis using m 1 2 3 lw lh
    by (intro exI [of _ "h @ w @ E @ data"] conjI exI [of _ "length E"]) simp_all
qed

lemma experimenter_msg_wire:
  assumes "fits 4 experimenter" and "fits 4 etype" and x: "fits 4 (xid_of xid)"
    and "16 + length data < 65536"
  shows "\<exists>buf. msg_serialize OFPT_EXPERIMENTER xid (OFPExperimenter_body experimenter etype (Some data)) = Inr buf \<and>
     ofp_header buf = Inr [4, OFPT_EXPERIMENTER, int (length buf), xid_of xid] \<and>
     OFPExperimenter_parser OFPT_EXPERIMENTER buf
       = Inr \<lparr>em_experimenter = experimenter, em_exp_type = etype, em_data = data\<rparr>"
proof -
  define w where "w = packed OFP_EXPERIMENTER_HEADER_PACK_STR [experimenter, etype]"
  have p: "packable OFP_EXPERIMENTER_HEADER_PACK_STR [experimenter, etype]"
    using assms by (simp add: fmt_defs)
  have lw: "length w = 8" by (simp add: w_def fmt_defs)
  have "OFPExperimenter_body experimenter etype (Some data) (zeros 8) = Inr (zeros 8 @ w @ data)"
    using p by (simp add: OFPExperimenter_body_def msg_pack_into_eq pack_at_append w_def)
  then obtain h where lh: "length h = 8"
    and m: "msg_serialize OFPT_EXPERIMENTER xid (OFPExperimenter_body experimenter etype (Some data)) = Inr (h @ w @ data)"
    and 1: "ofp_header (h @ w @ data) = Inr [4, OFPT_EXPERIMENTER, int (8 + length (w @ data)), xid_of xid]"
    by (rule msg_serialize_ok [where t = OFPT_EXPERIMENTER and xid = xid])
      (use assms lw in \<open>auto simp: fits_def\<close>)
  have "unpack_from OFP_EXPERIMENTER_HEADER_PACK_STR (h @ w @ data) 8 = Inr [experimenter, etype]"
    unfolding w_def by (rule unpack_from_packed [OF p]) (simp add: lh)
  with m 1 lw lh show ?thesis
    by (intro exI [of _ "h @ w @ data"]) (simp add: OFPExperimenter_parser_def MsgBase_parser_def)
qed

theorem experimenter_msg_roundtrip:
  assumes "fits 4 experimenter" and "fits 4 etype" and x: "fits 4 (xid_of xid)"
    and "16 + length data < 65536"
  shows "\<exists>buf. msg_serialize OFPT_EXPERIMENTER xid (OFPExperimenter_body experimenter etype (Some data)) = Inr buf \<and>
     ofp_header buf = Inr [4, OFPT_EXPERIMENTER, int (length buf), xid_of xid] \<and>
     OFPExperimenter_parser OFPT_EXPERIMENTER buf
       = Inr \<lparr>em_experimenter = experimenter, em_exp_type = etype, em_data = data\<rparr>"
  using assms by (rule experimenter_msg_wire)

lemma OFPExperimenterMultipart_parser_eq:
  "OFPExperimenterMultipart_parser buf offset =
     (if offset + 8 \<le> length buf then Inr (exp_entry buf offset, 16) else Inl StructError)"
  by (simp add: OFPExperimenterMultipart_parser_def unpack_from_def exp_entry_def fmt_defs Let_def)

lemma exp_entries_step:
  assumes "0 < n"
  shows "(exp_entries buf offset n :: (experimenter_msg + 'b) list) = Inl (exp_entry buf offset) # exp_entries buf (offset + 16) (n - 16)"
proof -
  have "(n + 15) div 16 = Suc ((n - 16 + 15) div 16)" using assms by (cases "n \<ge> 16") auto
  then show ?thesis
    by (simp add: exp_entries_def upt_conv_Cons map_Suc_upt [symmetric] add.assoc del: upt_Suc)
qed

lemma par_loop_experimenter_multipart:
  fixes buf
  defines "par \<equiv> (\<lambda>buf offset. rbind (OFPExperimenterMultipart_parser buf offset)
                     (\<lambda>(e, len). Inr (Inl e :: experimenter_msg + 'b, len)))"
  assumes "offset + n = length buf"
  shows "par_loop par buf offset n =
           (if 0 < n mod 16 \<and> n mod 16 < 8 then Inl StructError else Inr (exp_entries buf offset n))"
  using assms(2)
proof (induction n arbitrary: offset rule: less_induct)
  case (less n)
  consider "n = 0" | "0 < n" "n < 8" | "8 \<le> n" "n \<le> 16" | "16 < n" by linarith
  then show ?case
  proof cases
    case 1
    then show ?thesis by (simp add: par_loop.simps exp_entries_def)
  next
    case 2
    with less.prems show ?thesis
      by (subst par_loop.simps) (simp add: par_def OFPExperimenterMultipart_parser_eq)
  next
    case 3
    then have "n mod 16 = 0 \<or> 8 \<le> n mod 16" by (cases "n = 16") auto
    moreover have "exp_entries buf (offset + 16) (n - 16) = ([] :: (experimenter_msg + 'b) list)" using 3 by (simp add: exp_entries_def)
    ultimately show ?thesis using less.prems 3 exp_entries_step [of n buf offset, where 'b = 'b]
      by (subst par_loop.simps, subst par_loop.simps)
        (auto simp: par_def OFPExperimenterMultipart_parser_eq)
  next
    case 4
    then have m: "(n - 16) mod 16 = n mod 16" by (simp add: le_mod_geq)
    have "par_loop par buf (offset + 16) (n - 16) =
        (if 0 < (n - 16) mod 16 \<and> (n - 16) mod 16 < 8 then Inl StructError
         else Inr (exp_entries buf (offset + 16) (n - 16)))"
      using less.prems 4 by (intro less.IH) auto
    with m less.prems 4 exp_entries_step [of n buf offset, where 'b = 'b] show ?thesis
      by (subst par_loop.simps) (simp add: par_def OFPExperimenterMultipart_parser_eq)
  qed
qed

text \<open>dispatch\<close>

theorem ofproto_msg_total:
  "ofproto_msg MSG_PARSERS version msg_type msg_len xid buf =
     (if int (length buf) < msg_len then Inl AssertionError
      else case MSG_PARSERS version of
             None \<Rightarrow> Inl OFPUnknownVersion
           | Some p \<Rightarrow> if p version msg_type msg_len xid buf = Inl Diverges then Inl Diverges
                       else Inr (case p version msg_type msg_len xid buf of Inl _ \<Rightarrow> None | Inr m \<Rightarrow> Some m))"
  by (auto simp: ofproto_msg_def rassert_def split: option.splits sum.splits py_error.splits)

theorem hello_parser_versions:
  assumes "list_all bitmaps_ok bss" and "length hdr = 8"
  shows "OFPHello_parser OFPT_HELLO (int (length (hdr @ concat (map hello_elem_enc bss)))) (hdr @ concat (map hello_elem_enc bss))
         = Inr (map hello_elem_of bss) \<and>
     (\<forall>bs v. v \<in> set (he_versions (hello_elem_of bs)) \<longleftrightarrow>
        v div 32 < length bs \<and> v mod 32 \<noteq> 31 \<and> bit (bs ! (v div 32)) (v mod 32))"
  using hello_elems_ok [OF assms(1), of hdr] assms(2)
  by (simp add: OFPHello_parser_def MsgBase_parser_def hello_elem_of_def bitmap_versions_set nat_add_distrib)

lemma init_match_ok:
  assumes na: "netaddr_ok na" and i: "OFPMatch_init na kw = Inr m" and d: "distinct (map fst kw)"
    and kw: "\<And>k uv. (k, uv) \<in> set kw \<Longrightarrow> k \<in> oxm_name ` set oxm_types \<and> has_value uv"
  shows "match_ok na m"
proof -
  note ok = init_fields_ok [OF na i kw]
  have "length (map fst kw) \<le> 65" using kw d by (intro oxm_names_card) auto
  then have "4 + length (concat (map (kv_enc na) (m_fields2 m))) < 65536"
    using sum_kv_enc [OF ok(1)] ok(2) by simp
  then show ?thesis using ok by (simp add: match_ok_def)
qed

lemma sample_match_ok:
  "match_ok netaddr_raw (empty_match\<lparr>m_fields2 := [(''in_port'', UV (Some (VInt 1))), (''state'', UV (Some (VInt 7)))]\<rparr>)"
proof (rule init_match_ok [OF netaddr_ok_raw sample_match])
  show "k \<in> oxm_name ` set oxm_types \<and> has_value uv"
    if "(k, uv) \<in> set [(''state'', UV (Some (VInt 7))), (''in_port'', UV (Some (VInt 1)))]" for k uv
    using that state_info(3) in_port_info(3) by (auto simp: has_value_def simp del: image_iff)
qed simp

lemma match_enc_bound: "list_all (kv_ok na) xs \<Longrightarrow> length (match_enc na xs) < 12 + 42 * length xs"
  using sum_kv_enc [of na xs] round_up_8(2) [of "4 + length (concat (map (kv_enc na) xs))"]
  by (simp add: length_match_enc)

lemma sample_act_len: "length (act_enc na (OFPActionOutput 2 65535)) = 16"
  by (simp add: act_enc_def fixed_action_serialize_def act_cls_defs fmt_defs msg_pack_into_eq pack_at_append fits_def)

lemma sample_fm_ok: "flow_mod_ok netaddr_raw sample_fm"
proof -
  define M where "M = length (match_enc netaddr_raw [(''in_port'', UV (Some (VInt 1))), (''state'', UV (Some (VInt 7)))])"
  have "M < 96"
    using sample_match_ok match_enc_bound [of netaddr_raw "[(''in_port'', UV (Some (VInt 1))), (''state'', UV (Some (VInt 7)))]"]
    by (simp add: match_ok_def M_def)
  then have "48 + M + length (concat (map (instr_enc netaddr_raw) (fm_instructions sample_fm))) < 65536"
    by (simp add: sample_fm_def fmt_defs sample_act_len)
  with sample_match_ok show ?thesis
    by (simp add: flow_mod_ok_def sample_fm_def M_def flow_mod_fields_def fmt_defs fits_def actions_len_ok_def sample_act_len
        act_cls_defs)
qed

theorem group_mod_decodes_witness:
  "\<exists>buf. msg_serialize OFPT_GROUP_MOD None
       (OFPGroupMod_body netaddr_raw \<lparr>gm_command = 0, gm_type = 0, gm_group_id = 7,
          gm_buckets = [\<lparr>b_weight = 1, b_watch_port = 2, b_watch_group = 3, b_actions = [OFPActionOutput 2 65535]\<rparr>]\<rparr>) = Inr buf \<and>
     ofp_header buf = Inr [4, OFPT_GROUP_MOD, int (length buf), 0] \<and>
     unpack_from OFP_GROUP_MOD_PACK_STR buf 8 = Inr [0, 0, 7] \<and>
     par_loop (OFPBucket_parser netaddr_raw) buf 16 (length buf - 16) =
       Inr [\<lparr>b_weight = 1, b_watch_port = 2, b_watch_group = 3, b_actions = [OFPActionOutput 2 65535]\<rparr>]"
  using group_mod_decodes [of netaddr_raw "\<lparr>gm_command = 0, gm_type = 0, gm_group_id = 7,
          gm_buckets = [\<lparr>b_weight = 1, b_watch_port = 2, b_watch_group = 3, b_actions = [OFPActionOutput 2 65535]\<rparr>]\<rparr>" None]
  by (simp add: group_mod_ok_def bucket_ok_def bucket_enc_def Let_def actions_len_ok_def sample_act_len
      act_cls_defs fmt_defs fits_def)

theorem packet_in_parses:
  assumes m: "match_ok na m" and l: "length hdr = 8"
    and f: "packable OFP_PACKET_IN_PACK_STR [buffer_id, total_len, reason, table_id, cookie]"
    and b: "buf = hdr @ packed OFP_PACKET_IN_PACK_STR [buffer_id, total_len, reason, table_id, cookie]
                    @ match_enc na (m_fields2 m) @ [0, 0] @ frame"
  shows "\<exists>p. OFPPacketIn_parser na OFPT_PACKET_IN buf = Inr p \<and>
     pi_buffer_id p = buffer_id \<and> pi_total_len p = total_len \<and> pi_reason p = reason \<and>
     pi_table_id p = table_id \<and> pi_cookie p = cookie \<and> m_fields2 (pi_match p) = m_fields2 m \<and>
     pi_data p = take (nat total_len) frame"
proof -
  define w where "w = packed OFP_PACKET_IN_PACK_STR [buffer_id, total_len, reason, table_id, cookie]"
  define M where "M = match_enc na (m_fields2 m)"
  have lw: "length w = 16" by (simp add: w_def fmt_defs)
  have buf: "buf = hdr @ w @ M @ [0, 0] @ frame" by (simp add: b w_def M_def)
  have u: "unpack_from OFP_PACKET_IN_PACK_STR buf 8 = Inr [buffer_id, total_len, reason, table_id, cookie]"
    unfolding buf w_def by (rule unpack_from_packed [OF f]) (simp add: l)
  obtain m' where m': "m_fields2 m' = m_fields2 m"
      "m_length m' = Some (int (4 + length (concat (map (kv_enc na) (m_fields2 m)))))"
      "match_parser na ((hdr @ w) @ M @ [0, 0] @ frame) (length (hdr @ w)) = Inr m'"
    using match_parser_ok [of na "m_fields2 m"] m unfolding match_ok_def M_def by metis
  have k: "round_up (4 + length (concat (map (kv_enc na) (m_fields2 m)))) 8 = length M"
    by (simp add: M_def length_match_enc)
  have t: "0 \<le> total_len" using f by (auto simp: fmt_defs fits_def)
  have d: "drop (26 + length M) buf = frame" using l lw by (simp add: buf)
  have mp: "match_parser na buf 24 = Inr m'" using m'(3) l lw by (simp add: buf)
  have "OFPPacketIn_parser na OFPT_PACKET_IN buf =
      Inr \<lparr>pi_buffer_id = buffer_id, pi_total_len = total_len, pi_reason = reason, pi_table_id = table_id,
           pi_cookie = cookie, pi_match = m',
           pi_data = (if total_len < int (length frame) then take (nat total_len) frame else frame)\<rparr>"
    using u mp m'(2) k d
    by (simp add: OFPPacketIn_parser_def MsgBase_parser_def Let_def nat_add_distrib del: length_drop)
  then show ?thesis using m'(1) t by auto
qed

theorem packet_in_parses_witness:
  "\<exists>p. OFPPacketIn_parser netaddr_raw OFPT_PACKET_IN
       (zeros 8 @ packed OFP_PACKET_IN_PACK_STR [1, 2, 0, 4, 5]
          @ match_enc netaddr_raw [(''in_port'', UV (Some (VInt 1))), (''state'', UV (Some (VInt 7)))] @ [0, 0] @ [8, 9, 10]) = Inr p \<and>
     pi_buffer_id p = 1 \<and> pi_total_len p = 2 \<and> pi_reason p = 0 \<and> pi_table_id p = 4 \<and> pi_cookie p = 5 \<and>
     m_fields2 (pi_match p) = [(''in_port'', UV (Some (VInt 1))), (''state'', UV (Some (VInt 7)))] \<and>
     pi_data p = [8, 9]"
  using packet_in_parses [OF sample_match_ok, of "zeros 8" 1 2 0 4 5 _ "[8, 9, 10]"] by (simp add: fmt_defs fits_def)

theorem packet_out_decodes_witness:
  "\<exists>buf. msg_serialize OFPT_PACKET_OUT (Some 1)
       (OFPPacketOut_body netaddr_raw 0xffffffff 3 [OFPActionOutput 2 65535] (Some [7, 8])) = Inr buf \<and>
     ofp_header buf = Inr [4, OFPT_PACKET_OUT, int (length buf), 1] \<and>
     (\<exists>n. unpack_from OFP_PACKET_OUT_PACK_STR buf 8 = Inr [0xffffffff, 3, int n] \<and>
          par_loop (OFPAction_parser netaddr_raw) buf 24 n = Inr [OFPActionOutput 2 65535] \<and> drop (24 + n) buf = [7, 8])"
  using packet_out_decodes [of netaddr_raw "[OFPActionOutput 2 65535]" 3 "Some 1" "[7, 8]"]
  by (simp add: sample_act_len act_cls_defs fmt_defs fits_def)

theorem experimenter_msg_roundtrip_witness:
  "\<exists>buf. msg_serialize OFPT_EXPERIMENTER (Some 5) (OFPExperimenter_body 3199909562 1 (Some [1, 0])) = Inr buf \<and>
     ofp_header buf = Inr [4, OFPT_EXPERIMENTER, int (length buf), 5] \<and>
     OFPExperimenter_parser OFPT_EXPERIMENTER buf
       = Inr \<lparr>em_experimenter = 3199909562, em_exp_type = 1, em_data = [1, 0]\<rparr>"
  using experimenter_msg_roundtrip [of 3199909562 1 "Some 5" "[1, 0]"] by (simp add: fits_def)

theorem hello_parser_versions_witness:
  "OFPHello_parser OFPT_HELLO 16 (zeros 8 @ hello_elem_enc [18]) = Inr [hello_elem_of [18]] \<and>
     (\<forall>v. v \<in> set (he_versions (hello_elem_of [18])) \<longleftrightarrow> v div 32 < 1 \<and> v mod 32 \<noteq> 31 \<and> bit ([18 :: int] ! (v div 32)) (v mod 32))"
  using hello_parser_versions [of "[[18]]" "zeros 8"] by (simp add: bitmaps_ok_def fits_def)

theorem msg_serialize_header_witness:
  "ofp_header (packed OFP_HEADER_PACK_STR [4, 2, 9, 7] @ [1]) = Inr [4, 2, 9, 7]"
proof -
  have "msg_serialize OFPT_ECHO_REQUEST (Some 7) (OFPEchoRequest_body (Some [1])) =
      Inr (packed OFP_HEADER_PACK_STR [4, 2, 9, 7] @ [1])"
    by (simp add: msg_serialize_def serialize_pre_def serialize_header_def OFPEchoRequest_body_def fmt_defs fits_def
        overwrite_def)
  from msg_serialize_header [OF this] show ?thesis by (simp add: fmt_defs)
qed

section \<open>Properties\<close>

text \<open>
  C2. A flow-mod whose attributes fit their wire fields is serialised, and
  reading the message back gives its header with the true length, the eleven fixed attributes,
  the fields of the match at offset 48 and, behind the padded match, exactly the list of
  instructions.
\<close>

theorem flow_mod_decodes:
  assumes ok: "flow_mod_ok na fm" and x: "fits 4 (xid_of xid)"
  shows "\<exists>buf k. msg_serialize OFPT_FLOW_MOD xid (OFPFlowMod_body na fm) = Inr buf \<and>
     ofp_header buf = Inr [4, OFPT_FLOW_MOD, int (length buf), xid_of xid] \<and>
     unpack_from OFP_FLOW_MOD_PACK_STR0 buf 8 = Inr (flow_mod_fields fm) \<and>
     (\<exists>m. match_parser na buf 48 = Inr m \<and> m_fields2 m = m_fields2 (fm_match fm) \<and>
          map_option (\<lambda>l. round_up (nat l) 8) (m_length m) = Some k) \<and>
     par_loop (OFPInstruction_parser na) buf (48 + k) (length buf - (48 + k)) = Inr (fm_instructions fm)"
proof -
  define w where "w = packed OFP_FLOW_MOD_PACK_STR0 (flow_mod_fields fm)"
  define M where "M = match_enc na (m_fields2 (fm_match fm))"
  define I where "I = concat (map (instr_enc na) (fm_instructions fm))"
  have lw: "length w = 40" by (simp add: w_def)
  have "OFPFlowMod_body na fm (zeros 8) = Inr (zeros 8 @ w @ M @ I)"
    using flow_mod_body_ok [OF ok] by (simp add: w_def M_def I_def)
  then obtain h where lh: "length h = 8"
    and s: "msg_serialize OFPT_FLOW_MOD xid (OFPFlowMod_body na fm) = Inr (h @ w @ M @ I)"
    and 1: "ofp_header (h @ w @ M @ I) = Inr [4, OFPT_FLOW_MOD, int (8 + length (w @ M @ I)), xid_of xid]"
    by (rule msg_serialize_ok [where t = OFPT_FLOW_MOD and xid = xid])
      (use x ok lw in \<open>auto simp: flow_mod_ok_def M_def I_def fits_def\<close>)
  have 2: "unpack_from OFP_FLOW_MOD_PACK_STR0 (h @ w @ M @ I) 8 = Inr (flow_mod_fields fm)"
    unfolding w_def by (rule unpack_from_packed) (use ok lh in \<open>simp_all add: flow_mod_ok_def\<close>)
  obtain m where m: "m_fields2 m = m_fields2 (fm_match fm)"
      "m_length m = Some (int (4 + length (concat (map (kv_enc na) (m_fields2 (fm_match fm))))))"
      "match_parser na ((h @ w) @ M @ I) (length (h @ w)) = Inr m"
    using match_parser_ok [of na "m_fields2 (fm_match fm)"] ok
    unfolding flow_mod_ok_def match_ok_def M_def by metis
  have k: "round_up (4 + length (concat (map (kv_enc na) (m_fields2 (fm_match fm))))) 8 = length M"
    by (simp add: M_def length_match_enc)
  have 4: "par_loop (OFPInstruction_parser na) (h @ w @ M @ I) (48 + length M) (length I) = Inr (fm_instructions fm)"
    using instr.par_loop_ok [of na "fm_instructions fm" "h @ w @ M" "[]"] ok lw lh
    by (simp add: flow_mod_ok_def I_def)
  show ?thesis
    using s 1 2 4 m k lw lh
    by (intro exI [of _ "h @ w @ M @ I"] exI [of _ "length M"] conjI exI [of _ m])
      (simp_all add: nat_add_distrib)
qed

theorem flow_mod_decodes_witness:
  "\<exists>buf k. msg_serialize OFPT_FLOW_MOD (Some 9) (OFPFlowMod_body netaddr_raw sample_fm) = Inr buf \<and>
     ofp_header buf = Inr [4, OFPT_FLOW_MOD, int (length buf), 9] \<and>
     unpack_from OFP_FLOW_MOD_PACK_STR0 buf 8 = Inr (flow_mod_fields sample_fm) \<and>
     (\<exists>m. match_parser netaddr_raw buf 48 = Inr m \<and> m_fields2 m = m_fields2 (fm_match sample_fm) \<and>
          map_option (\<lambda>l. round_up (nat l) 8) (m_length m) = Some k) \<and>
     par_loop (OFPInstruction_parser netaddr_raw) buf (48 + k) (length buf - (48 + k)) = Inr (fm_instructions sample_fm)"
  using flow_mod_decodes [OF sample_fm_ok, of "Some 9"] by (simp add: fits_def)

text \<open>
  C21. A packet-out without actions loses the first sixteen
  bytes of its data: the data is appended right behind the message header and the fixed part is
  then written over it.
\<close>

theorem packet_out_no_actions_drops_data:
  assumes "fits 4 in_port" and "data \<noteq> []"
  shows "OFPPacketOut_body na 0xffffffff in_port [] (Some data) (zeros 8) =
     Inr (zeros 8 @ packed OFP_PACKET_OUT_PACK_STR [0xffffffff, in_port, 0] @ drop 16 data)"
proof -
  have "packable OFP_PACKET_OUT_PACK_STR [0xffffffff, in_port, 0]"
    using assms(1) by (auto simp: fmt_defs fits_def)
  then show ?thesis
    using pack_at_over [of "zeros 8" 8 data "packed OFP_PACKET_OUT_PACK_STR [0xffffffff, in_port, 0]"] assms(2)
    by (simp add: OFPPacketOut_body_def msg_pack_into_eq del: packed.simps)
qed

theorem packet_out_no_actions_drops_data_witness:
  "OFPPacketOut_body netaddr_raw 0xffffffff 3 [] (Some [1, 2, 3]) (zeros 8) =
     Inr (zeros 8 @ packed OFP_PACKET_OUT_PACK_STR [0xffffffff, 3, 0])"
  using packet_out_no_actions_drops_data [of 3 "[1, 2, 3]" netaddr_raw] by (simp add: fits_def)

text \<open>
  C22. An experimenter multipart reply is parsed to its
  experimenter, type and data when the length of the data modulo 16 is at most 8, and rejected
  with struct.error otherwise, because the entry announces a length of 16 bytes and the loop
  parses a new entry every 16 bytes.
\<close>

theorem experimenter_stats_reply_parses:
  fixes others :: "int \<Rightarrow> ((bytes \<Rightarrow> nat \<Rightarrow> ((experimenter_msg + 'b) \<times> nat) res) \<times> bool) option"
  assumes "length hdr = 8" and f: "fits 2 flags" "fits 4 experimenter" "fits 4 etype"
    and b: "buf = hdr @ packed OFP_MULTIPART_REPLY_PACK_STR [OFPMP_EXPERIMENTER, flags]
                   @ packed OFP_EXPERIMENTER_MULTIPART_HEADER_PACK_STR [experimenter, etype] @ data"
  shows "OFPMultipartReply_parser (register_experimenter_stats others) OFPT_MULTIPART_REPLY (int (length buf)) buf =
     (if length data mod 16 \<le> 8
      then Inr \<lparr>mp_type = OFPMP_EXPERIMENTER, mp_flags = flags,
                mp_body = MPSingle (Inl \<lparr>em_experimenter = experimenter, em_exp_type = etype, em_data = data\<rparr>)\<rparr>
      else Inl StructError)"
proof -
  define w where "w = packed OFP_MULTIPART_REPLY_PACK_STR [OFPMP_EXPERIMENTER, flags]"
  define e where "e = packed OFP_EXPERIMENTER_MULTIPART_HEADER_PACK_STR [experimenter, etype]"
  have l: "length w = 8" "length e = 8" by (simp_all add: w_def e_def fmt_defs)
  have buf: "buf = hdr @ w @ e @ data" by (simp add: b w_def e_def)
  have u: "unpack_from OFP_MULTIPART_REPLY_PACK_STR buf 8 = Inr [OFPMP_EXPERIMENTER, flags]"
    unfolding buf w_def by (rule unpack_from_packed) (use assms(1-4) in \<open>auto simp: fmt_defs fits_def\<close>)
  have "slice 16 24 buf = e" using assms(1) l by (simp add: buf slice_def)
  moreover have "unpack_items OFP_EXPERIMENTER_MULTIPART_HEADER_PACK_STR e = [experimenter, etype]"
    unfolding e_def by (rule unpack_packed) (use f in \<open>simp add: fmt_defs\<close>)
  ultimately have "exp_entry buf 16 = \<lparr>em_experimenter = experimenter, em_exp_type = etype, em_data = data\<rparr>"
    using l assms(1) by (simp add: exp_entry_def Let_def) (simp add: buf)
  moreover have "(0 < (8 + length data) mod 16 \<and> (8 + length data) mod 16 < 8) \<longleftrightarrow> \<not> length data mod 16 \<le> 8"
    by presburger
  ultimately show ?thesis
    using u par_loop_experimenter_multipart [of 16 "8 + length data" buf, where 'b = 'b] assms(1) l
      exp_entries_step [of "8 + length data" buf 16, where 'b = 'b]
    by (auto simp: OFPMultipartReply_parser_def register_experimenter_stats_def MsgBase_parser_def buf nat_add_distrib)
qed

theorem experimenter_stats_reply_parses_witness:
  "OFPMultipartReply_parser (register_experimenter_stats (\<lambda>_. None :: ((bytes \<Rightarrow> nat \<Rightarrow> ((experimenter_msg + unit) \<times> nat) res) \<times> bool) option))
       OFPT_MULTIPART_REPLY 33
       (zeros 8 @ packed OFP_MULTIPART_REPLY_PACK_STR [OFPMP_EXPERIMENTER, 0]
          @ packed OFP_EXPERIMENTER_MULTIPART_HEADER_PACK_STR [7, 1] @ zeros 9) = Inl StructError"
  using experimenter_stats_reply_parses [of "zeros 8" 0 7 1 _ "zeros 9" "\<lambda>_. None :: ((bytes \<Rightarrow> nat \<Rightarrow> ((experimenter_msg + unit) \<times> nat) res) \<times> bool) option", OF _ _ _ _ refl]
  by (simp add: fits_def fmt_defs)

end
