(* ===== verification/Beba_Msg.thy ===== *)
theory Beba_Msg
  imports OF13_Msg Beba_Proto
begin

text \<open>
  The constructors of BEBA actions and messages in \<open>ryu/ofproto/beba_v1_0_parser.py\<close>. An action is
  an experimenter action with a packed payload, a command is an experimenter message
  (\<open>experimenter_msg\<close>), a statistics request an experimenter multipart request with flags zero. The
  constructor for key extractors also records the lookup scope of the table in the datapath.
\<close>

section \<open>Actions\<close>

abbreviation beba_action :: "bytes \<Rightarrow> of_action" where
  "beba_action data \<equiv> OFPActionExperimenterUnknown 0xBEBABEBA (Some data)"

definition OFPExpActionSetState ::
  "int \<Rightarrow> int \<Rightarrow> int \<Rightarrow> int \<Rightarrow> int \<Rightarrow> int \<Rightarrow> int \<Rightarrow> int \<Rightarrow> of_action res" where
  "OFPExpActionSetState state table_id bt hard_timeout idle_timeout hard_rollback idle_rollback state_mask =
     rbind (struct_pack OFP_EXP_ACTION_SET_STATE_PACK_STR
              [OFPAT_EXP_SET_STATE, state, state_mask, table_id, hard_rollback, idle_rollback,
               hard_timeout * 1000000, idle_timeout * 1000000, bt]) (\<lambda>data.
       Inr (beba_action data))"

definition OFPExpActionSetGlobalState :: "int \<Rightarrow> int \<Rightarrow> of_action res" where
  "OFPExpActionSetGlobalState global_state global_state_mask =
     rbind (struct_pack OFP_EXP_ACTION_SET_GLOBAL_STATE_PACK_STR
              [OFPAT_EXP_SET_GLOBAL_STATE, global_state, global_state_mask]) (\<lambda>data.
       Inr (beba_action data))"

definition OFPExpActionIncState :: "int \<Rightarrow> of_action res" where
  "OFPExpActionIncState table_id =
     rbind (struct_pack OFP_EXP_ACTION_INC_STATE_PACK_STR [OFPAT_EXP_INC_STATE, table_id]) (\<lambda>data.
       Inr (beba_action data))"

section \<open>State modification commands\<close>

text \<open>The attribute \<open>lookup_scope\<close> of a datapath: absent until a first extractor is configured.\<close>

type_synonym scope = "int \<rightharpoonup> int list"

record beba_dp =
  bd_lookup_scope :: "scope option"

abbreviation beba_msg :: "int \<Rightarrow> bytes \<Rightarrow> experimenter_msg" where
  "beba_msg etype data \<equiv> \<lparr>em_experimenter = 0xBEBABEBA, em_exp_type = etype, em_data = data\<rparr>"

definition OFPExpMsgConfigureStatefulTable :: "int \<Rightarrow> int \<Rightarrow> experimenter_msg res" where
  "OFPExpMsgConfigureStatefulTable stateful table_id =
     rbind (struct_pack OFP_EXP_STATE_MOD_PACK_STR [OFPSC_EXP_STATEFUL_TABLE_CONFIG]) (\<lambda>c.
     rbind (struct_pack OFP_EXP_STATE_MOD_STATEFUL_TABLE_CONFIG_PACK_STR [table_id, stateful]) (\<lambda>d.
       Inr (beba_msg OFPT_EXP_STATE_MOD (c @ d))))"

definition OFPExpMsgKeyExtract ::
  "beba_dp \<Rightarrow> int \<Rightarrow> int list \<Rightarrow> int \<Rightarrow> int \<Rightarrow> (beba_dp \<times> experimenter_msg) res" where
  "OFPExpMsgKeyExtract dp command flds table_id bt =
     (let field_count = (if MAX_FIELD_COUNT < length flds then 0 else length flds) in
      rbind (struct_pack OFP_EXP_STATE_MOD_PACK_STR [command]) (\<lambda>c.
      rbind (struct_pack OFP_EXP_STATE_MOD_EXTRACTOR_PACK_STR [table_id, bt, int field_count]) (\<lambda>d.
      rbind (mapM (\<lambda>f. struct_pack [fI] [f]) (take field_count flds)) (\<lambda>fs.
        let dp' = (if command = OFPSC_EXP_SET_L_EXTRACTOR
                   then (case bd_lookup_scope dp of
                           Some sc \<Rightarrow> dp\<lparr>bd_lookup_scope := Some (sc(table_id \<mapsto> flds))\<rparr>
                         | None \<Rightarrow> dp\<lparr>bd_lookup_scope := Some [table_id \<mapsto> flds]\<rparr>)
                   else dp)
        in Inr (dp', beba_msg OFPT_EXP_STATE_MOD (c @ d @ concat fs))))))"

definition OFPExpMsgSetFlowState ::
  "int \<Rightarrow> int list \<Rightarrow> int \<Rightarrow> int \<Rightarrow> int \<Rightarrow> int \<Rightarrow> int \<Rightarrow> int \<Rightarrow> experimenter_msg res" where
  "OFPExpMsgSetFlowState state keys table_id idle_timeout idle_rollback hard_timeout hard_rollback state_mask =
     (let key_count = (if MAX_KEY_LEN < length keys then 0 else length keys) in
      rbind (struct_pack OFP_EXP_STATE_MOD_PACK_STR [OFPSC_EXP_SET_FLOW_STATE]) (\<lambda>c.
      rbind (struct_pack OFP_EXP_STATE_MOD_SET_FLOW_STATE_PACK_STR
               [table_id, int key_count, state, state_mask, hard_rollback, idle_rollback,
                hard_timeout * 1000000, idle_timeout * 1000000]) (\<lambda>d.
      rbind (mapM (\<lambda>k. struct_pack [fB] [k]) (take key_count keys)) (\<lambda>ks.
        Inr (beba_msg OFPT_EXP_STATE_MOD (c @ d @ concat ks))))))"

definition OFPExpMsgDelFlowState :: "int list \<Rightarrow> int \<Rightarrow> experimenter_msg res" where
  "OFPExpMsgDelFlowState keys table_id =
     (let key_count = (if MAX_KEY_LEN < length keys then 0 else length keys) in
      rbind (struct_pack OFP_EXP_STATE_MOD_PACK_STR [OFPSC_EXP_DEL_FLOW_STATE]) (\<lambda>c.
      rbind (struct_pack OFP_EXP_STATE_MOD_DEL_FLOW_STATE_PACK_STR [table_id, int key_count]) (\<lambda>d.
      rbind (mapM (\<lambda>k. struct_pack [fB] [k]) (take key_count keys)) (\<lambda>ks.
        Inr (beba_msg OFPT_EXP_STATE_MOD (c @ d @ concat ks))))))"

definition OFPExpSetGlobalState :: "int \<Rightarrow> int \<Rightarrow> experimenter_msg res" where
  "OFPExpSetGlobalState global_state global_state_mask =
     rbind (struct_pack OFP_EXP_STATE_MOD_PACK_STR [OFPSC_EXP_SET_GLOBAL_STATE]) (\<lambda>c.
     rbind (struct_pack OFP_EXP_STATE_MOD_SET_GLOBAL_STATE_PACK_STR [global_state, global_state_mask]) (\<lambda>d.
       Inr (beba_msg OFPT_EXP_STATE_MOD (c @ d))))"

definition OFPExpResetGlobalState :: "experimenter_msg res" where
  "OFPExpResetGlobalState =
     rbind (struct_pack OFP_EXP_STATE_MOD_PACK_STR [OFPSC_EXP_RESET_GLOBAL_STATE]) (\<lambda>c.
       Inr (beba_msg OFPT_EXP_STATE_MOD c))"

section \<open>Statistics requests\<close>

definition OFPExpStateStatsMultipartRequestBase ::
  "netaddr \<Rightarrow> int \<Rightarrow> int \<Rightarrow> int option \<Rightarrow> of_match option \<Rightarrow> experimenter_msg res" where
  "OFPExpStateStatsMultipartRequestBase na etype table_id state m =
     (let get_from_state = (case state of None \<Rightarrow> 0 | Some _ \<Rightarrow> 1);
          st = (case state of None \<Rightarrow> 0 | Some s \<Rightarrow> s);
          mt = (case m of None \<Rightarrow> empty_match | Some m' \<Rightarrow> m')
      in rbind (msg_pack_into OFP_STATE_STATS_REQUEST_0_PACK_STR [] 0 [table_id, get_from_state, st]) (\<lambda>data.
         rbind (match_serialize na mt data OFP_STATE_STATS_REQUEST_0_SIZE) (\<lambda>(_, data', _).
           Inr (beba_msg etype data'))))"

definition OFPExpStateStatsMultipartRequest ::
  "netaddr \<Rightarrow> int \<Rightarrow> int option \<Rightarrow> of_match option \<Rightarrow> experimenter_msg res" where
  "OFPExpStateStatsMultipartRequest na table_id state m =
     OFPExpStateStatsMultipartRequestBase na OFPMP_EXP_STATE_STATS table_id state m"

definition OFPExpStateStatsMultipartRequestAndDelete ::
  "netaddr \<Rightarrow> int \<Rightarrow> int option \<Rightarrow> of_match option \<Rightarrow> experimenter_msg res" where
  "OFPExpStateStatsMultipartRequestAndDelete na table_id state m =
     OFPExpStateStatsMultipartRequestBase na OFPMP_EXP_STATE_STATS_AND_DELETE table_id state m"

definition OFPExpStateStatsMultipartRequestShort ::
  "netaddr \<Rightarrow> int \<Rightarrow> int option \<Rightarrow> of_match option \<Rightarrow> experimenter_msg res" where
  "OFPExpStateStatsMultipartRequestShort na table_id state m =
     OFPExpStateStatsMultipartRequestBase na OFPMP_EXP_STATE_STATS_SHORT table_id state m"

definition OFPExpStateStatsMultipartRequestAndDeleteShort ::
  "netaddr \<Rightarrow> int \<Rightarrow> int option \<Rightarrow> of_match option \<Rightarrow> experimenter_msg res" where
  "OFPExpStateStatsMultipartRequestAndDeleteShort na table_id state m =
     OFPExpStateStatsMultipartRequestBase na OFPMP_EXP_STATE_STATS_AND_DELETE_SHORT table_id state m"

definition OFPExpGetFlowsInState :: "netaddr \<Rightarrow> int \<Rightarrow> int option \<Rightarrow> experimenter_msg res" where
  "OFPExpGetFlowsInState na table_id state = OFPExpStateStatsMultipartRequest na table_id state None"

definition OFPExpGetFlowState :: "netaddr \<Rightarrow> int \<Rightarrow> of_match option \<Rightarrow> experimenter_msg res" where
  "OFPExpGetFlowState na table_id m = OFPExpStateStatsMultipartRequest na table_id None m"

definition OFPExpGlobalStateStatsMultipartRequest :: experimenter_msg where
  "OFPExpGlobalStateStatsMultipartRequest = beba_msg OFPMP_EXP_GLOBAL_STATE_STATS []"

section \<open>Packet templates\<close>

definition OFPExpMsgAddPktTmp :: "int \<Rightarrow> bytes \<Rightarrow> experimenter_msg res" where
  "OFPExpMsgAddPktTmp pkttmp_id pkt_data =
     rbind (struct_pack OFP_EXP_PKTTMP_MOD_PACK_STR [OFPSC_ADD_PKTTMP]) (\<lambda>c.
     rbind (struct_pack OFP_EXP_PKTTMP_MOD_ADD_PKTTMP_PACK_STR [pkttmp_id]) (\<lambda>d.
       Inr (beba_msg OFPT_EXP_PKTTMP_MOD (c @ d @ pkt_data))))"

definition OFPExpMsgDelPktTmp :: "int \<Rightarrow> experimenter_msg res" where
  "OFPExpMsgDelPktTmp pkttmp_id =
     rbind (struct_pack OFP_EXP_PKTTMP_MOD_PACK_STR [OFPSC_DEL_PKTTMP]) (\<lambda>c.
     rbind (struct_pack OFP_EXP_PKTTMP_MOD_DEL_PKTTMP_PACK_STR [pkttmp_id]) (\<lambda>d.
       Inr (beba_msg OFPT_EXP_PKTTMP_MOD (c @ d))))"

end
