(* ===== verification/Beba_Msg_Codec.thy ===== *)
theory Beba_Msg_Codec
  imports Beba_Msg OF13_Msg_Codec
begin

text \<open>
  Correctness of the BEBA actions, commands and requests: what the constructors pack is what a
  switch unpacks, within the ranges of the wire fields, on top of the contracts of actions,
  matches and experimenter messages.
\<close>

section \<open>Vocabulary\<close>

text \<open>The actions a BEBA application can build.\<close>

definition beba_built :: "of_action \<Rightarrow> bool" where
  "beba_built a \<longleftrightarrow>
     (\<exists>state t bt ht it hr ir msk. OFPExpActionSetState state t bt ht it hr ir msk = Inr a) \<or>
     (\<exists>g msk. OFPExpActionSetGlobalState g msk = Inr a) \<or>
     (\<exists>t. OFPExpActionIncState t = Inr a)"

definition exp_wire :: "int option \<Rightarrow> experimenter_msg \<Rightarrow> bytes res" where
  "exp_wire xid m = msg_serialize OFPT_EXPERIMENTER xid
     (OFPExperimenter_body (em_experimenter m) (em_exp_type m) (Some (em_data m)))"

section \<open>Payloads of bytes and words\<close>

lemma mapM_pack_bytes:
  "list_all (fits 1) ks \<Longrightarrow> mapM (\<lambda>k. struct_pack [fB] [k]) ks = Inr (map (\<lambda>k. [word_of_int k]) ks)"
  by (induction ks) auto

lemma concat_singletons: "concat (map (\<lambda>k. [f k]) ks) = map f ks"
  by (induction ks) auto

lemma mapM_pack_words:
  "mapM (\<lambda>k. struct_pack [fI] [k]) fs = Inr bs \<Longrightarrow> bs = map (be_bytes 4) fs"
  by (induction fs arbitrary: bs) (auto simp: rbind_eq_Inr split: if_splits)

section \<open>Actions\<close>

lemma beba_action_ok: "8 dvd length d \<Longrightarrow> length d \<le> 100 \<Longrightarrow> act_ok na (beba_action d)"
  by (simp add: fits_def)

lemma OFPExpActionSetState_Inr:
  "OFPExpActionSetState state t bt ht it hr ir msk = Inr a \<longleftrightarrow>
   packable OFP_EXP_ACTION_SET_STATE_PACK_STR
     [OFPAT_EXP_SET_STATE, state, msk, t, hr, ir, ht * 1000000, it * 1000000, bt] \<and>
   a = beba_action (packed OFP_EXP_ACTION_SET_STATE_PACK_STR
     [OFPAT_EXP_SET_STATE, state, msk, t, hr, ir, ht * 1000000, it * 1000000, bt])"
  by (auto simp: OFPExpActionSetState_def struct_pack_eq)

lemma OFPExpActionSetGlobalState_Inr:
  "OFPExpActionSetGlobalState g msk = Inr a \<longleftrightarrow>
   packable OFP_EXP_ACTION_SET_GLOBAL_STATE_PACK_STR [OFPAT_EXP_SET_GLOBAL_STATE, g, msk] \<and>
   a = beba_action (packed OFP_EXP_ACTION_SET_GLOBAL_STATE_PACK_STR [OFPAT_EXP_SET_GLOBAL_STATE, g, msk])"
  by (auto simp: OFPExpActionSetGlobalState_def struct_pack_eq)

lemma OFPExpActionIncState_Inr:
  "OFPExpActionIncState t = Inr a \<longleftrightarrow>
   packable OFP_EXP_ACTION_INC_STATE_PACK_STR [OFPAT_EXP_INC_STATE, t] \<and>
   a = beba_action (packed OFP_EXP_ACTION_INC_STATE_PACK_STR [OFPAT_EXP_INC_STATE, t])"
  by (auto simp: OFPExpActionIncState_def struct_pack_eq)

lemma beba_built_ok: "beba_built a \<Longrightarrow> act_ok na a"
  unfolding beba_built_def OFPExpActionSetState_Inr OFPExpActionSetGlobalState_Inr OFPExpActionIncState_Inr
  by (elim disjE exE conjE; hypsubst; intro beba_action_ok; simp)

section \<open>Commands\<close>

lemma exp_wire_ok:
  assumes "fits 4 (em_experimenter m)" and "fits 4 (em_exp_type m)" and "fits 4 (xid_of xid)"
    and "length (em_data m) \<le> 1000"
  shows "\<exists>buf. exp_wire xid m = Inr buf \<and> OFPExperimenter_parser OFPT_EXPERIMENTER buf = Inr m"
  using experimenter_msg_wire [of "em_experimenter m" "em_exp_type m" xid "em_data m"] assms
  by (auto simp: exp_wire_def)

theorem key_extract_scope:
  assumes "OFPExpMsgKeyExtract dp OFPSC_EXP_SET_L_EXTRACTOR flds table_id bt = Inr (dp', m)"
  shows "\<exists>sc. bd_lookup_scope dp' = Some sc \<and> sc table_id = Some flds \<and>
           (\<forall>t. t \<noteq> table_id \<longrightarrow> sc t = (case bd_lookup_scope dp of None \<Rightarrow> None | Some sc0 \<Rightarrow> sc0 t)) \<and>
           unpack_from OFP_EXP_STATE_MOD_EXTRACTOR_PACK_STR (em_data m) 2 =
             Inr [table_id, bt, if length flds \<le> 6 then int (length flds) else 0] \<and>
           drop 14 (em_data m) = (if length flds \<le> 6 then concat (map (be_bytes 4) flds) else [])"
proof -
  define n where "n = (if 6 < length flds then 0 else length flds)"
  define c where "c = packed OFP_EXP_STATE_MOD_PACK_STR [OFPSC_EXP_SET_L_EXTRACTOR]"
  define d where "d = packed OFP_EXP_STATE_MOD_EXTRACTOR_PACK_STR [table_id, bt, int n]"
  obtain fs where pd: "packable OFP_EXP_STATE_MOD_EXTRACTOR_PACK_STR [table_id, bt, int n]"
    and fs: "mapM (\<lambda>f. struct_pack [fI] [f]) (take n flds) = Inr fs"
    and m: "m = beba_msg OFPT_EXP_STATE_MOD (c @ d @ concat fs)"
    and dp': "bd_lookup_scope dp' = Some ((case bd_lookup_scope dp of None \<Rightarrow> Map.empty | Some sc \<Rightarrow> sc)(table_id \<mapsto> flds))"
    using assms
    by (auto simp: OFPExpMsgKeyExtract_def struct_pack_eq rbind_eq_Inr Let_def c_def d_def n_def
        split: if_splits option.splits)
  have fs': "fs = map (be_bytes 4) (take n flds)" using fs by (rule mapM_pack_words)
  have lc: "length c = 2" and ld: "length d = 12" by (simp_all add: c_def d_def)
  have u: "unpack_from OFP_EXP_STATE_MOD_EXTRACTOR_PACK_STR (c @ d @ concat fs) 2 = Inr [table_id, bt, int n]"
    unfolding d_def by (rule unpack_from_packed) (simp_all add: pd lc)
  show ?thesis
    using u dp' by (auto simp: m fs' lc ld n_def split: option.split)
qed

theorem key_extract_scope_witness:
  "\<exists>dp' m sc. OFPExpMsgKeyExtract \<lparr>bd_lookup_scope = None\<rparr> OFPSC_EXP_SET_L_EXTRACTOR [1, 2, 3, 4, 5, 6, 7] 0 0 = Inr (dp', m) \<and>
     bd_lookup_scope dp' = Some sc \<and> sc 0 = Some [1, 2, 3, 4, 5, 6, 7] \<and> drop 14 (em_data m) = []"
proof -
  obtain dp' m where "OFPExpMsgKeyExtract \<lparr>bd_lookup_scope = None\<rparr> OFPSC_EXP_SET_L_EXTRACTOR [1, 2, 3, 4, 5, 6, 7] 0 0 = Inr (dp', m)"
    by (simp add: OFPExpMsgKeyExtract_def struct_pack_eq fmt_defs fits_def)
  from this key_extract_scope [OF this] show ?thesis by auto
qed

section \<open>Statistics requests\<close>

theorem state_stats_request_decodes:
  assumes "fits 1 table_id" and "\<And>s. state = Some s \<Longrightarrow> fits 4 s"
    and "list_all (kv_ok na) (m_fields2 m)" and "\<not> composed_with_old_api m"
    and len: "4 + length (concat (map (kv_enc na) (m_fields2 m))) < 65536"
  shows "\<exists>r. OFPExpStateStatsMultipartRequest na table_id state (Some m) = Inr r \<and>
     em_experimenter r = 0xBEBABEBA \<and> em_exp_type r = OFPMP_EXP_STATE_STATS \<and>
     unpack_from OFP_STATE_STATS_REQUEST_0_PACK_STR (em_data r) 0 =
       Inr (case state of None \<Rightarrow> [table_id, 0, 0] | Some s \<Rightarrow> [table_id, 1, s]) \<and>
     (\<exists>m2. match_parser na (em_data r) 8 = Inr m2 \<and> m_fields2 m2 = m_fields2 m)"
proof -
  let ?v = "case state of None \<Rightarrow> [table_id, 0, 0] | Some s \<Rightarrow> [table_id, 1, s]"
  define w where "w = packed OFP_STATE_STATS_REQUEST_0_PACK_STR ?v"
  define M where "M = match_enc na (m_fields2 m)"
  have lw: "length w = 8" by (simp add: w_def)
  have p: "packable OFP_STATE_STATS_REQUEST_0_PACK_STR ?v"
    using assms(1,2) by (auto simp: fmt_defs fits_def split: option.split)
  have s1: "msg_pack_into OFP_STATE_STATS_REQUEST_0_PACK_STR [] 0 ?v = Inr w"
    using p by (simp add: msg_pack_into_eq pack_at_append w_def grow_def)
  obtain m' where s2: "match_serialize na m w 8 = Inr (m', w @ M, length M)"
    using match_serialize_ok [OF assms(3-5), of w 8] lw by (auto simp: M_def grow_def)
  obtain m2 where m2: "m_fields2 m2 = m_fields2 m" "match_parser na (w @ M @ []) (length w) = Inr m2"
    using match_parser_ok [OF assms(3) len] unfolding M_def by blast
  have u: "unpack_from OFP_STATE_STATS_REQUEST_0_PACK_STR (w @ M) 0 = Inr ?v"
    unfolding w_def by (rule unpack_from_packed0) (rule p)
  have "OFPExpStateStatsMultipartRequest na table_id state (Some m)
      = Inr (beba_msg OFPMP_EXP_STATE_STATS (w @ M))"
    using s1 s2
    by (cases state) (simp_all add: OFPExpStateStatsMultipartRequest_def OFPExpStateStatsMultipartRequestBase_def)
  with u m2 lw show ?thesis by simp
qed

theorem state_stats_request_decodes_witness:
  "\<exists>r. OFPExpStateStatsMultipartRequest netaddr_raw 1 (Some 5) (Some empty_match) = Inr r \<and>
     unpack_from OFP_STATE_STATS_REQUEST_0_PACK_STR (em_data r) 0 = Inr [1, 1, 5]"
  using state_stats_request_decodes [of 1 "Some 5" netaddr_raw empty_match]
  by (auto simp: fits_def empty_match_def composed_with_old_api_def)

section \<open>Properties\<close>

text \<open>
  C25. Every list of actions built by OFPExpActionSetState,
  OFPExpActionSetGlobalState and OFPExpActionIncState is serialised, and parsing the bytes gives
  back the same list.
\<close>

theorem beba_actions_roundtrip:
  assumes "list_all beba_built as" and "as \<noteq> []"
  shows "\<exists>bs. (\<forall>buf offset. length buf \<le> offset \<longrightarrow>
                 ser_list (action_serialize na) as buf offset = Inr (grow offset buf @ bs, offset + length bs)) \<and>
              (\<forall>pre post. par_loop (OFPAction_parser na) (pre @ bs @ post) (length pre) (length bs) = Inr as)"
proof -
  have "list_all (act_ok na) as" using assms(1) beba_built_ok by (auto simp: list_all_iff)
  with assms(2) show ?thesis by (intro act.list_roundtrip)
qed

theorem beba_actions_roundtrip_witness:
  "\<exists>a. OFPExpActionSetState 5 0 0 10 0 0 0 0xffffffff = Inr a \<and>
     (\<exists>bs. (\<forall>buf offset. length buf \<le> offset \<longrightarrow>
              ser_list (action_serialize netaddr_raw) [a] buf offset = Inr (grow offset buf @ bs, offset + length bs)) \<and>
           (\<forall>pre post. par_loop (OFPAction_parser netaddr_raw) (pre @ bs @ post) (length pre) (length bs) = Inr [a]))"
proof -
  define a where "a = beba_action (packed OFP_EXP_ACTION_SET_STATE_PACK_STR
     [OFPAT_EXP_SET_STATE, 5, 0xffffffff, 0, 0, 0, 10000000, 0, 0])"
  have a: "OFPExpActionSetState 5 0 0 10 0 0 0 0xffffffff = Inr a"
    by (simp add: OFPExpActionSetState_Inr a_def fmt_defs fits_def)
  then have "list_all beba_built [a]" by (auto simp: beba_built_def)
  from beba_actions_roundtrip [OF this, of netaddr_raw] a show ?thesis by blast
qed

text \<open>
  C27. With all other arguments in range, the action that sets a state is
  built exactly when both timeouts are between 0 and 4294 seconds; beyond that the conversion to
  microseconds overflows its 32 bits and struct.error is raised.
\<close>

theorem set_state_timeouts:
  assumes "fits 4 state" and "fits 4 state_mask" and "fits 1 table_id" and "fits 1 bt"
    and "fits 4 hard_rollback" and "fits 4 idle_rollback"
  shows "OFPExpActionSetState state table_id bt hard_timeout idle_timeout hard_rollback idle_rollback state_mask =
    (if 0 \<le> hard_timeout \<and> hard_timeout \<le> 4294 \<and> 0 \<le> idle_timeout \<and> idle_timeout \<le> 4294
     then Inr (beba_action (packed OFP_EXP_ACTION_SET_STATE_PACK_STR
            [OFPAT_EXP_SET_STATE, state, state_mask, table_id, hard_rollback, idle_rollback,
             hard_timeout * 1000000, idle_timeout * 1000000, bt]))
     else Inl StructError)"
proof -
  have f: "fits 4 (x * 1000000) \<longleftrightarrow> 0 \<le> x \<and> x \<le> 4294" for x :: int
    by (auto simp: fits_def)
  show ?thesis
    using assms by (simp add: OFPExpActionSetState_def struct_pack_eq fmt_defs f) (simp add: fits_def)
qed

theorem set_state_timeouts_witness:
  "OFPExpActionSetState 1 0 0 4295 0 0 0 0xffffffff = Inl StructError"
  using set_state_timeouts [of 1 "0xffffffff" 0 0 0 0 4295 0] by (simp add: fits_def)

text \<open>
  C26. A set-flow-state command with a key of at most 48 bytes is
  built, serialised as an experimenter message and parsed back; its payload decodes to the
  table, the state, the mask, the rollbacks, the timeouts in microseconds and exactly the key.
\<close>

theorem set_flow_state_decodes:
  assumes "length keys \<le> 48" and "list_all (fits 1) keys" and "fits 4 state" and "fits 4 state_mask"
    and "fits 1 table_id" and "fits 4 hard_rollback" and "fits 4 idle_rollback"
    and "0 \<le> hard_timeout \<and> hard_timeout \<le> 4294" and "0 \<le> idle_timeout \<and> idle_timeout \<le> 4294"
    and x: "fits 4 (xid_of xid)"
  shows "\<exists>m buf. OFPExpMsgSetFlowState state keys table_id idle_timeout idle_rollback hard_timeout hard_rollback state_mask = Inr m \<and>
     exp_wire xid m = Inr buf \<and> OFPExperimenter_parser OFPT_EXPERIMENTER buf = Inr m \<and>
     em_experimenter m = 0xBEBABEBA \<and> em_exp_type m = OFPT_EXP_STATE_MOD \<and>
     unpack_from OFP_EXP_STATE_MOD_PACK_STR (em_data m) 0 = Inr [OFPSC_EXP_SET_FLOW_STATE] \<and>
     unpack_from OFP_EXP_STATE_MOD_SET_FLOW_STATE_PACK_STR (em_data m) 2 =
       Inr [table_id, int (length keys), state, state_mask, hard_rollback, idle_rollback,
            hard_timeout * 1000000, idle_timeout * 1000000] \<and>
     map uint (drop 34 (em_data m)) = keys"
proof -
  let ?v = "[table_id, int (length keys), state, state_mask, hard_rollback, idle_rollback,
            hard_timeout * 1000000, idle_timeout * 1000000]"
  define c where "c = packed OFP_EXP_STATE_MOD_PACK_STR [OFPSC_EXP_SET_FLOW_STATE]"
  define d where "d = packed OFP_EXP_STATE_MOD_SET_FLOW_STATE_PACK_STR ?v"
  define ks where "ks = (map word_of_int keys :: bytes)"
  define m where "m = beba_msg OFPT_EXP_STATE_MOD (c @ d @ ks)"
  have pc: "packable OFP_EXP_STATE_MOD_PACK_STR [OFPSC_EXP_SET_FLOW_STATE]"
    by (simp add: fmt_defs fits_def)
  have pd: "packable OFP_EXP_STATE_MOD_SET_FLOW_STATE_PACK_STR ?v"
    using assms by (auto simp: fmt_defs fits_def)
  have lc: "length c = 2" and ld: "length d = 32" and lk: "length ks = length keys"
    by (simp_all add: c_def d_def ks_def)
  have 1: "OFPExpMsgSetFlowState state keys table_id idle_timeout idle_rollback hard_timeout hard_rollback state_mask = Inr m"
    using assms(1,2) pc pd mapM_pack_bytes [of keys]
    by (simp add: OFPExpMsgSetFlowState_def struct_pack_eq c_def d_def m_def ks_def concat_singletons)
  obtain buf where 2: "exp_wire xid m = Inr buf" "OFPExperimenter_parser OFPT_EXPERIMENTER buf = Inr m"
    using exp_wire_ok [of m xid] x assms(1) by (auto simp: m_def lc ld lk fits_def)
  have 3: "unpack_from OFP_EXP_STATE_MOD_PACK_STR (c @ d @ ks) 0 = Inr [OFPSC_EXP_SET_FLOW_STATE]"
    unfolding c_def by (rule unpack_from_packed0) (rule pc)
  have 4: "unpack_from OFP_EXP_STATE_MOD_SET_FLOW_STATE_PACK_STR (c @ d @ ks) 2 = Inr ?v"
    unfolding d_def by (rule unpack_from_packed) (simp_all add: pd lc)
  have "uint (word_of_int k :: byte) = k" if "k \<in> set keys" for k
    using that assms(2) by (auto simp: list_all_iff fits_def uint_word_of_int)
  then have 5: "map uint (drop 34 (c @ d @ ks)) = keys"
    by (simp add: lc ld ks_def map_idI)
  show ?thesis
    using 1 2 3 4 5 by (intro exI [of _ m] exI [of _ buf]) (simp add: m_def)
qed

theorem set_flow_state_decodes_witness:
  "\<exists>m buf. OFPExpMsgSetFlowState 7 [10, 0, 0, 1] 0 0 0 30 0 0xffffffff = Inr m \<and>
     exp_wire (Some 3) m = Inr buf \<and> OFPExperimenter_parser OFPT_EXPERIMENTER buf = Inr m \<and>
     map uint (drop 34 (em_data m)) = [10, 0, 0, 1]"
  using set_flow_state_decodes [of "[10, 0, 0, 1]" 7 "0xffffffff" 0 0 0 30 0 "Some 3"] by (auto simp: fits_def)

end
