(* ===== verification/Beba_Stats.thy ===== *)
theory Beba_Stats
  imports Beba_Msg
begin

text \<open>
  Reading the replies to BEBA statistics requests (\<open>OFPStateEntry\<close>, \<open>OFPStateStats\<close>,
  \<open>OFPStateStatsShort\<close>, \<open>OFPGlobalStateStats\<close> of \<open>ryu/ofproto/beba_v1_0_parser.py\<close>). The loops read
  entry after entry up to the end of the payload; each round consumes at least the fixed part of an
  entry, which is why they end. An entry of a table without a lookup scope is skipped, but only its
  fixed part.
\<close>

section \<open>State entries\<close>

record state_entry =
  se_key_count :: int
  se_key :: bytes
  se_state :: int

definition OFPStateEntry_parser :: "bytes \<Rightarrow> nat \<Rightarrow> int \<Rightarrow> int \<Rightarrow> (state_entry \<times> nat) res" where
  "OFPStateEntry_parser buf offset key_count state =
     (let k = nat key_count;
          pad = round_up k 8 - k in
      if key_count \<le> int MAX_KEY_LEN
      then (if k = 0 \<or> offset + k \<le> length buf
            then Inr (\<lparr>se_key_count = key_count, se_key = slice offset (offset + k) buf, se_state = state\<rparr>,
                      offset + k + pad)
            else Inl StructError)
      else Inr (\<lparr>se_key_count = key_count, se_key = [], se_state = state\<rparr>, offset + pad))"

record state_stats =
  ss_length :: int
  ss_table_id :: int
  ss_key_len :: int
  ss_dur_sec :: int
  ss_dur_nsec :: int
  ss_hard_rb :: int
  ss_idle_rb :: int
  ss_hard_to :: int
  ss_idle_to :: int
  ss_state :: int
  ss_fields :: "int list"
  ss_field_count :: int
  ss_entry :: state_entry

lemma OFPStateEntry_parser_offset:
  "OFPStateEntry_parser buf offset k s = Inr (e, offset') \<Longrightarrow> offset \<le> offset'"
  by (auto simp: OFPStateEntry_parser_def Let_def split: if_splits)

section \<open>The long form\<close>

function OFPStateStats_parser :: "scope option \<Rightarrow> bytes \<Rightarrow> nat \<Rightarrow> state_stats list res" where
  "OFPStateStats_parser lookup_scope buf offset =
     (if length buf \<le> offset then Inr []
      else rbind (unpack_from OFP_STATE_STATS_PACK_STR buf offset) (\<lambda>v.
           rbind (rget AttributeError lookup_scope) (\<lambda>scope.
             (case scope (v ! 1) of
                None \<Rightarrow> OFPStateStats_parser lookup_scope buf (offset + OFP_STATE_STATS_SIZE)
              | Some flds \<Rightarrow>
                  rbind (OFPStateEntry_parser buf (offset + OFP_STATE_STATS_SIZE) (v ! 2) (v ! 9)) (\<lambda>(entry, offset').
                  rbind (OFPStateStats_parser lookup_scope buf offset') (\<lambda>rest.
                    Inr (\<lparr>ss_length = v ! 0, ss_table_id = v ! 1, ss_key_len = v ! 2, ss_dur_sec = v ! 3,
                          ss_dur_nsec = v ! 4, ss_hard_rb = v ! 5, ss_idle_rb = v ! 6, ss_hard_to = v ! 7,
                          ss_idle_to = v ! 8, ss_state = v ! 9, ss_fields = flds,
                          ss_field_count = int (length flds), ss_entry = entry\<rparr> # rest)))))))"
  by pat_completeness auto

termination
  by (relation "measure (\<lambda>(lookup_scope, buf, offset). length buf - offset)")
     (auto dest: OFPStateEntry_parser_offset)

declare OFPStateStats_parser.simps [simp del]

section \<open>The short form\<close>

text \<open>The attributes the short form does not carry keep the \<open>None\<close> of the constructor.\<close>

record state_stats_short =
  sh_length :: int
  sh_table_id :: int
  sh_key_len :: int
  sh_state :: int
  sh_fields :: "int list"
  sh_field_count :: int
  sh_entry :: state_entry

function OFPStateStatsShort_parser :: "scope option \<Rightarrow> bytes \<Rightarrow> nat \<Rightarrow> state_stats_short list res" where
  "OFPStateStatsShort_parser lookup_scope buf offset =
     (if length buf \<le> offset then Inr []
      else rbind (unpack_from OFP_STATE_STATS_SHORT_PACK_STR buf offset) (\<lambda>v.
           rbind (rget AttributeError lookup_scope) (\<lambda>scope.
             (case scope (v ! 1) of
                None \<Rightarrow> OFPStateStatsShort_parser lookup_scope buf (offset + OFP_STATE_STATS_SHORT_SIZE)
              | Some flds \<Rightarrow>
                  rbind (OFPStateEntry_parser buf (offset + OFP_STATE_STATS_SHORT_SIZE) (v ! 2) (v ! 3)) (\<lambda>(entry, offset').
                  rbind (OFPStateStatsShort_parser lookup_scope buf offset') (\<lambda>rest.
                    Inr (\<lparr>sh_length = v ! 0, sh_table_id = v ! 1, sh_key_len = v ! 2, sh_state = v ! 3,
                          sh_fields = flds, sh_field_count = int (length flds), sh_entry = entry\<rparr> # rest)))))))"
  by pat_completeness auto

termination
  by (relation "measure (\<lambda>(lookup_scope, buf, offset). length buf - offset)")
     (auto dest: OFPStateEntry_parser_offset)

declare OFPStateStatsShort_parser.simps [simp del]

definition OFPGlobalStateStats_parser :: "bytes \<Rightarrow> nat \<Rightarrow> int res" where
  "OFPGlobalStateStats_parser buf offset =
     rbind (unpack_from [Pad 4, fI] buf offset) (\<lambda>v. Inr (v ! 0))"

end
