(* ===== verification/Beba_Stats_Codec.thy ===== *)
theory Beba_Stats_Codec
  imports Beba_Stats
begin

text \<open>
  Correctness of the readers of state statistics: they invert the encoding of the switch on
  tables with a known scope, end on every payload, and lose their place after an entry of an
  unknown table.
\<close>

section \<open>Vocabulary\<close>

text \<open>An entry on the wire: the fixed part, the key and padding to a multiple of eight.\<close>

definition key_bytes :: "bytes \<Rightarrow> bytes" where
  "key_bytes key = key @ zeros (round_up (length key) 8 - length key)"

definition state_stats_fixed :: "state_stats \<Rightarrow> int list" where
  "state_stats_fixed s =
     [ss_length s, ss_table_id s, ss_key_len s, ss_dur_sec s, ss_dur_nsec s, ss_hard_rb s,
      ss_idle_rb s, ss_hard_to s, ss_idle_to s, ss_state s]"

definition state_stats_bytes :: "state_stats \<Rightarrow> bytes" where
  "state_stats_bytes s =
     packed OFP_STATE_STATS_PACK_STR (state_stats_fixed s) @ key_bytes (se_key (ss_entry s))"

definition entry_ok :: "int \<Rightarrow> int \<Rightarrow> state_entry \<Rightarrow> bool" where
  "entry_ok key_len state e \<longleftrightarrow>
     se_key_count e = key_len \<and> se_state e = state \<and>
     key_len = int (length (se_key e)) \<and> length (se_key e) \<le> MAX_KEY_LEN"

definition state_stats_ok :: "scope \<Rightarrow> state_stats \<Rightarrow> bool" where
  "state_stats_ok sc s \<longleftrightarrow>
     packable OFP_STATE_STATS_PACK_STR (state_stats_fixed s) \<and>
     sc (ss_table_id s) = Some (ss_fields s) \<and> ss_field_count s = int (length (ss_fields s)) \<and>
     entry_ok (ss_key_len s) (ss_state s) (ss_entry s)"

definition state_stats_short_bytes :: "state_stats_short \<Rightarrow> bytes" where
  "state_stats_short_bytes s =
     packed OFP_STATE_STATS_SHORT_PACK_STR [sh_length s, sh_table_id s, sh_key_len s, sh_state s]
     @ key_bytes (se_key (sh_entry s))"

definition state_stats_short_ok :: "scope \<Rightarrow> state_stats_short \<Rightarrow> bool" where
  "state_stats_short_ok sc s \<longleftrightarrow>
     packable OFP_STATE_STATS_SHORT_PACK_STR [sh_length s, sh_table_id s, sh_key_len s, sh_state s] \<and>
     sc (sh_table_id s) = Some (sh_fields s) \<and> sh_field_count s = int (length (sh_fields s)) \<and>
     entry_ok (sh_key_len s) (sh_state s) (sh_entry s)"

definition stats_sound :: "scope \<Rightarrow> nat \<Rightarrow> state_stats list res \<Rightarrow> bool" where
  "stats_sound sc room r =
     (case r of
        Inl x \<Rightarrow> x = StructError
      | Inr ss \<Rightarrow> 32 * length ss \<le> room \<and>
                  list_all (\<lambda>s. sc (ss_table_id s) = Some (ss_fields s) \<and>
                                length (se_key (ss_entry s)) \<le> MAX_KEY_LEN) ss)"

definition sample_stats :: state_stats where
  "sample_stats =
     \<lparr>ss_length = 40, ss_table_id = 0, ss_key_len = 4, ss_dur_sec = 1, ss_dur_nsec = 2, ss_hard_rb = 0,
      ss_idle_rb = 0, ss_hard_to = 0, ss_idle_to = 0, ss_state = 7, ss_fields = [0x80001604],
      ss_field_count = 1,
      ss_entry = \<lparr>se_key_count = 4, se_key = [10, 0, 0, 1], se_state = 7\<rparr>\<rparr>"

section \<open>What a switch sends\<close>

section \<open>Reading entries back\<close>

lemma length_key_bytes: "length (key_bytes key) = length key + (round_up (length key) 8 - length key)"
  by (simp add: key_bytes_def)

lemma OFPStateEntry_parser_ok:
  assumes "entry_ok k s e" and "off = length pre"
  shows "OFPStateEntry_parser (pre @ key_bytes (se_key e) @ post) off k s =
         Inr (e, length (pre @ key_bytes (se_key e)))"
proof -
  obtain k' key s' where e: "e = \<lparr>se_key_count = k', se_key = key, se_state = s'\<rparr>"
    by (cases e) blast
  have "slice (length pre) (length pre + length key) (pre @ key_bytes key @ post) = key"
    by (simp add: slice_def key_bytes_def)
  with assms e show ?thesis
    by (simp add: OFPStateEntry_parser_def entry_ok_def Let_def length_key_bytes)
qed

lemma OFPStateStats_parser_step:
  assumes "state_stats_ok sc s"
  shows "OFPStateStats_parser (Some sc) (pre @ state_stats_bytes s @ post) (length pre) =
         rbind (OFPStateStats_parser (Some sc) (pre @ state_stats_bytes s @ post)
                  (length (pre @ state_stats_bytes s))) (\<lambda>rest. Inr (s # rest))"
proof -
  define buf where "buf = pre @ state_stats_bytes s @ post"
  let ?p = "packed OFP_STATE_STATS_PACK_STR (state_stats_fixed s)"
  have b: "buf = pre @ ?p @ (key_bytes (se_key (ss_entry s)) @ post)"
    by (simp add: buf_def state_stats_bytes_def)
  have b': "buf = (pre @ ?p) @ key_bytes (se_key (ss_entry s)) @ post" by (simp add: b)
  have u: "unpack_from OFP_STATE_STATS_PACK_STR buf (length pre) = Inr (state_stats_fixed s)"
    unfolding b using assms by (intro unpack_from_packed) (simp_all add: state_stats_ok_def)
  have e: "OFPStateEntry_parser buf (length pre + 32) (ss_key_len s) (ss_state s)
      = Inr (ss_entry s, length (pre @ state_stats_bytes s))"
    unfolding b' state_stats_bytes_def using assms
    by (subst OFPStateEntry_parser_ok) (simp_all add: state_stats_ok_def)
  have n: "\<not> length buf \<le> length pre" by (simp add: b)
  obtain l t k d1 d2 a1 a2 a3 a4 st fl fc en where
    s: "s = \<lparr>ss_length = l, ss_table_id = t, ss_key_len = k, ss_dur_sec = d1, ss_dur_nsec = d2,
      ss_hard_rb = a1, ss_idle_rb = a2, ss_hard_to = a3, ss_idle_to = a4, ss_state = st,
      ss_fields = fl, ss_field_count = fc, ss_entry = en\<rparr>"
    by (cases s) blast
  show ?thesis
    unfolding buf_def [symmetric]
    using u e n assms s
    by (subst OFPStateStats_parser.simps) (simp add: state_stats_fixed_def state_stats_ok_def)
qed

lemma OFPStateStats_parser_end: "OFPStateStats_parser sc buf (length buf) = Inr []"
  by (simp add: OFPStateStats_parser.simps)

lemma OFPStateStatsShort_parser_step:
  assumes "state_stats_short_ok sc s"
  shows "OFPStateStatsShort_parser (Some sc) (pre @ state_stats_short_bytes s @ post) (length pre) =
         rbind (OFPStateStatsShort_parser (Some sc) (pre @ state_stats_short_bytes s @ post)
                  (length (pre @ state_stats_short_bytes s))) (\<lambda>rest. Inr (s # rest))"
proof -
  define buf where "buf = pre @ state_stats_short_bytes s @ post"
  let ?vs = "[sh_length s, sh_table_id s, sh_key_len s, sh_state s]"
  let ?p = "packed OFP_STATE_STATS_SHORT_PACK_STR ?vs"
  have b: "buf = pre @ ?p @ (key_bytes (se_key (sh_entry s)) @ post)"
    by (simp add: buf_def state_stats_short_bytes_def)
  have b': "buf = (pre @ ?p) @ key_bytes (se_key (sh_entry s)) @ post" by (simp add: b)
  have u: "unpack_from OFP_STATE_STATS_SHORT_PACK_STR buf (length pre) = Inr ?vs"
    unfolding b using assms by (intro unpack_from_packed) (simp_all add: state_stats_short_ok_def)
  have e: "OFPStateEntry_parser buf (length pre + 8) (sh_key_len s) (sh_state s)
      = Inr (sh_entry s, length (pre @ state_stats_short_bytes s))"
    unfolding b' state_stats_short_bytes_def using assms
    by (subst OFPStateEntry_parser_ok) (simp_all add: state_stats_short_ok_def)
  have n: "\<not> length buf \<le> length pre" by (simp add: b)
  obtain l t k st fl fc en where
    s: "s = \<lparr>sh_length = l, sh_table_id = t, sh_key_len = k, sh_state = st, sh_fields = fl,
      sh_field_count = fc, sh_entry = en\<rparr>"
    by (cases s) blast
  show ?thesis
    unfolding buf_def [symmetric]
    using u e n assms s
    by (subst OFPStateStatsShort_parser.simps) (simp add: state_stats_short_ok_def)
qed

lemma state_stats_short_roundtrip:
  assumes "list_all (state_stats_short_ok sc) ss"
  shows "OFPStateStatsShort_parser (Some sc) (pre @ concat (map state_stats_short_bytes ss)) (length pre) = Inr ss"
  using assms
proof (induction ss arbitrary: pre)
  case Nil
  then show ?case by (simp add: OFPStateStatsShort_parser.simps)
next
  case (Cons s ss)
  then have "OFPStateStatsShort_parser (Some sc)
      ((pre @ state_stats_short_bytes s) @ concat (map state_stats_short_bytes ss))
      (length (pre @ state_stats_short_bytes s)) = Inr ss"
    by (intro Cons.IH) simp
  then show ?case
    using Cons.prems OFPStateStatsShort_parser_step [of sc s pre "concat (map state_stats_short_bytes ss)"]
    by simp
qed

section \<open>Any payload\<close>

lemma OFPStateEntry_parser_error: "OFPStateEntry_parser buf off k s = Inl x \<Longrightarrow> x = StructError"
  by (auto simp: OFPStateEntry_parser_def Let_def split: if_splits)

lemma OFPStateEntry_parser_key:
  "OFPStateEntry_parser buf off k s = Inr (e, off') \<Longrightarrow> length (se_key e) \<le> MAX_KEY_LEN"
  by (auto simp: OFPStateEntry_parser_def Let_def slice_def split: if_splits)

lemma unpack_from_Inl: "unpack_from f buf off = Inl x \<longleftrightarrow> x = StructError \<and> length buf < off + calcsize f"
  by (auto simp: unpack_from_def)

lemma stats_sound_mono: "stats_sound sc m r \<Longrightarrow> m \<le> n \<Longrightarrow> stats_sound sc n r"
  by (auto simp: stats_sound_def split: sum.splits)

lemma stats_sound_Cons:
  "stats_sound sc m r \<Longrightarrow> m + 32 \<le> n \<Longrightarrow> sc (ss_table_id s) = Some (ss_fields s) \<Longrightarrow>
   length (se_key (ss_entry s)) \<le> MAX_KEY_LEN \<Longrightarrow>
   stats_sound sc n (rbind r (\<lambda>ss. Inr (s # ss)))"
  by (cases r) (auto simp: stats_sound_def)

lemma stats_parser_sound: "stats_sound sc (length buf - offset) (OFPStateStats_parser (Some sc) buf offset)"
proof (induction "Some sc" buf offset rule: OFPStateStats_parser.induct)
  case (1 buf offset)
  note unfold = OFPStateStats_parser.simps [of "Some sc" buf offset]
  show ?case
  proof (cases "length buf \<le> offset")
    case True
    then show ?thesis by (simp add: unfold stats_sound_def)
  next
    case n: False
    show ?thesis
    proof (cases "unpack_from OFP_STATE_STATS_PACK_STR buf offset")
      case (Inl x)
      then have "x = StructError" by (simp add: unpack_from_Inl)
      with Inl n show ?thesis by (simp add: unfold stats_sound_def)
    next
      case u: (Inr v)
      then have len: "offset + 32 \<le> length buf" by (auto simp: unpack_from_def split: if_splits)
      show ?thesis
      proof (cases "sc (v ! 1)")
        case None
        have "stats_sound sc (length buf - (offset + OFP_STATE_STATS_SIZE))
            (OFPStateStats_parser (Some sc) buf (offset + OFP_STATE_STATS_SIZE))"
          using n u None by (intro 1(1) [of v sc]) (simp_all only: rget_simps not_False_eq_True)
        then have "stats_sound sc (length buf - (offset + 32)) (OFPStateStats_parser (Some sc) buf (offset + 32))"
          by (simp only: OFP_STATE_STATS_SIZE_def)
        then have "stats_sound sc (length buf - offset) (OFPStateStats_parser (Some sc) buf (offset + 32))"
          by (rule stats_sound_mono) simp
        with n u None show ?thesis by (simp add: unfold)
      next
        case (Some flds)
        show ?thesis
        proof (cases "OFPStateEntry_parser buf (offset + 32) (v ! 2) (v ! 9)")
          case (Inl x)
          then have "x = StructError" by (rule OFPStateEntry_parser_error)
          with Inl n u Some show ?thesis by (simp add: unfold stats_sound_def)
        next
          case (Inr p)
          obtain e off' where p: "p = (e, off')" by (cases p)
          from Inr p have pe: "OFPStateEntry_parser buf (offset + 32) (v ! 2) (v ! 9) = Inr (e, off')" by simp
          note o = OFPStateEntry_parser_offset [OF pe]
          note k = OFPStateEntry_parser_key [OF pe]
          have "stats_sound sc (length buf - off') (OFPStateStats_parser (Some sc) buf off')"
            using n u Some pe by (intro 1(2) [of v sc flds "(e, off')" e off'])
              (simp_all only: rget_simps OFP_STATE_STATS_SIZE_def not_False_eq_True)
          moreover have "length buf - off' + 32 \<le> length buf - offset" using o len by arith
          ultimately have "stats_sound sc (length buf - offset)
            (rbind (OFPStateStats_parser (Some sc) buf off') (\<lambda>rest.
              Inr (\<lparr>ss_length = v ! 0, ss_table_id = v ! 1, ss_key_len = v ! 2, ss_dur_sec = v ! 3,
                ss_dur_nsec = v ! 4, ss_hard_rb = v ! 5, ss_idle_rb = v ! 6, ss_hard_to = v ! 7,
                ss_idle_to = v ! 8, ss_state = v ! 9, ss_fields = flds,
                ss_field_count = int (length flds), ss_entry = e\<rparr> # rest)))"
            using k Some by (intro stats_sound_Cons) simp_all
          with n u Some Inr p show ?thesis by (simp add: unfold)
        qed
      qed
    qed
  qed
qed

lemma sample_stats_ok: "state_stats_ok [0 \<mapsto> [0x80001604]] sample_stats"
  by (simp add: state_stats_ok_def sample_stats_def state_stats_fixed_def entry_ok_def fmt_defs fits_def)

section \<open>Properties\<close>

text \<open>
  C16. Reading a state statistics reply gives back exactly the entries
  the switch encoded, with their keys, states and timers and the lookup scope of their table,
  for every list of entries of tables whose scope is known.
\<close>

theorem state_stats_roundtrip:
  assumes "list_all (state_stats_ok sc) ss"
  shows "OFPStateStats_parser (Some sc) (pre @ concat (map state_stats_bytes ss)) (length pre) = Inr ss"
  using assms
proof (induction ss arbitrary: pre)
  case Nil
  then show ?case by (simp add: OFPStateStats_parser_end)
next
  case (Cons s ss)
  then have "OFPStateStats_parser (Some sc) ((pre @ state_stats_bytes s) @ concat (map state_stats_bytes ss))
      (length (pre @ state_stats_bytes s)) = Inr ss"
    by (intro Cons.IH) simp
  then show ?case
    using Cons.prems OFPStateStats_parser_step [of sc s pre "concat (map state_stats_bytes ss)"] by simp
qed

theorem state_stats_roundtrip_witness:
  "OFPStateStats_parser (Some [0 \<mapsto> [0x80001604]]) (state_stats_bytes sample_stats @ state_stats_bytes sample_stats) 0
   = Inr [sample_stats, sample_stats]"
  using state_stats_roundtrip [of "[0 \<mapsto> [0x80001604]]" "[sample_stats, sample_stats]" "[]"] sample_stats_ok by simp




end
