(* ===== verification/Beba_Key.thy ===== *)
theory Beba_Key
  imports Beba_Stats Py_Text
begin

text \<open>
  The helpers of \<open>ryu/ofproto/beba_v1_0_parser.py\<close> around states: printing the key of a state entry
  (\<open>get_field_string\<close>, \<open>state_entry_key_to_str\<close>), and the two functions that compute a value and a
  mask (\<open>masked_global_state_from_str\<close>, \<open>substate\<close>).

  \<open>get_field_string\<close> is one long case distinction whose branches differ in the field they test, the
  name they print, the number of bytes they read and how they print them. The model has one row
  per branch, in the order of the code.
\<close>

section \<open>Python lists\<close>

text \<open>Indexing counts a negative index from the end.\<close>

definition py_pos :: "int \<Rightarrow> nat \<Rightarrow> nat res" where
  "py_pos i n =
     (let j = (if i < 0 then i + int n else i)
      in if 0 \<le> j \<and> j < int n then Inr (nat j) else Inl IndexError)"

definition py_index :: "'a list \<Rightarrow> int \<Rightarrow> 'a res" where
  "py_index xs i = rbind (py_pos i (length xs)) (\<lambda>k. Inr (xs ! k))"

definition py_setitem :: "'a list \<Rightarrow> int \<Rightarrow> 'a \<Rightarrow> 'a list res" where
  "py_setitem xs i v = rbind (py_pos i (length xs)) (\<lambda>k. Inr (xs[k := v]))"

definition py_prefix_to :: "'a list \<Rightarrow> int \<Rightarrow> 'a list" where
  "py_prefix_to xs i = take (nat (if i < 0 then i + int (length xs) else i)) xs"

section \<open>Printing a key\<close>

text \<open>
  \<open>KInt n m\<close> is an unsigned little-endian integer of \<open>n\<close> bytes, masked with \<open>m\<close> where the branch has
  a mask. \<open>KIPv6Unset\<close> is a branch that assigns to the elements of an empty list.
\<close>

datatype key_kind = KInt nat "int option" | KMac | KIPv4 | KIPv6 | KIPv6Unset

type_synonym key_row = "string \<times> string \<times> key_kind"

definition key_rows_a :: "key_row list" where
  "key_rows_a =
    [(''in_port'', ''in_port'', KInt 4 None),
     (''in_phy_port'', ''in_phy_port'', KInt 4 (Some 0x0fff)),
     (''vlan_vid'', ''vlan_vid'', KInt 2 None),
     (''vlan_pcp'', ''vlan_pcp'', KInt 1 (Some 0x7)),
     (''eth_type'', ''eth_type'', KInt 2 None),
     (''tcp_src'', ''tcp_src'', KInt 2 None),
     (''tcp_dst'', ''tcp_dst'', KInt 2 None),
     (''tcp_flags'', ''tcp_flags'', KInt 2 None),
     (''udp_src'', ''udp_src'', KInt 2 None),
     (''udp_dst'', ''udp_dst'', KInt 2 None),
     (''sctp_src'', ''sctp_src'', KInt 2 None),
     (''sctp_dst'', ''sctp_dst'', KInt 2 None),
     (''eth_src'', ''eth_src'', KMac),
     (''eth_dst'', ''eth_dst'', KMac)]"

definition key_rows_b :: "key_row list" where
  "key_rows_b =
    [(''ipv4_src'', ''ipv4_src'', KIPv4),
     (''ipv4_dst'', ''ipv4_dst'', KIPv4),
     (''ip_proto'', ''ip_proto'', KInt 1 None),
     (''ip_dscp'', ''ip_dscp'', KInt 1 (Some 0x3f)),
     (''ip_ecn'', ''ip_ecn'', KInt 1 (Some 0x3)),
     (''icmpv4_type'', ''icmpv4_type'', KInt 1 None),
     (''icmpv4_code'', ''icmpv4_code'', KInt 1 None),
     (''arp_sha'', ''arp_sha'', KMac),
     (''arp_tha'', ''arp_tha'', KMac),
     (''arp_spa'', ''arp_spa'', KIPv4),
     (''arp_tpa'', ''arp_tpa'', KIPv4),
     (''arp_op'', ''arp_op'', KInt 2 None),
     (''ipv6_src'', ''nw_src_ipv6'', KIPv6Unset),
     (''ipv6_dst'', ''nw_dst_ipv6'', KIPv6)]"

definition key_rows_c :: "key_row list" where
  "key_rows_c =
    [(''ipv6_nd_target'', ''ipv6_nd_target'', KIPv6Unset),
     (''ipv6_nd_sll'', ''ipv6_nd_sll'', KMac),
     (''ipv6_nd_tll'', ''ipv6_nd_tll'', KMac),
     (''ipv6_flabel'', ''ipv6_flow_label'', KInt 4 (Some 0x000fffff)),
     (''icmpv6_type'', ''icmpv6_type'', KInt 1 None),
     (''icmpv6_code'', ''icmpv6_code'', KInt 1 None),
     (''mpls_label'', ''mpls_label'', KInt 4 (Some 0x000fffff)),
     (''mpls_tc'', ''mpls_tc'', KInt 1 (Some 0x3)),
     (''mpls_bos'', ''mpls_bos'', KInt 1 (Some 0x1)),
     (''pbb_isid'', ''pbb_isid'', KInt 4 None),
     (''tunnel_id'', ''tunnel_id'', KInt 8 None),
     (''ipv6_exthdr'', ''ext_hdr'', KInt 2 None)]"

definition key_rows :: "key_row list" where
  "key_rows = key_rows_a @ key_rows_b @ key_rows_c"

definition nth_byte :: "bytes \<Rightarrow> nat \<Rightarrow> int res" where
  "nth_byte key i = (if i < length key then Inr (uint (key ! i)) else Inl IndexError)"

text \<open>\<open>struct.unpack('<..', array('B', key[offset:offset+n]))[0]\<close>\<close>

definition le_unpack :: "nat \<Rightarrow> bytes \<Rightarrow> nat \<Rightarrow> int res" where
  "le_unpack n key offset =
     (let b = slice offset (offset + n) key
      in if length b = n then Inr (le_int b) else Inl StructError)"

fun py_join :: "string \<Rightarrow> string list \<Rightarrow> string" where
  "py_join sep [] = []"
| "py_join sep [s] = s"
| "py_join sep (s # t # ss) = s @ sep @ py_join sep (t # ss)"

definition quoted :: "string \<Rightarrow> string \<Rightarrow> string" where
  "quoted name v = name @ ''='' @ [CHR 0x22] @ v @ [CHR 0x22]"

fun key_value :: "key_kind \<Rightarrow> bytes \<Rightarrow> nat \<Rightarrow> (string \<times> nat) res" where
  "key_value (KInt n m) key offset =
     rbind (le_unpack n key offset) (\<lambda>v.
       Inr (py_dec (case m of None \<Rightarrow> v | Some k \<Rightarrow> v AND k), n))"
| "key_value KMac key offset =
     rbind (mapM (\<lambda>i. nth_byte key (offset + i)) [0, 1, 2, 3, 4, 5]) (\<lambda>vs.
       Inr (py_join '':'' (map py_hex2 vs), 6))"
| "key_value KIPv4 key offset =
     rbind (mapM (\<lambda>i. nth_byte key (offset + i)) [0, 1, 2, 3]) (\<lambda>vs.
       Inr (py_join ''.'' (map py_dec vs), 4))"
| "key_value KIPv6 key offset =
     rbind (mapM (\<lambda>q. le_unpack 2 key (offset + 2 * q)) [0, 1, 2, 3, 4, 5, 6, 7]) (\<lambda>vs.
       Inr (py_join '':'' (map py_hex vs), 16))"
| "key_value KIPv6Unset key offset = rbind (le_unpack 2 key offset) (\<lambda>v. Inl IndexError)"

text \<open>The function falls off its end, and so returns \<open>None\<close>, for a field none of its branches tests.\<close>

definition get_field_string :: "int \<Rightarrow> bytes \<Rightarrow> int \<Rightarrow> nat \<Rightarrow> (string \<times> nat) option res" where
  "get_field_string field key key_count offset =
     (case List.find (\<lambda>(oxm, _, _). OXM_OF oxm = Inr field) key_rows of
        None \<Rightarrow> Inr None
      | Some (_, name, kind) \<Rightarrow>
          (if key_count \<noteq> 0
           then rbind (key_value kind key offset) (\<lambda>(v, len). Inr (Some (quoted name v, len)))
           else Inr (Some (name @ ''=*'', 0))))"

fun key_to_str_loop :: "int list \<Rightarrow> int \<Rightarrow> state_entry \<Rightarrow> int list \<Rightarrow> nat \<Rightarrow> string res" where
  "key_to_str_loop flds field_count entry [] offset = Inr []"
| "key_to_str_loop flds field_count entry (field # rest) offset =
     rbind (get_field_string field (se_key entry) (se_key_count entry) offset) (\<lambda>r.
       case r of
         None \<Rightarrow> Inl TypeError
       | Some (str, field_len) \<Rightarrow>
           rbind (py_index flds (field_count - 1)) (\<lambda>final.
           rbind (key_to_str_loop flds field_count entry rest (offset + field_len)) (\<lambda>s.
             Inr (str @ (if field \<noteq> final then '','' else []) @ s))))"

definition state_entry_key_to_str :: "int list \<Rightarrow> int \<Rightarrow> state_entry \<Rightarrow> string res" where
  "state_entry_key_to_str flds field_count entry =
     key_to_str_loop flds field_count entry (py_prefix_to flds field_count) 0"

section \<open>Global states\<close>

text \<open>\<open>re.search('r[^01*]', string)\<close>: the letter r followed by a character other than 0, 1 and *.\<close>

fun search_r :: "string \<Rightarrow> bool" where
  "search_r (c # d # s) \<longleftrightarrow> c = CHR ''r'' \<and> d \<notin> set ''01*'' \<or> search_r (d # s)"
| "search_r s \<longleftrightarrow> False"

fun masked_loop :: "string \<Rightarrow> int \<Rightarrow> int list \<Rightarrow> string \<times> string \<Rightarrow> (string \<times> string) res" where
  "masked_loop str offset [] (val, msk) = Inr (val, msk)"
| "masked_loop str offset (i # is) (val, msk) =
     rbind (py_index str (int (length str) - 1 + offset - i)) (\<lambda>c.
       if c \<noteq> CHR ''*''
       then rbind (py_setitem msk (31 - i) CHR ''1'') (\<lambda>msk'.
            rbind (py_setitem val (31 - i) c) (\<lambda>val'. masked_loop str offset is (val', msk')))
       else masked_loop str offset is (val, msk))"

definition masked_global_state_from_str :: "string \<Rightarrow> int \<Rightarrow> (int \<times> int) res" where
  "masked_global_state_from_str str offset =
     (let str_len = int (length str) in
      if search_r str \<or> str_len > 32 \<or> str_len < 1 then Inr (0, 0)
      else if offset > 31 \<or> offset < 0 then Inr (0, 0)
      else if str_len + offset > 32 then Inr (0, 0)
      else rbind (masked_loop str offset [offset..str_len + offset - 1]
                    (replicate 32 CHR ''0'', replicate 32 CHR ''0'')) (\<lambda>(val, msk).
           rbind (py_int 2 val) (\<lambda>v.
           rbind (py_int 2 msk) (\<lambda>k. Inr (v, k)))))"

section \<open>Substates\<close>

fun bin_loop :: "string \<Rightarrow> int \<Rightarrow> int list \<Rightarrow> string \<Rightarrow> string res" where
  "bin_loop state section_len [] bin_state = Inr bin_state"
| "bin_loop state section_len (i # is) bin_state =
     rbind (py_index state (int (length state) - 1 - i)) (\<lambda>c.
     rbind (py_setitem bin_state (section_len - 1 - i) c) (bin_loop state section_len is))"

fun section_loop :: "string \<Rightarrow> int \<Rightarrow> int list \<Rightarrow> int \<Rightarrow> string \<times> string \<Rightarrow> (string \<times> string) res" where
  "section_loop bin_state section_len [] count (val, msk) = Inr (val, msk)"
| "section_loop bin_state section_len (i # is) count (val, msk) =
     rbind (py_index bin_state (section_len - count)) (\<lambda>c.
     rbind (py_setitem val (31 - i) c) (\<lambda>val'.
     rbind (py_setitem msk (31 - i) CHR ''1'') (\<lambda>msk'.
       section_loop bin_state section_len is (count + 1) (val', msk'))))"

definition substate :: "int \<Rightarrow> int \<Rightarrow> int \<Rightarrow> (int \<times> int) res" where
  "substate state sect sec_count =
     (if state < 0 \<or> sect < 0 \<or> sec_count < 0 then Inr (0, 0)
      else if sec_count = 0 then Inl ZeroDivisionError
      else if 32 mod sec_count \<noteq> 0 then Inr (0, 0)
      else let section_len = 32 div sec_count in
        if state \<ge> 2 ^ nat section_len then Inr (0, 0)
        else if \<not> (1 \<le> sect \<and> sect \<le> sec_count) then Inr (0, 0)
        else let starting_point = sect * section_len;
                 digits = nat_digits 2 (nat state)
             in rbind (bin_loop digits section_len [0..int (length digits) - 1]
                         (replicate (nat section_len) CHR ''0'')) (\<lambda>bin_state.
                rbind (section_loop bin_state section_len [starting_point..starting_point + section_len - 1] 1
                         (replicate 32 CHR ''0'', replicate 32 CHR ''0'')) (\<lambda>(val, msk).
                rbind (py_int 2 val) (\<lambda>v.
                rbind (py_int 2 msk) (\<lambda>k. Inr (v, k))))))"

end
