(* ===== verification/Beba_OVS.thy ===== *)
theory Beba_OVS
  imports Beba_Key
begin

text \<open>
  The wrapper that lets a BEBA application drive an Open vSwitch (\<open>OVSDatapath\<close> and
  \<open>Beba2OVSWrapper\<close> of \<open>ryu/ofproto/beba_v1_0_parser.py\<close>). \<open>send_msg\<close> intercepts every message: BEBA
  commands become flow entries of a state table or are dropped, flow-mods and group-mods are
  rewritten. A stage \<open>t\<close> of the application uses table \<open>2*t\<close> for its states and \<open>2*t+1\<close> for its flows.

  An operation returns its outcome together with the state of the datapath, because what was sent
  and recorded before an exception stays. \<open>od_sent\<close> lists the messages handed to
  \<open>Datapath.send_msg\<close>, oldest first.
\<close>

section \<open>State and messages\<close>

datatype ovs_msg =
    MExperimenter experimenter_msg
  | MExperimenterStats experimenter_msg
  | MFlowMod flow_mod
  | MGroupMod group_mod
  | MOther int

record ovs_dp =
  od_lookup_scope :: scope
  od_update_scope :: scope
  od_flowSpecMatchDict :: "int \<rightharpoonup> nx_flow_spec list"
  od_stateful_stages_in_use :: "int set"
  od_sent :: "ovs_msg list"

definition Beba2OVSWrapper :: "ovs_msg list \<Rightarrow> ovs_dp" where
  "Beba2OVSWrapper sent =
     \<lparr>od_lookup_scope = Map.empty, od_update_scope = Map.empty, od_flowSpecMatchDict = Map.empty,
      od_stateful_stages_in_use = {}, od_sent = sent\<rparr>"

definition super_send_msg :: "ovs_msg \<Rightarrow> ovs_dp \<Rightarrow> ovs_dp" where
  "super_send_msg m dp = dp\<lparr>od_sent := od_sent dp @ [m]\<rparr>"

definition get_state_table_id :: "int \<Rightarrow> int" where "get_state_table_id table_id = 2 * table_id"
definition get_flow_table_id :: "int \<Rightarrow> int" where "get_flow_table_id table_id = 2 * table_id + 1"

text \<open>The constructor of a flow-mod with its default arguments.\<close>

definition new_flow_mod :: "int \<Rightarrow> int \<Rightarrow> of_match \<Rightarrow> of_instr list \<Rightarrow> flow_mod" where
  "new_flow_mod table_id priority mt instructions =
     \<lparr>fm_cookie = 0, fm_cookie_mask = 0, fm_table_id = table_id, fm_command = OFPFC_ADD, fm_idle_timeout = 0,
      fm_hard_timeout = 0, fm_priority = priority, fm_buffer_id = OFP_NO_BUFFER, fm_out_port = 0,
      fm_out_group = 0, fm_flags = 0, fm_match = mt, fm_instructions = instructions\<rparr>"

abbreviation uint_arg :: "string \<Rightarrow> int \<Rightarrow> kv" where
  "uint_arg name i \<equiv> (name, UV (Some (VInt i)))"

section \<open>Keys as match fields\<close>

type_synonym prereq_row = "string \<times> string \<times> int"

definition prereq_rows :: "prereq_row list" where
  "prereq_rows =
    [(''ipv4_src'', ''eth_type'', 0x800),
     (''ipv4_dst'', ''eth_type'', 0x800),
     (''tcp_src'', ''ip_proto'', 6),
     (''tcp_dst'', ''ip_proto'', 6),
     (''udp_src'', ''ip_proto'', 17),
     (''udp_dst'', ''ip_proto'', 17),
     (''sctp_src'', ''ip_proto'', 132),
     (''sctp_dst'', ''ip_proto'', 132),
     (''icmpv4_type'', ''ip_proto'', 1),
     (''icmpv4_code'', ''ip_proto'', 1),
     (''arp_op'', ''eth_type'', 0x0806),
     (''arp_spa'', ''eth_type'', 0x0806),
     (''arp_tpa'', ''eth_type'', 0x0806),
     (''arp_sha'', ''eth_type'', 0x0806),
     (''arp_tha'', ''eth_type'', 0x0806),
     (''ipv6_src'', ''eth_type'', 0x86dd),
     (''ipv6_dst'', ''eth_type'', 0x86dd),
     (''ipv6_flabel'', ''eth_type'', 0x86dd),
     (''icmpv6_type'', ''ip_proto'', 58),
     (''icmpv6_code'', ''ip_proto'', 58),
     (''ipv6_nd_sll'', ''icmpv6_type'', 135),
     (''ipv6_nd_tll'', ''icmpv6_type'', 136),
     (''pbb_isid'', ''eth_type'', 0x88E7),
     (''ipv6_exthdr'', ''eth_type'', 0x86dd)]"

definition prereq_of :: "int \<Rightarrow> (string \<times> int) option" where
  "prereq_of field = map_option snd (List.find (\<lambda>(oxm, _, _). OXM_OF oxm = Inr field) prereq_rows)"

text \<open>\<open>d[k] = v\<close> on a dictionary kept as the list of its items.\<close>

fun dict_set :: "'k \<Rightarrow> 'v \<Rightarrow> ('k \<times> 'v) list \<Rightarrow> ('k \<times> 'v) list" where
  "dict_set k v [] = [(k, v)]"
| "dict_set k v ((k', v') # d) = (if k = k' then (k, v) # d else (k', v') # dict_set k v d)"

definition add_prereq_match_to_dict :: "int list \<Rightarrow> kv list \<Rightarrow> kv list" where
  "add_prereq_match_to_dict lookup_scope mt =
     foldl (\<lambda>d field. case prereq_of field of
                        None \<Rightarrow> d
                      | Some (oxm_nm, val) \<Rightarrow> dict_set oxm_nm (UV (Some (VInt val))) d) mt lookup_scope"

definition is_oxm :: "int \<Rightarrow> string list \<Rightarrow> bool" where
  "is_oxm field names \<longleftrightarrow> list_ex (\<lambda>n. OXM_OF n = Inr field) names"

fun hex_pairs :: "bytes \<Rightarrow> string list" where
  "hex_pairs (a # b # s) = (py_hex2 (uint a) @ py_hex2 (uint b)) # hex_pairs s"
| "hex_pairs s = []"

definition bytes_to_match_value :: "int \<Rightarrow> bytes \<Rightarrow> user_val option res" where
  "bytes_to_match_value field field_value =
     (let n = length field_value in
      if is_oxm field [''eth_src'', ''eth_dst'', ''arp_sha'', ''arp_tha'', ''ipv6_nd_sll'', ''ipv6_nd_tll'']
      then (if n = 6 then Inr (Some (VText (py_join '':'' (map (\<lambda>x. py_hex2 (uint x)) field_value))))
            else Inl StructError)
      else if is_oxm field [''ipv4_src'', ''ipv4_dst'', ''arp_spa'', ''arp_tpa'']
      then (if n = 4 then Inr (Some (VText (py_join ''.'' (map (\<lambda>x. py_dec (uint x)) field_value))))
            else Inl TypeError)
      else if is_oxm field [''ipv6_src'', ''ipv6_dst'', ''ipv6_nd_target'']
      then (if n = 16 then Inr (Some (VText (py_join '':'' (hex_pairs field_value)))) else Inl StructError)
      else if n = 8 \<or> n = 4 \<or> n = 2 \<or> n = 1 then Inr (Some (VInt (be_int field_value)))
      else Inr None)"

text \<open>The loop over the lookup scope that turns the key in \<open>data\<close> into match fields.\<close>

fun lookup_fields_loop :: "bytes \<Rightarrow> nat \<Rightarrow> int list \<Rightarrow> kv list \<Rightarrow> kv list res" where
  "lookup_fields_loop data key_offset [] lookup_fields = Inr lookup_fields"
| "lookup_fields_loop data key_offset (f # fs) lookup_fields =
     rbind (rget KeyError (FIELDS_HEADERS f)) (\<lambda>_.
       let n = nat (f AND 0xff) in
       rbind (struct_pack [fI, fH] [f, 0]) (\<lambda>sub.
       rbind (nx_parse_subfield sub) (\<lambda>(field_name, _).
       rbind (struct_unpack (replicate n fB) (slice key_offset (key_offset + n) data)) (\<lambda>key.
       rbind (bytes_to_match_value f (map word_of_int key)) (\<lambda>v.
         lookup_fields_loop data (key_offset + n) fs (dict_set field_name (UV v) lookup_fields))))))"

text \<open>\<open>OFPMatch(reg1=1, **lookup_fields)\<close> refuses a second \<open>reg1\<close>.\<close>

definition state_match :: "netaddr \<Rightarrow> int list \<Rightarrow> bytes \<Rightarrow> nat \<Rightarrow> of_match res" where
  "state_match na flds data key_starting_offset =
     rbind (lookup_fields_loop data key_starting_offset flds []) (\<lambda>lookup_fields.
       let kw = add_prereq_match_to_dict flds lookup_fields
       in if ''reg1'' \<in> fst ` set kw then Inl TypeError
          else OFPMatch_init na (uint_arg ''reg1'' 1 # kw))"

section \<open>State modification commands\<close>

text \<open>The table miss of a state table, and the entry that gives the default state.\<close>

definition control_flow_miss :: "netaddr \<Rightarrow> int \<Rightarrow> flow_mod res" where
  "control_flow_miss na table_id =
     rbind (OFPMatch_init na [uint_arg ''reg1'' 0]) (\<lambda>mt.
       Inr (new_flow_mod (get_state_table_id table_id) 10 mt
              [OFPInstructionActions OFPIT_APPLY_ACTIONS
                 [OFPActionSetField ''reg1'' (Some (VInt 1)),
                  NXActionResubmitTable 0xfff8 (get_state_table_id table_id),
                  NXActionResubmitTable 0xfff8 (get_flow_table_id table_id)]]))"

definition default_state :: "netaddr \<Rightarrow> int \<Rightarrow> flow_mod res" where
  "default_state na table_id =
     rbind (OFPMatch_init na [uint_arg ''reg1'' 1]) (\<lambda>mt.
       Inr (new_flow_mod (get_state_table_id table_id) 10 mt
              [OFPInstructionActions OFPIT_APPLY_ACTIONS [OFPActionSetField ''reg0'' (Some (VInt 0))]]))"

definition ovs_configure_table :: "netaddr \<Rightarrow> bytes \<Rightarrow> ovs_dp \<Rightarrow> unit res \<times> ovs_dp" where
  "ovs_configure_table na data dp =
     (case struct_unpack OFP_EXP_STATE_MOD_STATEFUL_TABLE_CONFIG_PACK_STR (slice 2 4 data) of
        Inl e \<Rightarrow> (Inl e, dp)
      | Inr v \<Rightarrow>
          (case control_flow_miss na (v ! 0) of
             Inl e \<Rightarrow> (Inl e, dp)
           | Inr miss \<Rightarrow>
               let dp1 = super_send_msg (MFlowMod miss) dp in
               (case default_state na (v ! 0) of
                  Inl e \<Rightarrow> (Inl e, dp1)
                | Inr dflt \<Rightarrow>
                    let dp2 = super_send_msg (MFlowMod dflt) dp1
                    in (Inr (), dp2\<lparr>od_stateful_stages_in_use := insert (v ! 0) (od_stateful_stages_in_use dp2)\<rparr>))))"

definition ovs_set_flow_state :: "netaddr \<Rightarrow> bytes \<Rightarrow> ovs_dp \<Rightarrow> unit res \<times> ovs_dp" where
  "ovs_set_flow_state na data dp =
     (let r = rbind (struct_unpack OFP_EXP_STATE_MOD_SET_FLOW_STATE_PACK_STR (slice 2 34 data)) (\<lambda>v.
                if 0 < v ! 1
                then rbind (rget KeyError (od_lookup_scope dp (v ! 0))) (\<lambda>flds.
                     rbind (state_match na flds data 34) (\<lambda>mt.
                       Inr (Some ((new_flow_mod (get_state_table_id (v ! 0)) 100 mt
                              [OFPInstructionActions OFPIT_APPLY_ACTIONS
                                 [OFPActionSetField ''reg1'' (Some (VInt 0)),
                                  OFPActionSetField ''reg0'' (Some (VInt (v ! 2)))]])
                            \<lparr>fm_out_port := OFPP_ANY, fm_out_group := OFPG_ANY\<rparr>))))
                else Inr None)
      in case r of
           Inl e \<Rightarrow> (Inl e, dp)
         | Inr None \<Rightarrow> (Inr (), dp)
         | Inr (Some fm) \<Rightarrow> (Inr (), super_send_msg (MFlowMod fm) dp))"

definition ovs_del_flow_state :: "netaddr \<Rightarrow> bytes \<Rightarrow> ovs_dp \<Rightarrow> unit res \<times> ovs_dp" where
  "ovs_del_flow_state na data dp =
     (let r = rbind (struct_unpack OFP_EXP_STATE_MOD_DEL_FLOW_STATE_PACK_STR (slice 2 10 data)) (\<lambda>v.
                if 0 < v ! 1
                then rbind (rget KeyError (od_lookup_scope dp (v ! 0))) (\<lambda>flds.
                     rbind (state_match na flds data 10) (\<lambda>mt.
                       Inr (Some ((new_flow_mod (get_state_table_id (v ! 0)) 100 mt [])
                            \<lparr>fm_command := OFPFC_DELETE, fm_out_port := OFPP_ANY, fm_out_group := OFPG_ANY\<rparr>))))
                else Inr None)
      in case r of
           Inl e \<Rightarrow> (Inl e, dp)
         | Inr None \<Rightarrow> (Inr (), dp)
         | Inr (Some fm) \<Rightarrow> (Inr (), super_send_msg (MFlowMod fm) dp))"

text \<open>
  The branch for the extractors unpacks three values into two names, so it never gets past its first
  statement.
\<close>

definition ovs_key_extract :: "bytes \<Rightarrow> ovs_dp \<Rightarrow> unit res \<times> ovs_dp" where
  "ovs_key_extract data dp =
     (rbind (struct_unpack OFP_EXP_STATE_MOD_EXTRACTOR_PACK_STR (slice 2 14 data)) (\<lambda>v. Inl ValueError), dp)"

definition ovs_state_mod :: "netaddr \<Rightarrow> experimenter_msg \<Rightarrow> ovs_dp \<Rightarrow> unit res \<times> ovs_dp" where
  "ovs_state_mod na m dp =
     (case struct_unpack OFP_EXP_STATE_MOD_PACK_STR (take 2 (em_data m)) of
        Inl e \<Rightarrow> (Inl e, dp)
      | Inr v \<Rightarrow>
          (let command = v ! 0 in
           if command = OFPSC_EXP_STATEFUL_TABLE_CONFIG then ovs_configure_table na (em_data m) dp
           else if command = OFPSC_EXP_SET_L_EXTRACTOR \<or> command = OFPSC_EXP_SET_U_EXTRACTOR
           then ovs_key_extract (em_data m) dp
           else if command = OFPSC_EXP_SET_FLOW_STATE then ovs_set_flow_state na (em_data m) dp
           else if command = OFPSC_EXP_DEL_FLOW_STATE then ovs_del_flow_state na (em_data m) dp
           else if command = OFPSC_EXP_SET_GLOBAL_STATE \<or> command = OFPSC_EXP_RESET_GLOBAL_STATE
           then (Inr (), dp)
           else (Inr (), super_send_msg (MExperimenter m) dp)))"

section \<open>Flow-mods and group-mods\<close>

text \<open>
  The BEBA actions of a list are taken out. The one that sets a state should become a learn action,
  but its payload has nine values and the code names eight.
\<close>

fun filter_actions :: "of_action list \<Rightarrow> of_action list res" where
  "filter_actions [] = Inr []"
| "filter_actions (act # acts) =
     (case act of
        OFPActionExperimenterUnknown experimenter data \<Rightarrow>
          (if experimenter = 0xBEBABEBA
           then rbind (rget TypeError data) (\<lambda>d.
                rbind (struct_unpack [fI] (take 4 d)) (\<lambda>t.
                  if t ! 0 = OFPAT_EXP_SET_STATE
                  then rbind (struct_unpack OFP_EXP_ACTION_SET_STATE_PACK_STR (take OFP_EXP_ACTION_SET_STATE_SIZE d))
                         (\<lambda>v. Inl ValueError)
                  else filter_actions acts))
           else rbind (filter_actions acts) (\<lambda>r. Inr (act # r)))
      | _ \<Rightarrow> rbind (filter_actions acts) (\<lambda>r. Inr (act # r)))"

definition ovs_goto :: "netaddr \<Rightarrow> int \<Rightarrow> ovs_dp \<Rightarrow> int res \<times> ovs_dp" where
  "ovs_goto na table_id dp =
     (if table_id \<notin> od_stateful_stages_in_use dp
      then (case control_flow_miss na table_id of
              Inl e \<Rightarrow> (Inl e, dp)
            | Inr miss \<Rightarrow>
                let dp1 = super_send_msg (MFlowMod miss) dp
                in (Inr (get_state_table_id table_id),
                    dp1\<lparr>od_stateful_stages_in_use := insert table_id (od_stateful_stages_in_use dp1)\<rparr>))
      else (Inr (get_state_table_id table_id), dp))"

definition ovs_instr :: "netaddr \<Rightarrow> of_instr \<Rightarrow> ovs_dp \<Rightarrow> of_instr res \<times> ovs_dp" where
  "ovs_instr na instr dp =
     (case instr of
        OFPInstructionActions type actions \<Rightarrow>
          (if type = OFPIT_WRITE_ACTIONS \<or> type = OFPIT_APPLY_ACTIONS
           then (rbind (filter_actions actions) (\<lambda>r. Inr (OFPInstructionActions type r)), dp)
           else (Inr instr, dp))
      | OFPInstructionGotoTable table_id \<Rightarrow>
          (let (r, dp') = ovs_goto na table_id dp in (rbind r (\<lambda>t. Inr (OFPInstructionGotoTable t)), dp'))
      | _ \<Rightarrow> (Inr instr, dp))"

fun ovs_instrs :: "netaddr \<Rightarrow> of_instr list \<Rightarrow> ovs_dp \<Rightarrow> of_instr list res \<times> ovs_dp" where
  "ovs_instrs na [] dp = (Inr [], dp)"
| "ovs_instrs na (instr # instrs) dp =
     (case ovs_instr na instr dp of
        (Inl e, dp') \<Rightarrow> (Inl e, dp')
      | (Inr i, dp') \<Rightarrow>
          (case ovs_instrs na instrs dp' of
             (Inl e, dp'') \<Rightarrow> (Inl e, dp'')
           | (Inr ixs, dp'') \<Rightarrow> (Inr (i # ixs), dp'')))"

fun ovs_match_fields :: "kv list \<Rightarrow> kv list" where
  "ovs_match_fields [] = []"
| "ovs_match_fields ((name, val) # fs) =
     (if name = ''state'' then (''reg0'', val) # ovs_match_fields fs
      else if name = ''global_state'' then ovs_match_fields fs
      else (name, val) # ovs_match_fields fs)"

definition ovs_flow_mod :: "netaddr \<Rightarrow> flow_mod \<Rightarrow> ovs_dp \<Rightarrow> unit res \<times> ovs_dp" where
  "ovs_flow_mod na fm dp =
     (case ovs_instrs na (fm_instructions fm) dp of
        (Inl e, dp') \<Rightarrow> (Inl e, dp')
      | (Inr ixs, dp') \<Rightarrow>
          (Inr (), super_send_msg (MFlowMod
             (fm\<lparr>fm_instructions := ixs,
                 fm_match := (fm_match fm)\<lparr>m_fields2 := ovs_match_fields (m_fields2 (fm_match fm))\<rparr>,
                 fm_table_id := get_flow_table_id (fm_table_id fm)\<rparr>)) dp'))"

definition ovs_group_mod :: "group_mod \<Rightarrow> ovs_dp \<Rightarrow> unit res \<times> ovs_dp" where
  "ovs_group_mod gm dp =
     (case mapM (\<lambda>b. rbind (filter_actions (b_actions b)) (\<lambda>r. Inr (b\<lparr>b_actions := r\<rparr>))) (gm_buckets gm) of
        Inl e \<Rightarrow> (Inl e, dp)
      | Inr bs \<Rightarrow> (Inr (), super_send_msg (MGroupMod (gm\<lparr>gm_buckets := bs\<rparr>)) dp))"

definition OVSDatapath_send_msg :: "netaddr \<Rightarrow> ovs_msg \<Rightarrow> ovs_dp \<Rightarrow> unit res \<times> ovs_dp" where
  "OVSDatapath_send_msg na msg dp =
     (case msg of
        MExperimenter m \<Rightarrow>
          (if em_experimenter m = 0xBEBABEBA \<and> em_exp_type m = OFPT_EXP_STATE_MOD then ovs_state_mod na m dp
           else (Inr (), super_send_msg msg dp))
      | MExperimenterStats m \<Rightarrow>
          (if em_experimenter m = 0xBEBABEBA then (Inr (), dp) else (Inr (), super_send_msg msg dp))
      | MFlowMod fm \<Rightarrow> ovs_flow_mod na fm dp
      | MGroupMod gm \<Rightarrow> ovs_group_mod gm dp
      | MOther _ \<Rightarrow> (Inr (), super_send_msg msg dp))"

section \<open>Learn specifications\<close>

text \<open>
  The match specifications of a table: one per field of the lookup scope, loaded from the field at
  the same position of the update scope, and one for its prerequisite. The code collects them in a
  set; the model keeps the elements of the set in the order of their insertion. The result is
  stored also when the loop raises.
\<close>

definition prereq_spec :: "string \<Rightarrow> int \<Rightarrow> nx_flow_spec res" where
  "prereq_spec oxm_nm val =
     rbind (nx_serialize_subfield (oxm_nm, 0)) (\<lambda>sub.
     rbind (struct_unpack [fI] (take 4 sub)) (\<lambda>h.
     rbind (rget KeyError (FIELDS_HEADERS (h ! 0))) (\<lambda>_.
       Inr (NXFlowSpecMatch (NXImmediate val) (oxm_nm, 0) ((h ! 0 AND 0xff) * 8)))))"

definition set_add :: "'a \<Rightarrow> 'a list \<Rightarrow> 'a list" where
  "set_add x xs = (if x \<in> set xs then xs else xs @ [x])"

definition field_spec :: "int list option \<Rightarrow> nat \<Rightarrow> int \<Rightarrow> nx_flow_spec res" where
  "field_spec update_scope idx field =
     rbind (rget KeyError (FIELDS_HEADERS field)) (\<lambda>_.
     rbind (rget KeyError update_scope) (\<lambda>us.
     rbind (if idx < length us then Inr (us ! idx) else Inl IndexError) (\<lambda>u.
     rbind (rbind (struct_pack [fI, fH] [u, 0]) nx_parse_subfield) (\<lambda>(src, src_ofs).
     rbind (rbind (struct_pack [fI, fH] [field, 0]) nx_parse_subfield) (\<lambda>dst.
       Inr (NXFlowSpecMatch (NXSubfield src src_ofs) dst ((field AND 0xff) * 8)))))))"

fun flow_spec_loop :: "int list option \<Rightarrow> nat \<Rightarrow> int list \<Rightarrow> nx_flow_spec list \<Rightarrow> unit res \<times> nx_flow_spec list" where
  "flow_spec_loop update_scope idx [] specs = (Inr (), specs)"
| "flow_spec_loop update_scope idx (field # fs) specs =
     (case field_spec update_scope idx field of
        Inl e \<Rightarrow> (Inl e, specs)
      | Inr sp \<Rightarrow>
          let specs1 = set_add sp specs;
              specs2 = (case prereq_of field of
                          None \<Rightarrow> specs1
                        | Some (oxm_nm, val) \<Rightarrow>
                            (case prereq_spec oxm_nm val of Inl _ \<Rightarrow> specs1 | Inr p \<Rightarrow> set_add p specs1))
          in flow_spec_loop update_scope (Suc idx) fs specs2)"

definition generate_NXFlowSpecMatch_and_prereq :: "int \<Rightarrow> ovs_dp \<Rightarrow> nx_flow_spec list res \<times> ovs_dp" where
  "generate_NXFlowSpecMatch_and_prereq table_id dp =
     (case od_flowSpecMatchDict dp table_id of
        Some (sp # sps) \<Rightarrow> (Inr (sp # sps), dp)
      | _ \<Rightarrow>
          (case od_lookup_scope dp table_id of
             None \<Rightarrow> (Inl KeyError, dp\<lparr>od_flowSpecMatchDict := (od_flowSpecMatchDict dp)(table_id \<mapsto> [])\<rparr>)
           | Some flds \<Rightarrow>
               let (r, specs) = flow_spec_loop (od_update_scope dp table_id) 0 flds []
               in (rbind r (\<lambda>_. Inr specs), dp\<lparr>od_flowSpecMatchDict := (od_flowSpecMatchDict dp)(table_id \<mapsto> specs)\<rparr>)))"

text \<open>\<open>'{0:032b}'.format(i)\<close>\<close>

definition fmt_032b :: "int \<Rightarrow> string" where
  "fmt_032b i =
     (let s = nat_digits 2 (nat (abs i))
      in if i < 0 then CHR ''-'' # replicate (31 - length s) CHR ''0'' @ s
         else replicate (32 - length s) CHR ''0'' @ s)"

text \<open>The spans \<open>(m.start(), m.end()-1)\<close> of the matches of \<open>1+\<close>.\<close>

fun ones_runs :: "nat \<Rightarrow> nat option \<Rightarrow> string \<Rightarrow> (nat \<times> nat) list" where
  "ones_runs i None [] = []"
| "ones_runs i (Some s) [] = [(s, i - 1)]"
| "ones_runs i None (c # cs) = (if c = CHR ''1'' then ones_runs (Suc i) (Some i) cs else ones_runs (Suc i) None cs)"
| "ones_runs i (Some s) (c # cs) =
     (if c = CHR ''1'' then ones_runs (Suc i) (Some s) cs else (s, i - 1) # ones_runs (Suc i) None cs)"

definition reg0_copy :: nx_flow_spec where
  "reg0_copy = NXFlowSpecLoad (NXSubfield ''reg0'' 0) (''reg0'', 0) 32"

definition generate_NXFlowSpecLoad :: "int \<Rightarrow> int \<Rightarrow> nx_flow_spec list res" where
  "generate_NXFlowSpecLoad state state_mask =
     (if state_mask = 0xffffffff then Inr [NXFlowSpecLoad (NXImmediate state) (''reg0'', 0) 32]
      else if state_mask = 0 then Inr [reg0_copy]
      else let idxs = ones_runs 0 None (fmt_032b state_mask);
               masked_state_str = fmt_032b (state AND state_mask)
           in if idxs = [] then Inl ValueError
              else rbind (mapM (\<lambda>(s, e). rbind (py_int 2 (slice s (e + 1) masked_state_str)) (\<lambda>v.
                            Inr (NXFlowSpecLoad (NXImmediate v) (''reg0'', 31 - int e) (int e - int s + 1)))) idxs)
                     (\<lambda>loads. Inr (reg0_copy # loads)))"

end
