(* ===== verification/Beba_Key_Codec.thy ===== *)
theory Beba_Key_Codec
  imports Beba_Key
begin

text \<open>
  Correctness of the helpers around states: binary numerals, masked global states bit by bit,
  substates as shifts, and the text of a state key as the list of its fields.
\<close>

section \<open>Vocabulary\<close>

abbreviation binary :: "string \<Rightarrow> bool" where
  "binary s \<equiv> set s \<subseteq> {CHR ''0'', CHR ''1''}"

fun bin_value :: "string \<Rightarrow> nat" where
  "bin_value [] = 0"
| "bin_value (c # s) = (if c = CHR ''1'' then 2 ^ length s else 0) + bin_value s"

text \<open>The character of the string that stands for bit \<open>i\<close>.\<close>

definition char_at :: "string \<Rightarrow> int \<Rightarrow> int \<Rightarrow> char" where
  "char_at str offset i = str ! nat (int (length str) - 1 + offset - i)"

text \<open>What a key reads as: its bytes cut into the fields one after the other.\<close>

fun kind_width :: "key_kind \<Rightarrow> nat" where
  "kind_width (KInt n m) = n"
| "kind_width KMac = 6"
| "kind_width KIPv4 = 4"
| "kind_width KIPv6 = 16"
| "kind_width KIPv6Unset = 16"

fun kind_text :: "key_kind \<Rightarrow> bytes \<Rightarrow> string" where
  "kind_text (KInt n m) b = py_dec (case m of None \<Rightarrow> le_int b | Some k \<Rightarrow> le_int b AND k)"
| "kind_text KMac b = py_join '':'' (map (\<lambda>x. py_hex2 (uint x)) b)"
| "kind_text KIPv4 b = py_join ''.'' (map (\<lambda>x. py_dec (uint x)) b)"
| "kind_text KIPv6 b = py_join '':'' (map (\<lambda>q. py_hex (le_int (slice (2 * q) (2 * q + 2) b))) [0..<8])"
| "kind_text KIPv6Unset b = []"

fun key_texts :: "(string \<times> key_kind) list \<Rightarrow> bytes \<Rightarrow> string list" where
  "key_texts [] key = []"
| "key_texts ((name, kind) # rs) key =
     quoted name (kind_text kind (take (kind_width kind) key)) # key_texts rs (drop (kind_width kind) key)"

definition field_row :: "int \<Rightarrow> key_row option" where
  "field_row field = List.find (\<lambda>(oxm, _, _). OXM_OF oxm = Inr field) key_rows"

definition readable :: "key_row \<Rightarrow> bool" where
  "readable r \<longleftrightarrow> snd (snd r) \<noteq> KIPv6Unset"

section \<open>Binary numerals\<close>

lemma char_digit_binary [simp]:
  "char_digit 2 CHR ''0'' = Some 0" "char_digit 2 CHR ''1'' = Some 1"
  by (simp_all add: char_digit_def)

lemma digits_value_binary: "binary s \<Longrightarrow> digits_value 2 acc s = Some (acc * 2 ^ length s + bin_value s)"
  by (induction s arbitrary: acc) (auto simp: algebra_simps)

lemma dropWhile_binary: "binary s \<Longrightarrow> dropWhile py_space s = s"
  by (cases s) (auto simp: py_space_def)

lemma py_strip_binary: "binary s \<Longrightarrow> py_strip s = s"
  by (simp add: py_strip_def dropWhile_binary)

lemma py_prefix_binary: "binary s \<Longrightarrow> py_prefix 2 s = s"
  by (auto simp: py_prefix_def split: list.split)

lemma py_int_binary:
  assumes "binary s" and "s \<noteq> []"
  shows "py_int 2 s = Inr (int (bin_value s))"
proof -
  obtain c t where s: "s = c # t" using assms(2) by (cases s) auto
  then have "c \<noteq> CHR ''-''" "c \<noteq> CHR ''+''" using assms(1) by auto
  then show ?thesis
    using s py_strip_binary [OF assms(1)] py_prefix_binary [OF assms(1)] digits_value_binary [OF assms(1), of 0]
    by (simp add: py_int_def Let_def del: digits_value.simps bin_value.simps)
qed

lemma bin_value_less: "bin_value s < 2 ^ length s"
  by (induction s) auto

lemma bit_bin_value: "bit (bin_value s) j \<longleftrightarrow> j < length s \<and> s ! (length s - 1 - j) = CHR ''1''"
proof (induction s arbitrary: j)
  case (Cons c s)
  have "bit (bin_value (c # s)) j \<longleftrightarrow> (c = CHR ''1'' \<and> j = length s) \<or> bit (bin_value s) j"
  proof (cases "c = CHR ''1''")
    case True
    have "bin_value (c # s) = push_bit (length s) 1 OR bin_value s"
    proof -
      have "push_bit (length s) 1 + bin_value s = push_bit (length s) 1 OR bin_value s"
      proof (rule disjunctive_add)
        fix n show "\<not> bit (push_bit (length s) (1 :: nat)) n \<or> \<not> bit (bin_value s) n"
          using Cons.IH [of n] by (auto simp: bit_push_bit_iff bit_1_iff bit_exp_iff)
      qed
      with True show ?thesis by (simp add: push_bit_eq_mult)
    qed
    with True show ?thesis by (auto simp: bit_or_iff bit_push_bit_iff bit_1_iff bit_exp_iff)
  qed simp
  moreover have "length (c # s) - 1 - j = Suc (length s - 1 - j)" if "j < length s" using that by simp
  ultimately show ?case
    using Cons.IH [of j] by (cases j "length s" rule: linorder_cases) simp_all
qed simp

lemma bit_int_bin_value: "bit (int (bin_value s)) j \<longleftrightarrow> j < length s \<and> s ! (length s - 1 - j) = CHR ''1''"
  by (simp add: bit_of_nat_iff_bit bit_bin_value del: bin_value.simps)

section \<open>Masked global states\<close>

lemma py_pos_nonneg [simp]: "0 \<le> i \<Longrightarrow> i < int n \<Longrightarrow> py_pos i n = Inr (nat i)"
  by (simp add: py_pos_def)

lemma masked_loop_ok:
  assumes "\<And>i. i \<in> set ixs \<Longrightarrow> offset \<le> i \<and> i < int (length str) + offset \<and> 0 \<le> i \<and> i < 32"
    and "length val = 32" and "length msk = 32"
  shows "\<exists>val' msk'. masked_loop str offset ixs (val, msk) = Inr (val', msk') \<and>
    length val' = 32 \<and> length msk' = 32 \<and>
    (\<forall>j < 32. msk' ! (31 - j) = (if int j \<in> set ixs \<and> char_at str offset (int j) \<noteq> CHR ''*'' then CHR ''1'' else msk ! (31 - j))) \<and>
    (\<forall>j < 32. val' ! (31 - j) = (if int j \<in> set ixs \<and> char_at str offset (int j) \<noteq> CHR ''*'' then char_at str offset (int j) else val ! (31 - j)))"
  using assms
proof (induction ixs arbitrary: val msk)
  case (Cons i ixs)
  have i: "offset \<le> i" "i < int (length str) + offset" "0 \<le> i" "i < 32" using Cons.prems(1) [of i] by auto
  have c: "py_index str (int (length str) - 1 + offset - i) = Inr (char_at str offset i)"
    using i by (simp add: py_index_def char_at_def)
  have pos: "py_pos (31 - i) 32 = Inr (31 - nat i)" using i by (simp add: nat_diff_distrib)
  show ?case
  proof (cases "char_at str offset i = CHR ''*''")
    case True
    with c Cons.IH [of val msk] Cons.prems show ?thesis by fastforce
  next
    case False
    define val1 where "val1 = val[31 - nat i := char_at str offset i]"
    define msk1 where "msk1 = msk[31 - nat i := CHR ''1'']"
    have step: "masked_loop str offset (i # ixs) (val, msk) = masked_loop str offset ixs (val1, msk1)"
      using c False pos Cons.prems(2,3) by (simp add: py_setitem_def val1_def msk1_def)
    have ne: "31 - nat i = 31 - j \<longleftrightarrow> i = int j" if "j < 32" for j using that i by auto
    have upd: "val1 ! (31 - j) = (if i = int j then char_at str offset i else val ! (31 - j))"
        "msk1 ! (31 - j) = (if i = int j then CHR ''1'' else msk ! (31 - j))" if "j < 32" for j
      using Cons.prems(2,3) ne [OF that] by (auto simp: val1_def msk1_def nth_list_update)
    have "length val1 = 32" "length msk1 = 32" using Cons.prems by (simp_all add: val1_def msk1_def)
    with Cons.IH [of val1 msk1] Cons.prems(1) obtain val' msk' where
      r: "masked_loop str offset ixs (val1, msk1) = Inr (val', msk')" "length val' = 32" "length msk' = 32"
      and m: "\<forall>j < 32. msk' ! (31 - j) = (if int j \<in> set ixs \<and> char_at str offset (int j) \<noteq> CHR ''*'' then CHR ''1'' else msk1 ! (31 - j))"
      and v: "\<forall>j < 32. val' ! (31 - j) = (if int j \<in> set ixs \<and> char_at str offset (int j) \<noteq> CHR ''*'' then char_at str offset (int j) else val1 ! (31 - j))"
      by auto
    show ?thesis
      unfolding step using r m v upd False by (intro exI [of _ val'] exI [of _ msk']) auto
  qed
qed simp

lemma search_r_clean: "set str \<subseteq> set ''01*'' \<Longrightarrow> \<not> search_r str"
  by (induction str rule: search_r.induct) auto

lemma binary_nth: "(\<And>j. j < length s \<Longrightarrow> s ! (length s - 1 - j) \<in> {CHR ''0'', CHR ''1''}) \<Longrightarrow> binary s"
proof
  fix c assume a: "\<And>j. j < length s \<Longrightarrow> s ! (length s - 1 - j) \<in> {CHR ''0'', CHR ''1''}" and "c \<in> set s"
  then obtain k where k: "k < length s" "c = s ! k" by (auto simp: in_set_conv_nth)
  with a [of "length s - 1 - k"] show "c \<in> {CHR ''0'', CHR ''1''}" by auto
qed

section \<open>Substates\<close>

lemma bin_value_snoc: "bin_value (s @ [c]) = 2 * bin_value s + (if c = CHR ''1'' then 1 else 0)"
  by (induction s) auto

lemma digit_char_binary: "d < 2 \<Longrightarrow> digit_char d = (if d = 1 then CHR ''1'' else CHR ''0'')"
  by (auto simp: digit_char_def char_of_def less_2_cases_iff bit_Suc_0_iff)

lemma nat_digits_binary: "binary (nat_digits 2 n)"
proof (induction "2 :: nat" n rule: nat_digits.induct)
  case (1 n)
  show ?case
  proof (cases "n < 2")
    case True
    then show ?thesis by (simp add: nat_digits.simps [of 2 n] digit_char_binary)
  next
    case False
    with 1 show ?thesis by (simp add: nat_digits.simps [of 2 n] digit_char_binary)
  qed
qed

lemma bin_value_nat_digits: "bin_value (nat_digits 2 n) = n"
proof (induction "2 :: nat" n rule: nat_digits.induct)
  case (1 n)
  show ?case
  proof (cases "n < 2")
    case True
    then show ?thesis by (auto simp: nat_digits.simps [of 2 n] digit_char_binary)
  next
    case False
    with 1 have "bin_value (nat_digits 2 (n div 2)) = n div 2" by simp
    then have "bin_value (nat_digits 2 n) = 2 * (n div 2) + n mod 2"
      using False by (simp add: nat_digits.simps [of 2 n] bin_value_snoc digit_char_binary) presburger
    also have "\<dots> = n" by simp
    finally show ?thesis .
  qed
qed

lemma bit_nat_digits: "bit n j \<longleftrightarrow> j < length (nat_digits 2 n) \<and> nat_digits 2 n ! (length (nat_digits 2 n) - 1 - j) = CHR ''1''"
  using bit_bin_value [of "nat_digits 2 n" j] by (simp add: bin_value_nat_digits)

lemma length_nat_digits_binary:
  assumes "n < 2 ^ L" and "0 < L"
  shows "length (nat_digits 2 n) \<le> L"
  using assms
proof (induction L arbitrary: n)
  case (Suc L)
  show ?case
  proof (cases "n < 2")
    case True
    then show ?thesis by (simp add: nat_digits.simps [of 2 n])
  next
    case False
    with Suc.prems have "n div 2 < 2 ^ L" "0 < L" by (auto intro!: Nat.gr0I)
    with Suc.IH False show ?thesis by (simp add: nat_digits.simps [of 2 n])
  qed
qed simp

lemma bin_loop_ok:
  assumes "\<And>i. i \<in> set ixs \<Longrightarrow> 0 \<le> i \<and> i < int (length state) \<and> i < int L" and "length bs = L"
  shows "\<exists>bs'. bin_loop state (int L) ixs bs = Inr bs' \<and> length bs' = L \<and>
    (\<forall>j < L. bs' ! (L - 1 - j) = (if int j \<in> set ixs then state ! (length state - 1 - j) else bs ! (L - 1 - j)))"
  using assms
proof (induction ixs arbitrary: bs)
  case (Cons i ixs)
  then obtain k where k: "i = int k" "k < length state" "k < L"
    using Cons.prems(1) [of i] by (metis list.set_intros(1) of_nat_less_iff zero_le_imp_eq_int)
  define bs1 where "bs1 = bs[L - 1 - k := state ! (length state - 1 - k)]"
  have p: "py_index state (int (length state) - 1 - i) = Inr (state ! (length state - 1 - k))"
  proof -
    have "nat (int (length state) - 1 - i) = length state - 1 - k" using k by auto
    with k show ?thesis by (simp add: py_index_def)
  qed
  have q: "py_setitem bs (int L - 1 - i) (state ! (length state - 1 - k)) = Inr bs1"
  proof -
    have "nat (int L - 1 - i) = L - 1 - k" using k by auto
    with k Cons.prems(2) show ?thesis by (simp add: py_setitem_def bs1_def)
  qed
  have upd: "bs1 ! (L - 1 - j) = (if i = int j then state ! (length state - 1 - j) else bs ! (L - 1 - j))"
    if "j < L" for j
  proof (cases "j = k")
    case True
    with k Cons.prems(2) show ?thesis by (simp add: bs1_def)
  next
    case False
    then have "L - 1 - k \<noteq> L - 1 - j" using k that by auto
    with False k show ?thesis by (simp add: bs1_def)
  qed
  have "length bs1 = L" using Cons.prems(2) by (simp add: bs1_def)
  with Cons.IH [of bs1] Cons.prems(1) obtain bs' where
    r: "bin_loop state (int L) ixs bs1 = Inr bs'" "length bs' = L"
    and v: "\<And>j. j < L \<Longrightarrow> bs' ! (L - 1 - j) = (if int j \<in> set ixs then state ! (length state - 1 - j) else bs1 ! (L - 1 - j))"
    by auto
  have "bs' ! (L - 1 - j) = (if int j \<in> set (i # ixs) then state ! (length state - 1 - j) else bs ! (L - 1 - j))"
    if "j < L" for j
    using v [OF that] upd [OF that] by simp
  with r p q show ?case by (intro exI [of _ bs']) simp
qed simp

lemma section_loop_ok:
  assumes sp: "sp = 32 \<and> s = 0 \<or> sp = s" and "s + L \<le> 32" and "length bs = L"
    and "n \<le> L" and "length val = 32" and "length msk = 32"
  shows "\<exists>val' msk'. section_loop bs (int L) [int (sp + (L - n))..int (sp + L) - 1] (int (L - n) + 1) (val, msk) = Inr (val', msk') \<and>
    length val' = 32 \<and> length msk' = 32 \<and>
    (\<forall>j < 32. val' ! (31 - j) = (if s + (L - n) \<le> j \<and> j < s + L then bs ! (L - 1 - (j - s)) else val ! (31 - j)) \<and>
              msk' ! (31 - j) = (if s + (L - n) \<le> j \<and> j < s + L then CHR ''1'' else msk ! (31 - j)))"
  using assms(4-6)
proof (induction n arbitrary: val msk)
  case 0
  then show ?case by (intro exI [of _ val] exI [of _ msk]) auto
next
  case (Suc n)
  define t where "t = L - Suc n"
  have t: "L - n = Suc t" "t < L" using Suc.prems(1) by (auto simp: t_def)
  define val1 where "val1 = val[31 - (s + t) := bs ! (L - 1 - t)]"
  define msk1 where "msk1 = msk[31 - (s + t) := CHR ''1'']"
  have l1: "length val1 = 32" "length msk1 = 32" using Suc.prems by (simp_all add: val1_def msk1_def)
  have c: "py_index bs (int L - (int t + 1)) = Inr (bs ! (L - 1 - t))"
  proof -
    have "nat (int L - (int t + 1)) = L - 1 - t" using t by auto
    with t assms(3) show ?thesis by (simp add: py_index_def)
  qed
  have pos: "py_pos (31 - int (sp + t)) 32 = Inr (31 - (s + t))"
    using sp t assms(2) by (auto simp: py_pos_def)
  have up: "[int (sp + t)..int (sp + L) - 1] = int (sp + t) # [int (sp + Suc t)..int (sp + L) - 1]"
    using t by (subst upto_rec1) (auto simp: add.commute)
  have step: "section_loop bs (int L) [int (sp + t)..int (sp + L) - 1] (int t + 1) (val, msk) =
      section_loop bs (int L) [int (sp + Suc t)..int (sp + L) - 1] (int (Suc t) + 1) (val1, msk1)"
    unfolding up using c pos Suc.prems(2,3)
    by (simp add: py_setitem_def val1_def msk1_def add.commute add.left_commute del: of_nat_add of_nat_Suc)
       (simp add: add.commute)
  have upd: "val1 ! (31 - j) = (if j = s + t then bs ! (L - 1 - t) else val ! (31 - j))"
      "msk1 ! (31 - j) = (if j = s + t then CHR ''1'' else msk ! (31 - j))" if "j < 32" for j
  proof -
    have "31 - (s + t) = 31 - j \<longleftrightarrow> j = s + t" using that t assms(2) by auto
    then show "val1 ! (31 - j) = (if j = s + t then bs ! (L - 1 - t) else val ! (31 - j))"
      "msk1 ! (31 - j) = (if j = s + t then CHR ''1'' else msk ! (31 - j))"
      using Suc.prems(2,3) that by (auto simp: val1_def msk1_def nth_list_update)
  qed
  obtain val' msk' where r: "section_loop bs (int L) [int (sp + Suc t)..int (sp + L) - 1] (int (Suc t) + 1) (val1, msk1) = Inr (val', msk')"
      "length val' = 32" "length msk' = 32"
    and v: "\<And>j. j < 32 \<Longrightarrow> val' ! (31 - j) = (if s + Suc t \<le> j \<and> j < s + L then bs ! (L - 1 - (j - s)) else val1 ! (31 - j)) \<and>
              msk' ! (31 - j) = (if s + Suc t \<le> j \<and> j < s + L then CHR ''1'' else msk1 ! (31 - j))"
    using Suc.IH [OF _ l1] Suc.prems(1) unfolding t(1) by auto
  have "val' ! (31 - j) = (if s + t \<le> j \<and> j < s + L then bs ! (L - 1 - (j - s)) else val ! (31 - j)) \<and>
      msk' ! (31 - j) = (if s + t \<le> j \<and> j < s + L then CHR ''1'' else msk ! (31 - j))" if "j < 32" for j
    using v [OF that] upd [OF that] t by (cases "j = s + t") auto
  with r step show ?case
    unfolding t_def [symmetric] by (intro exI [of _ val'] exI [of _ msk']) simp
qed

lemma section_start:
  assumes "L * n = 32" and "1 \<le> k" and "k \<le> n"
  shows "k * L = 32 \<and> (k * L) mod 32 = 0 \<or> k * L = (k * L) mod 32" and "(k * L) mod 32 + L \<le> (32 :: nat)"
proof -
  have L: "0 < L" using assms(1) by (cases L) auto
  consider (eq) "k = n" | (lt) "Suc k \<le> n" using assms(3) by fastforce
  then have "k * L = 32 \<and> (k * L) mod 32 = 0 \<or> k * L = (k * L) mod 32 \<and> k * L + L \<le> 32"
  proof cases
    case eq
    then show ?thesis using assms(1) by (simp add: mult.commute)
  next
    case lt
    then have "Suc k * L \<le> n * L" by (intro mult_le_mono1)
    then have "k * L + L \<le> 32" using assms(1) by (simp add: mult.commute)
    with L show ?thesis by simp
  qed
  moreover have "L \<le> 32" using assms by (metis dvd_imp_le dvd_triv_left zero_less_numeral)
  ultimately show "k * L = 32 \<and> (k * L) mod 32 = 0 \<or> k * L = (k * L) mod 32" "(k * L) mod 32 + L \<le> 32"
    by auto
qed

lemma substate_nat:
  assumes "L * n = 32" and "1 \<le> k" and "k \<le> n" and st: "st < 2 ^ L"
  shows "substate (int st) (int k) (int n) =
         Inr (int (push_bit ((k * L) mod 32) st), int (push_bit ((k * L) mod 32) (2 ^ L - 1)))"
proof -
  define s where "s = (k * L) mod 32"
  define ds where "ds = nat_digits 2 st"
  define z where "z = replicate L CHR ''0''"
  define zz where "zz = replicate 32 CHR ''0''"
  have L: "0 < L" and n: "0 < n" using assms(1) by (auto intro!: Nat.gr0I)
  have sL: "s + L \<le> 32" and sp: "k * L = 32 \<and> s = 0 \<or> k * L = s"
    using section_start [OF assms(1-3)] by (auto simp: s_def)
  have dL: "length ds \<le> L" unfolding ds_def by (rule length_nat_digits_binary [OF st L])
  obtain bs where b: "bin_loop ds (int L) [0..int (length ds) - 1] z = Inr bs" "length bs = L"
    and bv: "\<And>j. j < L \<Longrightarrow> bs ! (L - 1 - j) = (if int j \<in> set [0..int (length ds) - 1] then ds ! (length ds - 1 - j) else z ! (L - 1 - j))"
    using bin_loop_ok [of "[0..int (length ds) - 1]" ds L z] dL by (auto simp: z_def)
  obtain val msk where r: "section_loop bs (int L) [int (k * L)..int (k * L + L) - 1] 1 (zz, zz) = Inr (val, msk)"
    and l: "length val = 32" "length msk = 32"
    and v: "\<And>j. j < 32 \<Longrightarrow> val ! (31 - j) = (if s \<le> j \<and> j < s + L then bs ! (L - 1 - (j - s)) else zz ! (31 - j)) \<and>
              msk ! (31 - j) = (if s \<le> j \<and> j < s + L then CHR ''1'' else zz ! (31 - j))"
    using section_loop_ok [of "k * L" s L bs L zz zz, OF sp sL b(2)] by (auto simp: zz_def)
  have bit_char: "bs ! (L - 1 - u) = (if bit st u then CHR ''1'' else CHR ''0'')" if "u < L" for u
  proof -
    have "ds ! (length ds - 1 - u) \<in> {CHR ''0'', CHR ''1''}" if "u < length ds"
    proof -
      have "ds ! (length ds - 1 - u) \<in> set ds" using that by (intro nth_mem) auto
      with nat_digits_binary [of st] show ?thesis unfolding ds_def by (rule subsetD)
    qed
    with bv [OF that] bit_nat_digits [of st u] that show ?thesis
      by (auto simp: ds_def z_def)
  qed
  have zz: "zz ! (31 - j) = CHR ''0''" if "j < 32" for j using that by (simp add: zz_def)
  have vj: "val ! (31 - j) = (if s \<le> j \<and> j < s + L \<and> bit st (j - s) then CHR ''1'' else CHR ''0'')"
    "msk ! (31 - j) = (if s \<le> j \<and> j < s + L then CHR ''1'' else CHR ''0'')" if "j < 32" for j
    using v [OF that] zz [OF that] bit_char [of "j - s"] by (auto split: if_splits)
  have bins: "binary val" "binary msk"
    by (rule binary_nth; use vj l in simp)+
  have p: "py_int 2 val = Inr (int (bin_value val))" "py_int 2 msk = Inr (int (bin_value msk))"
    using bins l by (auto intro!: py_int_binary)
  have small: "u < L" if "bit st u" for u
    using st that by (metis bit_take_bit_iff take_bit_nat_eq_self)
  have "bin_value val = push_bit s st"
  proof (rule bit_eqI)
    fix j show "bit (bin_value val) j = bit (push_bit s st) j"
    proof (cases "s \<le> j \<and> bit st (j - s)")
      case True
      with small [of "j - s"] sL have "j < 32" "j < s + L" by auto
      with True vj(1) [of j] l show ?thesis by (simp add: bit_bin_value bit_push_bit_iff)
    next
      case False
      with vj(1) [of j] l show ?thesis by (auto simp: bit_bin_value bit_push_bit_iff)
    qed
  qed
  moreover have "bin_value msk = push_bit s (2 ^ L - 1)"
  proof (rule bit_eqI)
    fix j
    have "bit (push_bit s (mask L :: nat)) j \<longleftrightarrow> s \<le> j \<and> j < s + L"
      by (auto simp: bit_push_bit_iff_nat bit_mask_iff)
    then have "bit (push_bit s (2 ^ L - 1 :: nat)) j \<longleftrightarrow> s \<le> j \<and> j < s + L"
      by (simp only: mask_eq_exp_minus_1)
    moreover have "bit (bin_value msk) j \<longleftrightarrow> s \<le> j \<and> j < s + L"
      using vj(2) [of j] l sL by (cases "s \<le> j \<and> j < s + L") (auto simp: bit_bin_value)
    ultimately show "bit (bin_value msk) j = bit (push_bit s (2 ^ L - 1 :: nat)) j" by (simp only:)
  qed
  moreover have "substate (int st) (int k) (int n) = Inr (int (bin_value val), int (bin_value msk))"
  proof -
    have d: "32 div int n = int L" "32 mod int n = 0"
    proof -
      have "(32 :: int) = int L * int n" using assms(1) by (metis of_nat_mult of_nat_numeral)
      then have "32 div int n = int L * int n div int n" "32 mod int n = int L * int n mod int n" by simp_all
      with n show "32 div int n = int L" "32 mod int n = 0" by simp_all
    qed
    have "int st < 2 ^ L" using st by (metis of_nat_less_iff of_nat_numeral of_nat_power)
    with d n b r p assms(2,3) show ?thesis
      by (simp add: substate_def ds_def z_def zz_def)
  qed
  ultimately show ?thesis by (simp add: s_def)
qed

section \<open>The text of a key\<close>

lemma mapM_nth_byte:
  assumes "\<And>i. i \<in> set ixs \<Longrightarrow> offset + i < length key"
  shows "mapM (\<lambda>i. nth_byte key (offset + i)) ixs = Inr (map (\<lambda>i. uint (key ! (offset + i))) ixs)"
  using assms by (induction ixs) (auto simp: nth_byte_def)

lemma slice_nths: "offset + n \<le> length key \<Longrightarrow> slice offset (offset + n) key = map (\<lambda>i. key ! (offset + i)) [0..<n]"
  by (intro nth_equalityI) (auto simp: slice_def)

lemma mapM_le_unpack:
  assumes "\<And>q. q \<in> set ixs \<Longrightarrow> offset + 2 * q + 2 \<le> length key"
  shows "mapM (\<lambda>q. le_unpack 2 key (offset + 2 * q)) ixs =
         Inr (map (\<lambda>q. le_int (slice (offset + 2 * q) (offset + 2 * q + 2) key)) ixs)"
proof -
  have "le_unpack 2 key (offset + 2 * q) = Inr (le_int (slice (offset + 2 * q) (offset + 2 * q + 2) key))"
    if "q \<in> set ixs" for q
    using assms [OF that] by (simp add: le_unpack_def Let_def slice_def)
  then show ?thesis by (induction ixs) auto
qed

lemma slice_slice: "offset + i + n \<le> length key \<Longrightarrow> i + n \<le> m \<Longrightarrow>
  slice i (i + n) (slice offset (offset + m) key) = slice (offset + i) (offset + i + n) key"
  by (simp add: slice_def drop_take add.commute)

lemma key_value_ok:
  assumes "offset + kind_width kind \<le> length key" and "kind \<noteq> KIPv6Unset"
  shows "key_value kind key offset =
         Inr (kind_text kind (slice offset (offset + kind_width kind) key), kind_width kind)"
proof (cases kind)
  case (KInt n m)
  then show ?thesis using assms by (auto simp: le_unpack_def Let_def slice_def)
next
  case KMac
  have r: "[0, 1, 2, 3, 4, 5] = [0..<6::nat]" by (simp add: upt_rec)
  show ?thesis
    using assms mapM_nth_byte [of "[0..<6]" offset key] slice_nths [of offset 6 key]
    unfolding KMac key_value.simps r by (simp add: comp_def)
next
  case KIPv4
  have r: "[0, 1, 2, 3] = [0..<4::nat]" by (simp add: upt_rec)
  show ?thesis
    using assms mapM_nth_byte [of "[0..<4]" offset key] slice_nths [of offset 4 key]
    unfolding KIPv4 key_value.simps r by (simp add: comp_def)
next
  case KIPv6
  have r: "[0, 1, 2, 3, 4, 5, 6, 7] = [0..<8::nat]" by (simp add: upt_rec)
  define vs where "vs = map (\<lambda>q. le_int (slice (offset + 2 * q) (offset + 2 * q + 2) key)) [0..<8]"
  have m: "mapM (\<lambda>q. le_unpack 2 key (offset + 2 * q)) [0..<8] = Inr vs"
    unfolding vs_def using assms KIPv6 by (intro mapM_le_unpack) auto
  have "map py_hex vs = map (\<lambda>q. py_hex (le_int (slice (2 * q) (2 * q + 2) (slice offset (offset + 16) key)))) [0..<8]"
    unfolding vs_def map_map comp_def
  proof (intro map_cong refl arg_cong [of _ _ py_hex] arg_cong [of _ _ le_int])
    fix q assume "q \<in> set [0..<8]"
    then show "slice (offset + 2 * q) (offset + 2 * q + 2) key = slice (2 * q) (2 * q + 2) (slice offset (offset + 16) key)"
      using slice_slice [of offset "2 * q" 2 key 16] assms KIPv6 by simp
  qed
  with m show ?thesis
    unfolding KIPv6 key_value.simps r by (simp only: rbind_simps kind_text.simps kind_width.simps)
qed (use assms in simp)

lemma get_field_string_ok:
  assumes "field_row f = Some (oxm, name, kind)" and "kind \<noteq> KIPv6Unset" and "kc \<noteq> 0"
    and "offset + kind_width kind \<le> length key"
  shows "get_field_string f key kc offset =
         Inr (Some (quoted name (kind_text kind (take (kind_width kind) (drop offset key))), kind_width kind))"
  using assms key_value_ok [OF assms(4,2)] by (simp add: get_field_string_def field_row_def slice_def)

lemma key_to_str_loop_ok:
  assumes "list_all2 (\<lambda>f r. field_row f = Some r) fs rows" and "list_all readable rows"
    and "offset + sum_list (map (\<lambda>r. kind_width (snd (snd r))) rows) \<le> length (se_key e)"
    and "se_key_count e \<noteq> 0" and "py_index flds (fc - 1) = Inr final"
    and "fs \<noteq> []" and "last fs = final" and "final \<notin> set (butlast fs)"
  shows "key_to_str_loop flds fc e fs offset =
         Inr (py_join '','' (key_texts (map snd rows) (drop offset (se_key e))))"
  using assms(1-3,6-8)
proof (induction fs arbitrary: rows offset)
  case (Cons f fs)
  then obtain oxm name kind rs where rows: "rows = (oxm, name, kind) # rs"
    and f: "field_row f = Some (oxm, name, kind)" and rs: "list_all2 (\<lambda>f r. field_row f = Some r) fs rs"
    by (auto simp: list_all2_Cons1)
  let ?t = "quoted name (kind_text kind (take (kind_width kind) (drop offset (se_key e))))"
  have g: "get_field_string f (se_key e) (se_key_count e) offset = Inr (Some (?t, kind_width kind))"
    using Cons.prems rows assms(4) by (intro get_field_string_ok [OF f]) (auto simp: readable_def)
  show ?case
  proof (cases "fs = []")
    case True
    with rs have "rs = []" by simp
    with True g rows assms(5) Cons.prems show ?thesis by simp
  next
    case False
    with Cons.prems have "f \<noteq> final" by (auto split: if_splits)
    moreover have "key_to_str_loop flds fc e fs (offset + kind_width kind) =
        Inr (py_join '','' (key_texts (map snd rs) (drop (offset + kind_width kind) (se_key e))))"
      using Cons.prems rows False by (intro Cons.IH [OF rs]) (auto simp: add.assoc split: if_splits)
    moreover obtain f' fs' r' rs' where "fs = f' # fs'" "rs = r' # rs'"
      using False rs by (cases fs; cases rs) auto
    ultimately show ?thesis
      using g rows assms(5) by (cases r') (auto simp: add.commute)
  qed
qed simp

lemma sample_rows:
  "field_row 0x80001604 = Some (''ipv4_src'', ''ipv4_src'', KIPv4)"
  "field_row 0x80001A02 = Some (''tcp_src'', ''tcp_src'', KInt 2 None)"
  by code_simp+

section \<open>Properties\<close>

text \<open>
  C29. masked_global_state_from_str computes, for a string over 0, 1
  and * that fits at its offset, the mask whose bits are the places that are not * and the value
  whose bits are the places that are 1.
\<close>

theorem masked_global_state_bits:
  assumes chars: "set str \<subseteq> {CHR ''0'', CHR ''1'', CHR ''*''}" and "str \<noteq> []" and "length str + offset \<le> 32"
  shows "\<exists>v k. masked_global_state_from_str str (int offset) = Inr (v, k) \<and>
     (\<forall>j. bit k j \<longleftrightarrow> offset \<le> j \<and> j < offset + length str \<and> rev str ! (j - offset) \<noteq> CHR ''*'') \<and>
     (\<forall>j. bit v j \<longleftrightarrow> offset \<le> j \<and> j < offset + length str \<and> rev str ! (j - offset) = CHR ''1'')"
proof -
  define z where "z = replicate 32 CHR ''0''"
  define ixs where "ixs = [int offset..int (length str) + int offset - 1]"
  have "length z = 32" by (simp add: z_def)
  then obtain val msk where r: "masked_loop str (int offset) ixs (z, z) = Inr (val, msk)"
      and l: "length val = 32" "length msk = 32"
      and m: "\<forall>j < 32. msk ! (31 - j) = (if int j \<in> set ixs \<and> char_at str (int offset) (int j) \<noteq> CHR ''*'' then CHR ''1'' else z ! (31 - j))"
      and v: "\<forall>j < 32. val ! (31 - j) = (if int j \<in> set ixs \<and> char_at str (int offset) (int j) \<noteq> CHR ''*'' then char_at str (int offset) (int j) else z ! (31 - j))"
    using masked_loop_ok [of ixs "int offset" str z z] assms(3) by (auto simp: ixs_def)
  have ch: "char_at str (int offset) (int j) = rev str ! (j - offset)" if "int j \<in> set ixs" for j
  proof -
    have j: "j - offset < length str" using that by (auto simp: ixs_def)
    have "nat (int (length str) - 1 + int offset - int j) = length str - Suc (j - offset)"
      using that by (auto simp: ixs_def)
    with rev_nth [OF j] show ?thesis by (simp only: char_at_def)
  qed
  have inis: "int j \<in> set ixs \<longleftrightarrow> offset \<le> j \<and> j < offset + length str" for j by (auto simp: ixs_def)
  have cs: "rev str ! (j - offset) \<in> {CHR ''0'', CHR ''1'', CHR ''*''}" if "offset \<le> j \<and> j < offset + length str" for j
  proof -
    have "rev str ! (j - offset) \<in> set (rev str)" using that by (intro nth_mem) auto
    with chars show ?thesis by auto
  qed
  have z: "z ! (31 - j) = CHR ''0''" if "j < 32" for j using that by (simp add: z_def)
  have bm: "msk ! (31 - j) = (if offset \<le> j \<and> j < offset + length str \<and> rev str ! (j - offset) \<noteq> CHR ''*''
      then CHR ''1'' else CHR ''0'')" if "j < 32" for j
    using m [rule_format, OF that] ch [of j] inis [of j] z [OF that] by (auto split: if_splits)
  have bv: "val ! (31 - j) = (if offset \<le> j \<and> j < offset + length str \<and> rev str ! (j - offset) \<noteq> CHR ''*''
      then rev str ! (j - offset) else CHR ''0'')" if "j < 32" for j
    using v [rule_format, OF that] ch [of j] inis [of j] z [OF that] by (auto split: if_splits)
  have "binary msk" by (rule binary_nth) (use bm l in auto)
  moreover have "binary val"
  proof (rule binary_nth)
    fix j assume "j < length val"
    then show "val ! (length val - 1 - j) \<in> {CHR ''0'', CHR ''1''}"
      using bv [of j] cs [of j] l by (simp split: if_splits)
  qed
  ultimately have pi: "py_int 2 val = Inr (int (bin_value val))" "py_int 2 msk = Inr (int (bin_value msk))"
    using l by (auto intro!: py_int_binary)
  have "masked_global_state_from_str str (int offset) = Inr (int (bin_value val), int (bin_value msk))"
    using search_r_clean [of str] chars assms(2,3) r pi
    by (cases str) (auto simp: masked_global_state_from_str_def Let_def ixs_def z_def)
  moreover have "bit (int (bin_value msk)) j \<longleftrightarrow>
      offset \<le> j \<and> j < offset + length str \<and> rev str ! (j - offset) \<noteq> CHR ''*''" for j
    using bm [of j] l assms(3) by (auto simp: bit_int_bin_value split: if_splits)
  moreover have "bit (int (bin_value val)) j \<longleftrightarrow>
      offset \<le> j \<and> j < offset + length str \<and> rev str ! (j - offset) = CHR ''1''" for j
    using bv [of j] l assms(3) by (auto simp: bit_int_bin_value split: if_splits)
  ultimately show ?thesis by blast
qed

theorem masked_global_state_bits_witness:
  "\<exists>v k. masked_global_state_from_str ''0*1100'' 0 = Inr (v, k) \<and> bit v 3 \<and> bit k 5 \<and> \<not> bit k 4"
  using masked_global_state_bits [of "''0*1100''" 0] by fastforce



text \<open>
  C28. The text of a state key is the comma separated list of its fields,
  each with the value at its place in the key, when the key is long enough, no field is one of
  the two unreadable IPv6 fields and the last field of the scope occurs once.
\<close>

theorem state_entry_key_text:
  assumes "list_all2 (\<lambda>f r. field_row f = Some r) flds rows" and "list_all readable rows"
    and "sum_list (map (\<lambda>r. kind_width (snd (snd r))) rows) \<le> length (se_key e)"
    and "se_key_count e \<noteq> 0" and "flds \<noteq> []" and "last flds \<notin> set (butlast flds)"
  shows "state_entry_key_to_str flds (int (length flds)) e =
         Inr (py_join '','' (key_texts (map snd rows) (se_key e)))"
proof -
  have "py_index flds (int (length flds) - 1) = Inr (last flds)"
    using assms(5) by (cases flds rule: rev_cases) (simp_all add: py_index_def py_pos_def nat_diff_distrib)
  with assms key_to_str_loop_ok [of flds rows 0 e flds "int (length flds)" "last flds"]
  show ?thesis by (simp add: state_entry_key_to_str_def py_prefix_to_def)
qed

theorem state_entry_key_text_witness:
  "state_entry_key_to_str [0x80001604, 0x80001A02] 2
     \<lparr>se_key_count = 6, se_key = [10, 0, 0, 1, 80, 0], se_state = 3\<rparr> =
   Inr (''ipv4_src='' @ [CHR 0x22] @ ''10.0.0.1'' @ [CHR 0x22] @ '',tcp_src='' @ [CHR 0x22] @ ''80'' @ [CHR 0x22])"
proof -
  have t: "py_join '','' (key_texts [(''ipv4_src'', KIPv4), (''tcp_src'', KInt 2 None)] [10, 0, 0, 1, 80, 0]) =
      ''ipv4_src='' @ [CHR 0x22] @ ''10.0.0.1'' @ [CHR 0x22] @ '',tcp_src='' @ [CHR 0x22] @ ''80'' @ [CHR 0x22]"
    by code_simp
  from state_entry_key_text [of "[0x80001604, 0x80001A02]"
      "[(''ipv4_src'', ''ipv4_src'', KIPv4), (''tcp_src'', ''tcp_src'', KInt 2 None)]"
      "\<lparr>se_key_count = 6, se_key = [10, 0, 0, 1, 80, 0], se_state = 3\<rparr>"]
  show ?thesis by (simp add: sample_rows readable_def t del: key_texts.simps append.simps)
qed

end
