(* ===== verification/Beba_OVS_Load.thy ===== *)
theory Beba_OVS_Load
  imports Beba_OVS Beba_Key_Codec
begin

text \<open>
  Masked state updates on Open vSwitch: the load specifications that the wrapper generates, run
  as loads on the state register, compute the masked update the wrapper documents.
\<close>

section \<open>Vocabulary\<close>

text \<open>
  A load writes \<open>n\<close> bits of its source into the register at an offset. The source is a constant or a
  part of the register as it was when the specification was evaluated.
\<close>

definition set_reg_bits :: "int \<Rightarrow> nat \<Rightarrow> nat \<Rightarrow> int \<Rightarrow> int" where
  "set_reg_bits reg ofs n v = (reg AND NOT (push_bit ofs (mask n))) OR push_bit ofs (take_bit n v)"

fun apply_load :: "int \<Rightarrow> int \<Rightarrow> nx_flow_spec \<Rightarrow> int" where
  "apply_load old reg (NXFlowSpecLoad (NXImmediate v) (f, ofs) n) =
     (if f = ''reg0'' then set_reg_bits reg (nat ofs) (nat n) v else reg)"
| "apply_load old reg (NXFlowSpecLoad (NXSubfield f' ofs') (f, ofs) n) =
     (if f = ''reg0'' \<and> f' = ''reg0'' then set_reg_bits reg (nat ofs) (nat n) (drop_bit (nat ofs') old) else reg)"
| "apply_load old reg sp = reg"

section \<open>What the load specifications do to a register\<close>

lemma bit_set_reg_bits:
  "bit (set_reg_bits reg ofs n v) j \<longleftrightarrow> (if ofs \<le> j \<and> j < ofs + n then bit v (j - ofs) else bit reg j)"
proof -
  have "bit (push_bit ofs (mask n) :: int) j \<longleftrightarrow> ofs \<le> j \<and> j < ofs + n"
    by (auto simp: bit_push_bit_iff_int bit_mask_iff)
  moreover have "bit (push_bit ofs (take_bit n v)) j \<longleftrightarrow> ofs \<le> j \<and> j < ofs + n \<and> bit v (j - ofs)"
    by (auto simp: bit_push_bit_iff_int bit_take_bit_iff)
  ultimately show ?thesis
    by (auto simp: set_reg_bits_def bit_or_iff bit_and_iff bit_not_iff)
qed

section \<open>Runs of ones\<close>

lemma ones_runs_bounds:
  assumes "(a, b) \<in> set (ones_runs i st cs)" and "\<And>s. st = Some s \<Longrightarrow> s < i"
  shows "a \<le> b \<and> b < i + length cs"
  using assms
proof (induction i st cs rule: ones_runs.induct)
  case (3 i c cs)
  then show ?case by (fastforce split: if_splits)
next
  case (4 i s c cs)
  then show ?case by (fastforce split: if_splits)
qed auto

lemma ones_runs_cover:
  assumes "\<And>s. st = Some s \<Longrightarrow> s < i"
  shows "(\<exists>(a, b) \<in> set (ones_runs i st cs). a \<le> k \<and> k \<le> b) \<longleftrightarrow>
         (i \<le> k \<and> k < i + length cs \<and> cs ! (k - i) = CHR ''1'') \<or> (\<exists>s. st = Some s \<and> s \<le> k \<and> k < i)"
  using assms
proof (induction i st cs rule: ones_runs.induct)
  case (3 i c cs)
  note IH = 3(1,2)
  have n: "(c # cs) ! (k - i) = cs ! (k - Suc i)" if "i < k" using that by (simp add: nth_Cons')
  consider "k < i" | "k = i" | "i < k" by linarith
  then show ?case
  proof cases
    case 1
    with IH show ?thesis by (cases "c = CHR ''1''") auto
  next
    case 2
    with IH show ?thesis by (cases "c = CHR ''1''") auto
  next
    case 3
    with IH n show ?thesis by (cases "c = CHR ''1''") auto
  qed
next
  case (4 i s c cs)
  have n: "(c # cs) ! (k - i) = cs ! (k - Suc i)" if "i < k" using that by (simp add: nth_Cons')
  have s: "s < i" using 4(3) by simp
  consider "k < i" | "k = i" | "i < k" by linarith
  then show ?case
  proof cases
    case 1
    with 4(1,2) s show ?thesis by (cases "c = CHR ''1''") auto
  next
    case 2
    with 4(1,2) s show ?thesis by (cases "c = CHR ''1''") auto
  next
    case 3
    with 4(1,2) s n show ?thesis by (cases "c = CHR ''1''") auto
  qed
qed auto

section \<open>Binary strings of 32 bits\<close>

lemma fmt_032b_bits:
  assumes "0 \<le> i" and "i < 4294967296"
  shows "length (fmt_032b i) = 32" and "binary (fmt_032b i)"
    and "j < 32 \<Longrightarrow> fmt_032b i ! (31 - j) = CHR ''1'' \<longleftrightarrow> bit i j"
proof -
  define s where "s = nat_digits 2 (nat i)"
  have f: "fmt_032b i = replicate (32 - length s) CHR ''0'' @ s"
    using assms(1) by (simp add: fmt_032b_def s_def Let_def)
  have "nat i < 2 ^ 32" using assms by simp
  then have l: "length s \<le> 32" unfolding s_def by (rule length_nat_digits_binary) simp
  then show "length (fmt_032b i) = 32" by (simp add: f)
  have b: "binary s" unfolding s_def by (rule nat_digits_binary)
  then show "binary (fmt_032b i)" by (auto simp: f)
  assume j: "j < 32"
  have "bit i j \<longleftrightarrow> bit (nat i) j" using assms(1) by (simp add: bit_nat_iff)
  also have "\<dots> \<longleftrightarrow> j < length s \<and> s ! (length s - 1 - j) = CHR ''1''"
    using bit_nat_digits [of "nat i" j] by (simp add: s_def)
  also have "\<dots> \<longleftrightarrow> fmt_032b i ! (31 - j) = CHR ''1''"
  proof (cases "j < length s")
    case True
    have e: "31 - j = (32 - length s) + (length s - 1 - j)" using True l j by linarith
    have "fmt_032b i ! (31 - j) = s ! (length s - 1 - j)"
      unfolding f e by (subst nth_append_length_plus [of "replicate (32 - length s) CHR ''0''", simplified]) simp
    with True show ?thesis by simp
  next
    case False
    then have "31 - j < 32 - length s" using j l by linarith
    with False show ?thesis by (simp add: f nth_append)
  qed
  finally show "fmt_032b i ! (31 - j) = CHR ''1'' \<longleftrightarrow> bit i j" by simp
qed

section \<open>Masked updates of the state register\<close>

text \<open>The value a run of ones contributes is the part of the state under it.\<close>

lemma run_value:
  assumes "0 \<le> i" and "i < 4294967296" and "a \<le> b" and "b < 32"
  shows "\<exists>v. py_int 2 (slice a (b + 1) (fmt_032b i)) = Inr v \<and> (\<forall>t < b - a + 1. bit v t \<longleftrightarrow> bit i (31 - b + t))"
proof -
  define s where "s = slice a (b + 1) (fmt_032b i)"
  have l: "length s = b - a + 1" using fmt_032b_bits(1) [OF assms(1,2)] assms(3,4) by (simp add: s_def slice_def)
  have "binary s" using fmt_032b_bits(2) [OF assms(1,2)] set_take_subset set_drop_subset
    unfolding s_def slice_def by (metis order_trans)
  then have p: "py_int 2 s = Inr (int (bin_value s))" using l by (intro py_int_binary) auto
  have "bit (int (bin_value s)) t \<longleftrightarrow> bit i (31 - b + t)" if "t < b - a + 1" for t
  proof -
    have "bit (int (bin_value s)) t \<longleftrightarrow> s ! (b - a - t) = CHR ''1''"
      using that l by (simp add: bit_int_bin_value)
    also have "s ! (b - a - t) = fmt_032b i ! (a + (b - a - t))"
      using l that fmt_032b_bits(1) [OF assms(1,2)] assms(3,4) by (simp add: s_def slice_def)
    also have "a + (b - a - t) = 31 - (31 - b + t)" using that assms(3,4) by arith
    also have "fmt_032b i ! (31 - (31 - b + t)) = CHR ''1'' \<longleftrightarrow> bit i (31 - b + t)"
      using that assms(3,4) by (intro fmt_032b_bits(3) [OF assms(1,2)]) arith
    finally show ?thesis .
  qed
  with p show ?thesis unfolding s_def by blast
qed

lemma loads_fold:
  assumes "\<And>a b. (a, b) \<in> set runs \<Longrightarrow> a \<le> b \<and> b < 32" and "0 \<le> i" and "i < 4294967296"
  shows "\<exists>loads. mapM (\<lambda>(s, e). rbind (py_int 2 (slice s (e + 1) (fmt_032b i))) (\<lambda>v.
                    Inr (NXFlowSpecLoad (NXImmediate v) (''reg0'', 31 - int e) (int e - int s + 1)))) runs = Inr loads \<and>
           (\<forall>reg j. bit (foldl (apply_load old) reg loads) j \<longleftrightarrow>
              (if j < 32 \<and> (\<exists>(a, b) \<in> set runs. a \<le> 31 - j \<and> 31 - j \<le> b) then bit i j else bit reg j))"
  using assms(1)
proof (induction runs)
  case (Cons ab runs)
  obtain a b where ab: "ab = (a, b)" by (cases ab)
  have r: "a \<le> b" "b < 32" using Cons.prems [of a b] ab by auto
  obtain v where v: "py_int 2 (slice a (b + 1) (fmt_032b i)) = Inr v"
    and vb: "\<And>t. t < b - a + 1 \<Longrightarrow> bit v t \<longleftrightarrow> bit i (31 - b + t)"
    using run_value [OF assms(2,3) r] by blast
  obtain loads where ls: "mapM (\<lambda>(s, e). rbind (py_int 2 (slice s (e + 1) (fmt_032b i))) (\<lambda>v.
        Inr (NXFlowSpecLoad (NXImmediate v) (''reg0'', 31 - int e) (int e - int s + 1)))) runs = Inr loads"
    and lb: "\<And>reg j. bit (foldl (apply_load old) reg loads) j \<longleftrightarrow>
        (if j < 32 \<and> (\<exists>(a, b) \<in> set runs. a \<le> 31 - j \<and> 31 - j \<le> b) then bit i j else bit reg j)"
    using Cons.IH Cons.prems by auto
  have n: "nat (31 - int b) = 31 - b" "nat (int b - int a + 1) = b - a + 1" using r by auto
  have one: "bit (set_reg_bits reg (31 - b) (b - a + 1) v) j \<longleftrightarrow>
      (if j < 32 \<and> a \<le> 31 - j \<and> 31 - j \<le> b then bit i j else bit reg j)" for reg j
  proof -
    have "31 - b \<le> j \<and> j < 31 - b + (b - a + 1) \<longleftrightarrow> j < 32 \<and> a \<le> 31 - j \<and> 31 - j \<le> b"
      using r by arith
    moreover have "bit v (j - (31 - b)) \<longleftrightarrow> bit i j" if "31 - b \<le> j" "j < 31 - b + (b - a + 1)"
      using vb [of "j - (31 - b)"] that by simp
    ultimately show ?thesis unfolding bit_set_reg_bits by auto
  qed
  have "bit (foldl (apply_load old) (set_reg_bits reg (31 - b) (b - a + 1) v) loads) j \<longleftrightarrow>
      (if j < 32 \<and> (\<exists>(a, b) \<in> set (ab # runs). a \<le> 31 - j \<and> 31 - j \<le> b) then bit i j else bit reg j)" for reg j
    unfolding lb one ab by auto
  with v ls n show ?case
    by (intro exI [of _ "NXFlowSpecLoad (NXImmediate v) (''reg0'', 31 - int b) (int b - int a + 1) # loads"])
      (simp add: ab)
qed simp

lemma bit_small: "0 \<le> (x :: int) \<Longrightarrow> x < 4294967296 \<Longrightarrow> bit x j \<Longrightarrow> j < 32"
proof -
  assume "0 \<le> x" "x < 4294967296" "bit x j"
  moreover then have "take_bit 32 x = x" by (simp add: take_bit_int_eq_self_iff)
  ultimately show "j < 32" by (metis bit_take_bit_iff)
qed

section \<open>Properties\<close>

text \<open>
  C17. Executing the load specifications generated for a state and a mask
  turns the state register into (old & ~mask) | (state & mask), for every 32-bit state, mask and
  old register value.
\<close>

theorem load_specs_merge:
  assumes "0 \<le> state" and "state < 4294967296" and "0 \<le> state_mask" and "state_mask < 4294967296"
    and "0 \<le> old" and "old < 4294967296" and "0 \<le> reg" and "reg < 4294967296"
  shows "\<exists>specs. generate_NXFlowSpecLoad state state_mask = Inr specs \<and>
           foldl (apply_load old) reg specs = (old AND NOT state_mask) OR (state AND state_mask)"
proof -
  note small = bit_small [OF assms(1,2)] bit_small [OF assms(3,4)] bit_small [OF assms(5,6)] bit_small [OF assms(7,8)]
  have full: "apply_load old reg (NXFlowSpecLoad (NXImmediate state) (''reg0'', 0) 32) = state"
    by (rule bit_eqI) (use small in \<open>auto simp: bit_set_reg_bits\<close>)
  have copy: "apply_load old reg reg0_copy = old"
    by (rule bit_eqI) (use small in \<open>auto simp: bit_set_reg_bits reg0_copy_def\<close>)
  consider "state_mask = 0xffffffff" | "state_mask = 0" | "state_mask \<noteq> 0xffffffff" "state_mask \<noteq> 0" by blast
  then show ?thesis
  proof cases
    case 1
    have m: "(0xffffffff :: int) = mask 32" by (simp add: mask_eq_exp_minus_1)
    have "(old AND NOT (mask 32)) OR (state AND mask 32) = state"
    proof (rule bit_eqI)
      fix j show "bit ((old AND NOT (mask 32)) OR (state AND mask 32)) j = bit state j"
        using small(1,3) [of j] by (auto simp: bit_or_iff bit_and_iff bit_not_iff bit_mask_iff)
    qed
    then have "(old AND NOT 0xffffffff) OR (state AND 0xffffffff) = state" by (simp only: m)
    with 1 full show ?thesis by (simp add: generate_NXFlowSpecLoad_def)
  next
    case 2
    with copy show ?thesis by (simp add: generate_NXFlowSpecLoad_def)
  next
    case 3
    define sm where "sm = state AND state_mask"
    define runs where "runs = ones_runs 0 None (fmt_032b state_mask)"
    have sm: "0 \<le> sm" "sm < 4294967296"
      using assms(1,2) by (auto simp: sm_def intro: order_le_less_trans [OF AND_upper1])
    note f = fmt_032b_bits [OF assms(3,4)]
    have b: "a \<le> b \<and> b < 32" if "(a, b) \<in> set runs" for a b
      using ones_runs_bounds [of a b 0 None "fmt_032b state_mask"] that f(1) by (simp add: runs_def)
    have cover: "(\<exists>(a, b) \<in> set runs. a \<le> 31 - j \<and> 31 - j \<le> b) \<longleftrightarrow> bit state_mask j" if "j < 32" for j
    proof -
      have "31 - j < 32" by arith
      with ones_runs_cover [of None 0 "fmt_032b state_mask" "31 - j"] f(1) f(3) [OF that]
      show ?thesis by (simp add: runs_def)
    qed
    have "\<exists>j. bit state_mask j" using 3(2) by (metis bit_0_eq bit_eqI bot_apply bot_bool_def)
    then have ne: "runs \<noteq> []" using cover small(2) by fastforce
    from loads_fold [OF b sm, of runs old] obtain loads where
      ls: "mapM (\<lambda>(s, e). rbind (py_int 2 (slice s (e + 1) (fmt_032b sm))) (\<lambda>v.
        Inr (NXFlowSpecLoad (NXImmediate v) (''reg0'', 31 - int e) (int e - int s + 1)))) runs = Inr loads"
      and lb: "\<And>reg j. bit (foldl (apply_load old) reg loads) j \<longleftrightarrow>
        (if j < 32 \<and> (\<exists>(a, b) \<in> set runs. a \<le> 31 - j \<and> 31 - j \<le> b) then bit sm j else bit reg j)"
      by auto
    have "foldl (apply_load old) old loads = (old AND NOT state_mask) OR sm"
    proof (rule bit_eqI)
      fix j show "bit (foldl (apply_load old) old loads) j = bit ((old AND NOT state_mask) OR sm) j"
        using cover [of j] small(2) [of j] unfolding lb
        by (cases "j < 32") (auto simp: bit_or_iff bit_and_iff bit_not_iff sm_def)
    qed
    with 3 ls ne copy show ?thesis
      by (simp add: generate_NXFlowSpecLoad_def Let_def sm_def runs_def)
  qed
qed

theorem load_specs_merge_witness:
  "\<exists>specs. generate_NXFlowSpecLoad 88 92 = Inr specs \<and>
     foldl (apply_load 7) 0 specs = (7 AND NOT 92) OR (88 AND 92)"
  by (rule load_specs_merge) simp_all

end
