(* ===== verification/Beba_OVS_Inv.thy ===== *)
theory Beba_OVS_Inv
  imports Beba_OVS Beba_Msg_Codec
begin

text \<open>
  Safety of the Open vSwitch wrapper: an invariant of every reachable state of a wrapped
  datapath, and what the wrapper does with single commands.
\<close>

section \<open>Vocabulary\<close>

text \<open>
  The states of a wrapped datapath: it starts without scopes and stages; the application sends
  messages, builds extractor messages (which store the lookup scope) and has learn specifications
  generated, in any order and also when an operation raises.
\<close>

inductive ovs_reach :: "netaddr \<Rightarrow> ovs_dp \<Rightarrow> bool" for na where
  start: "ovs_reach na (Beba2OVSWrapper [])"
| send: "ovs_reach na dp \<Longrightarrow> ovs_reach na (snd (OVSDatapath_send_msg na m dp))"
| scope: "ovs_reach na dp \<Longrightarrow> ovs_reach na (dp\<lparr>od_lookup_scope := (od_lookup_scope dp)(t \<mapsto> flds)\<rparr>)"
| learn: "ovs_reach na dp \<Longrightarrow> ovs_reach na (snd (generate_NXFlowSpecMatch_and_prereq t dp))"

fun act_clean :: "of_action \<Rightarrow> bool" where
  "act_clean (OFPActionExperimenterUnknown e d) \<longleftrightarrow> e \<noteq> 0xBEBABEBA"
| "act_clean a \<longleftrightarrow> True"

fun instr_clean :: "of_instr \<Rightarrow> bool" where
  "instr_clean (OFPInstructionActions t as) \<longleftrightarrow>
     (t = OFPIT_WRITE_ACTIONS \<or> t = OFPIT_APPLY_ACTIONS \<longrightarrow> list_all act_clean as)"
| "instr_clean i \<longleftrightarrow> True"

definition known_command :: "experimenter_msg \<Rightarrow> bool" where
  "known_command m \<longleftrightarrow>
     em_experimenter m = 0xBEBABEBA \<and> em_exp_type m = OFPT_EXP_STATE_MOD \<and>
     (case struct_unpack OFP_EXP_STATE_MOD_PACK_STR (take 2 (em_data m)) of
        Inl e \<Rightarrow> True
      | Inr v \<Rightarrow> v ! 0 \<in> {OFPSC_EXP_STATEFUL_TABLE_CONFIG, OFPSC_EXP_SET_L_EXTRACTOR, OFPSC_EXP_SET_U_EXTRACTOR,
                          OFPSC_EXP_SET_FLOW_STATE, OFPSC_EXP_DEL_FLOW_STATE, OFPSC_EXP_SET_GLOBAL_STATE,
                          OFPSC_EXP_RESET_GLOBAL_STATE})"

fun msg_clean :: "ovs_msg \<Rightarrow> bool" where
  "msg_clean (MExperimenter m) \<longleftrightarrow> \<not> known_command m"
| "msg_clean (MExperimenterStats m) \<longleftrightarrow> em_experimenter m \<noteq> 0xBEBABEBA"
| "msg_clean (MFlowMod fm) \<longleftrightarrow>
     list_all instr_clean (fm_instructions fm) \<and>
     (odd (fm_table_id fm) \<longrightarrow> list_all (\<lambda>(k, v). k \<noteq> ''state'' \<and> k \<noteq> ''global_state'') (m_fields2 (fm_match fm)))"
| "msg_clean (MGroupMod gm) \<longleftrightarrow> list_all (\<lambda>b. list_all act_clean (b_actions b)) (gm_buckets gm)"
| "msg_clean (MOther n) \<longleftrightarrow> True"

text \<open>A goto-table instruction leads to the state table of a stage in use.\<close>

fun goto_ok :: "int set \<Rightarrow> ovs_msg \<Rightarrow> bool" where
  "goto_ok stages (MFlowMod fm) \<longleftrightarrow>
     list_all (\<lambda>i. case i of OFPInstructionGotoTable k \<Rightarrow> k \<in> get_state_table_id ` stages | _ \<Rightarrow> True)
       (fm_instructions fm)"
| "goto_ok stages m \<longleftrightarrow> True"

definition stage_installed :: "netaddr \<Rightarrow> ovs_msg list \<Rightarrow> int \<Rightarrow> bool" where
  "stage_installed na sent t \<longleftrightarrow> (\<exists>miss. control_flow_miss na t = Inr miss \<and> MFlowMod miss \<in> set sent)"

definition ovs_inv :: "netaddr \<Rightarrow> ovs_dp \<Rightarrow> bool" where
  "ovs_inv na dp \<longleftrightarrow>
     list_all msg_clean (od_sent dp) \<and>
     list_all (goto_ok (od_stateful_stages_in_use dp)) (od_sent dp) \<and>
     (\<forall>t \<in> od_stateful_stages_in_use dp. stage_installed na (od_sent dp) t)"

definition instrs_ok :: "int set \<Rightarrow> of_instr list \<Rightarrow> bool" where
  "instrs_ok S ixs \<longleftrightarrow> list_all instr_clean ixs \<and>
     list_all (\<lambda>i. case i of OFPInstructionGotoTable k \<Rightarrow> k \<in> get_state_table_id ` S | _ \<Rightarrow> True) ixs"

definition sample_stateful_fm :: flow_mod where
  "sample_stateful_fm =
     new_flow_mod 0 5 (empty_match\<lparr>m_fields2 := [uint_arg ''state'' 7]\<rparr>) [OFPInstructionGotoTable 1]"

definition sample_ovs :: ovs_dp where
  "sample_ovs = snd (OVSDatapath_send_msg netaddr_raw (MFlowMod sample_stateful_fm) (Beba2OVSWrapper []))"

section \<open>What may reach the switch\<close>

section \<open>Preservation\<close>

lemma goto_ok_mono: "goto_ok S m \<Longrightarrow> S \<subseteq> T \<Longrightarrow> goto_ok T m"
  by (cases m) (simp_all add: list_all_iff split: of_instr.splits, blast)

lemma ovs_inv_send:
  "ovs_inv na dp \<Longrightarrow> msg_clean m \<Longrightarrow> goto_ok (od_stateful_stages_in_use dp) m \<Longrightarrow> ovs_inv na (super_send_msg m dp)"
  by (auto simp: ovs_inv_def super_send_msg_def stage_installed_def)

lemma ovs_inv_stage:
  assumes "ovs_inv na dp" and "stage_installed na (od_sent dp) t"
  shows "ovs_inv na (dp\<lparr>od_stateful_stages_in_use := insert t (od_stateful_stages_in_use dp)\<rparr>)"
proof -
  have "list_all (goto_ok (insert t (od_stateful_stages_in_use dp))) (od_sent dp)"
    using assms(1) goto_ok_mono [OF _ subset_insertI] by (auto simp: ovs_inv_def list_all_iff)
  with assms show ?thesis by (simp add: ovs_inv_def)
qed

lemma filter_actions_clean: "filter_actions as = Inr r \<Longrightarrow> list_all act_clean r"
  by (induction as arbitrary: r rule: filter_actions.induct)
     (auto simp: rbind_eq_Inr split: of_action.splits if_splits)

lemma miss_ok:
  assumes "control_flow_miss na t = Inr miss"
  shows "msg_clean (MFlowMod miss)" and "goto_ok S (MFlowMod miss)"
  using assms
  by (auto simp: control_flow_miss_def rbind_eq_Inr new_flow_mod_def get_state_table_id_def)

lemma default_ok:
  assumes "default_state na t = Inr fm"
  shows "msg_clean (MFlowMod fm)" and "goto_ok S (MFlowMod fm)"
  using assms
  by (auto simp: default_state_def rbind_eq_Inr new_flow_mod_def get_state_table_id_def)

lemma stage_installed_send: "control_flow_miss na t = Inr miss \<Longrightarrow>
  stage_installed na (od_sent (super_send_msg (MFlowMod miss) dp)) t"
  by (auto simp: stage_installed_def super_send_msg_def)

lemma stage_installed_mono: "stage_installed na (od_sent dp) t \<Longrightarrow>
  stage_installed na (od_sent (super_send_msg m dp)) t"
  by (auto simp: stage_installed_def super_send_msg_def)

lemma ovs_configure_table_inv:
  assumes "ovs_inv na dp"
  shows "ovs_inv na (snd (ovs_configure_table na data dp))"
proof -
  note [simp] = ovs_configure_table_def
  show ?thesis
  proof (cases "struct_unpack OFP_EXP_STATE_MOD_STATEFUL_TABLE_CONFIG_PACK_STR (slice 2 4 data)")
    case (Inl e)
    with assms show ?thesis by simp
  next
    case v: (Inr v)
    show ?thesis
    proof (cases "control_flow_miss na (v ! 0)")
      case (Inl e)
      with v assms show ?thesis by simp
    next
      case miss: (Inr miss)
      let ?dp1 = "super_send_msg (MFlowMod miss) dp"
      have i1: "ovs_inv na ?dp1" by (rule ovs_inv_send [OF assms miss_ok [OF miss]])
      show ?thesis
      proof (cases "default_state na (v ! 0)")
        case (Inl e)
        with v miss i1 show ?thesis by simp
      next
        case d: (Inr d)
        let ?dp2 = "super_send_msg (MFlowMod d) ?dp1"
        have "ovs_inv na ?dp2" by (rule ovs_inv_send [OF i1 default_ok [OF d]])
        moreover have "stage_installed na (od_sent ?dp2) (v ! 0)"
          by (intro stage_installed_mono stage_installed_send miss)
        ultimately have "ovs_inv na (?dp2\<lparr>od_stateful_stages_in_use := insert (v ! 0) (od_stateful_stages_in_use ?dp2)\<rparr>)"
          by (rule ovs_inv_stage)
        with v miss d show ?thesis by (simp add: Let_def)
      qed
    qed
  qed
qed

lemma ovs_set_flow_state_inv: "ovs_inv na dp \<Longrightarrow> ovs_inv na (snd (ovs_set_flow_state na data dp))"
  by (auto simp: ovs_set_flow_state_def Let_def rbind_eq_Inr new_flow_mod_def get_state_table_id_def
      intro!: ovs_inv_send split: sum.split option.split if_splits)

lemma ovs_del_flow_state_inv: "ovs_inv na dp \<Longrightarrow> ovs_inv na (snd (ovs_del_flow_state na data dp))"
  by (auto simp: ovs_del_flow_state_def Let_def rbind_eq_Inr new_flow_mod_def get_state_table_id_def
      intro!: ovs_inv_send split: sum.split option.split if_splits)

lemma ovs_state_mod_inv:
  assumes "ovs_inv na dp"
  shows "ovs_inv na (snd (ovs_state_mod na m dp))"
proof (cases "struct_unpack OFP_EXP_STATE_MOD_PACK_STR (take 2 (em_data m))")
  case (Inl e)
  with assms show ?thesis by (simp add: ovs_state_mod_def)
next
  case v: (Inr v)
  show ?thesis
  proof (cases "known_command m")
    case True
    with v assms ovs_configure_table_inv ovs_set_flow_state_inv ovs_del_flow_state_inv show ?thesis
      by (auto simp: ovs_state_mod_def known_command_def ovs_key_extract_def Let_def)
  next
    case False
    then have "ovs_inv na (super_send_msg (MExperimenter m) dp)" using assms by (intro ovs_inv_send) auto
    with v assms ovs_configure_table_inv [OF assms] ovs_set_flow_state_inv [OF assms] ovs_del_flow_state_inv [OF assms]
    show ?thesis by (simp add: ovs_state_mod_def ovs_key_extract_def Let_def)
  qed
qed

lemma ovs_goto_inv:
  assumes "ovs_inv na dp" and "ovs_goto na t dp = (r, dp')"
  shows "ovs_inv na dp' \<and> od_stateful_stages_in_use dp \<subseteq> od_stateful_stages_in_use dp' \<and>
         (\<forall>k. r = Inr k \<longrightarrow> k \<in> get_state_table_id ` od_stateful_stages_in_use dp')"
proof (cases "t \<in> od_stateful_stages_in_use dp")
  case True
  with assms show ?thesis by (auto simp: ovs_goto_def)
next
  case False
  show ?thesis
  proof (cases "control_flow_miss na t")
    case (Inl e)
    with False assms show ?thesis by (auto simp: ovs_goto_def)
  next
    case (Inr miss)
    let ?dp1 = "super_send_msg (MFlowMod miss) dp"
    have "ovs_inv na (?dp1\<lparr>od_stateful_stages_in_use := insert t (od_stateful_stages_in_use ?dp1)\<rparr>)"
      by (intro ovs_inv_stage ovs_inv_send stage_installed_send) (use assms(1) Inr miss_ok in auto)
    with False Inr assms(2) show ?thesis by (auto simp: ovs_goto_def super_send_msg_def)
  qed
qed

lemma ovs_instr_inv:
  assumes "ovs_inv na dp" and "ovs_instr na i dp = (r, dp')"
  shows "ovs_inv na dp' \<and> od_stateful_stages_in_use dp \<subseteq> od_stateful_stages_in_use dp' \<and>
         (\<forall>i'. r = Inr i' \<longrightarrow> instrs_ok (od_stateful_stages_in_use dp') [i'])"
proof (cases i)
  case (OFPInstructionGotoTable t)
  obtain g dp1 where g: "ovs_goto na t dp = (g, dp1)" by (cases "ovs_goto na t dp")
  from ovs_goto_inv [OF assms(1) g] assms(2) g OFPInstructionGotoTable show ?thesis
    by (auto simp: ovs_instr_def instrs_ok_def rbind_eq_Inr)
next
  case (OFPInstructionActions t as)
  with assms filter_actions_clean show ?thesis
    by (auto simp: ovs_instr_def instrs_ok_def rbind_eq_Inr split: if_splits)
qed (use assms in \<open>auto simp: ovs_instr_def instrs_ok_def\<close>)

lemma instrs_ok_mono: "instrs_ok S xs \<Longrightarrow> S \<subseteq> T \<Longrightarrow> instrs_ok T xs"
  by (simp add: instrs_ok_def list_all_iff split: of_instr.splits, blast)

lemma instrs_ok_Cons: "instrs_ok S (x # xs) \<longleftrightarrow> instrs_ok S [x] \<and> instrs_ok S xs"
  by (auto simp: instrs_ok_def)

lemma ovs_instrs_inv:
  assumes "ovs_inv na dp" and "ovs_instrs na ixs dp = (r, dp')"
  shows "ovs_inv na dp' \<and> od_stateful_stages_in_use dp \<subseteq> od_stateful_stages_in_use dp' \<and>
         (\<forall>ixs'. r = Inr ixs' \<longrightarrow> instrs_ok (od_stateful_stages_in_use dp') ixs')"
  using assms
proof (induction ixs arbitrary: dp r dp')
  case Nil
  then show ?case by (auto simp: instrs_ok_def)
next
  case (Cons i ixs)
  obtain r1 dp1 where s: "ovs_instr na i dp = (r1, dp1)" by (cases "ovs_instr na i dp")
  note 1 = ovs_instr_inv [OF Cons.prems(1) s]
  show ?case
  proof (cases r1)
    case (Inl e)
    with s 1 Cons.prems(2) show ?thesis by auto
  next
    case (Inr i')
    obtain r2 dp2 where t: "ovs_instrs na ixs dp1 = (r2, dp2)" by (cases "ovs_instrs na ixs dp1")
    note 2 = Cons.IH [OF conjunct1 [OF 1] t]
    have ok: "instrs_ok (od_stateful_stages_in_use dp2) [i']"
      using 1 2 Inr instrs_ok_mono by blast
    have "(case r2 of Inl e \<Rightarrow> (Inl e, dp2) | Inr xs \<Rightarrow> (Inr (i' # xs), dp2)) = (r, dp')"
      using Cons.prems(2) by (simp add: s [unfolded Inr] t)
    then have d: "dp' = dp2 \<and> r = (case r2 of Inl e \<Rightarrow> Inl e | Inr xs \<Rightarrow> Inr (i' # xs))"
      by (cases r2) auto
    have "instrs_ok (od_stateful_stages_in_use dp2) ixs'" if "r = Inr ixs'" for ixs'
    proof -
      from that d obtain xs where xs: "r2 = Inr xs" "ixs' = i' # xs" by (cases r2) auto
      with 2 have "instrs_ok (od_stateful_stages_in_use dp2) xs" by blast
      with ok show ?thesis unfolding xs(2) by (subst instrs_ok_Cons) simp
    qed
    with 1 2 d show ?thesis by blast
  qed
qed

lemma ovs_match_fields_clean: "list_all (\<lambda>(k, v). k \<noteq> ''state'' \<and> k \<noteq> ''global_state'') (ovs_match_fields fs)"
  by (induction fs rule: ovs_match_fields.induct) auto

lemma ovs_flow_mod_inv:
  assumes "ovs_inv na dp"
  shows "ovs_inv na (snd (ovs_flow_mod na fm dp))"
proof -
  obtain r dp1 where s: "ovs_instrs na (fm_instructions fm) dp = (r, dp1)"
    by (cases "ovs_instrs na (fm_instructions fm) dp")
  note 1 = ovs_instrs_inv [OF assms s]
  show ?thesis
  proof (cases r)
    case (Inl e)
    with s 1 show ?thesis by (simp add: ovs_flow_mod_def)
  next
    case (Inr ixs)
    with 1 have "instrs_ok (od_stateful_stages_in_use dp1) ixs" by blast
    then show ?thesis
      using s 1 Inr ovs_match_fields_clean by (auto simp: ovs_flow_mod_def instrs_ok_def intro!: ovs_inv_send)
  qed
qed

lemma ovs_group_mod_inv:
  assumes "ovs_inv na dp"
  shows "ovs_inv na (snd (ovs_group_mod gm dp))"
proof (cases "mapM (\<lambda>b. rbind (filter_actions (b_actions b)) (\<lambda>r. Inr (b\<lparr>b_actions := r\<rparr>))) (gm_buckets gm)")
  case (Inl e)
  with assms show ?thesis by (simp add: ovs_group_mod_def)
next
  case (Inr bs)
  have "list_all act_clean (b_actions b)" if "b \<in> set bs" for b
    using mapM_set [OF Inr that] filter_actions_clean by (auto simp: rbind_eq_Inr)
  with assms Inr show ?thesis
    by (auto simp: ovs_group_mod_def list_all_iff intro!: ovs_inv_send)
qed

lemma OVSDatapath_send_msg_inv: "ovs_inv na dp \<Longrightarrow> ovs_inv na (snd (OVSDatapath_send_msg na m dp))"
  by (auto simp: OVSDatapath_send_msg_def known_command_def ovs_state_mod_inv ovs_flow_mod_inv ovs_group_mod_inv
      intro: ovs_inv_send split: ovs_msg.split)

lemma generate_inv: "ovs_inv na dp \<Longrightarrow> ovs_inv na (snd (generate_NXFlowSpecMatch_and_prereq t dp))"
  by (auto simp: generate_NXFlowSpecMatch_and_prereq_def ovs_inv_def split: option.split list.split prod.split)

lemma ovs_reach_inv: "ovs_reach na dp \<Longrightarrow> ovs_inv na dp"
proof (induction rule: ovs_reach.induct)
  case start
  show ?case by (simp add: ovs_inv_def Beba2OVSWrapper_def)
next
  case (scope dp t flds)
  then show ?case by (simp add: ovs_inv_def)
qed (simp_all add: OVSDatapath_send_msg_inv generate_inv)

section \<open>Single commands\<close>

lemma filter_actions_append:
  "list_all act_clean pre \<Longrightarrow>
   filter_actions (pre @ as) = rbind (filter_actions as) (\<lambda>r. Inr (pre @ r))"
proof (induction pre)
  case (Cons a pre)
  then show ?case by (cases a) (auto simp: rbind_assoc)
qed simp

lemma filter_set_state:
  assumes "OFPExpActionSetState state t bt ht it hr ir msk = Inr a"
  shows "filter_actions (a # as) = Inl ValueError"
proof -
  define vs where "vs = [OFPAT_EXP_SET_STATE, state, msk, t, hr, ir, ht * 1000000, it * 1000000, bt]"
  define d where "d = packed OFP_EXP_ACTION_SET_STATE_PACK_STR vs"
  have p: "packable OFP_EXP_ACTION_SET_STATE_PACK_STR vs" and a: "a = beba_action d"
    using assms by (simp_all add: OFPExpActionSetState_Inr vs_def d_def)
  have l: "length d = 40" by (simp add: d_def)
  have "take 4 d = packed [fI] [OFPAT_EXP_SET_STATE]" by (simp add: d_def vs_def fmt_defs)
  then have "struct_unpack [fI] (take 4 d) = Inr [OFPAT_EXP_SET_STATE]"
    by (simp only:) (simp add: struct_unpack_def fits_def)
  moreover have "struct_unpack OFP_EXP_ACTION_SET_STATE_PACK_STR (take 40 d) = Inr vs"
    using p l by (simp add: d_def)
  ultimately show ?thesis by (simp add: a)
qed

lemma key_extract_data:
  assumes "OFPExpMsgKeyExtract dp command flds t bt = Inr (dp', m)"
  shows "em_experimenter m = 0xBEBABEBA \<and> em_exp_type m = OFPT_EXP_STATE_MOD \<and>
         struct_unpack OFP_EXP_STATE_MOD_PACK_STR (take 2 (em_data m)) = Inr [command] \<and>
         (\<exists>v. struct_unpack OFP_EXP_STATE_MOD_EXTRACTOR_PACK_STR (slice 2 14 (em_data m)) = Inr v)"
proof -
  define n where "n = (if 6 < length flds then 0 else length flds)"
  define c where "c = packed OFP_EXP_STATE_MOD_PACK_STR [command]"
  define d where "d = packed OFP_EXP_STATE_MOD_EXTRACTOR_PACK_STR [t, bt, int n]"
  have "packable OFP_EXP_STATE_MOD_PACK_STR [command] \<and> (\<exists>post. m = beba_msg OFPT_EXP_STATE_MOD (c @ d @ post))"
    using assms
    by (auto simp: OFPExpMsgKeyExtract_def struct_pack_eq rbind_eq_Inr Let_def c_def d_def n_def
        split: if_splits option.splits)
  then obtain post where pc: "packable OFP_EXP_STATE_MOD_PACK_STR [command]"
    and m: "m = beba_msg OFPT_EXP_STATE_MOD (c @ d @ post)" by blast
  have l: "length c = 2" "length d = 12" by (simp_all add: c_def d_def)
  then have "take 2 (c @ d @ post) = c" "slice 2 14 (c @ d @ post) = d"
    by (simp_all add: slice_def)
  with pc l show ?thesis by (simp add: m c_def struct_unpack_def unpack_packed)
qed

lemma ovs_instrs_reject: "ovs_instr na i dp = (Inl e, dp) \<Longrightarrow> ovs_instrs na (i # ixs) dp = (Inl e, dp)"
  by simp

lemma slice_shift: "slice (length pre + i) (length pre + (i + n)) (pre @ d) = slice i (i + n) d"
  by (simp add: slice_def)

lemma lookup_fields_loop_shift:
  "lookup_fields_loop (pre @ d) (length pre + i) fs kw = lookup_fields_loop d i fs kw"
  by (induction fs arbitrary: i kw) (simp_all add: slice_shift add.assoc [of "length pre"] Let_def)

lemma state_match_shift: "off = length pre \<Longrightarrow> state_match na fs (pre @ d) off = state_match na fs d 0"
  using lookup_fields_loop_shift [of pre d 0] by (simp add: state_match_def)

section \<open>Reachable states\<close>

section \<open>A wrapped datapath at work\<close>

lemma reg1_init: "OFPMatch_init netaddr_raw [uint_arg ''reg1'' 0] = Inr (empty_match\<lparr>m_fields2 := [uint_arg ''reg1'' 0]\<rparr>)"
  by code_simp

lemma tcp_state_match: "\<exists>mt. state_match netaddr_raw [0x80001A02] [0, 80] 0 = Inr mt"
proof -
  have "rok (state_match netaddr_raw [0x80001A02] [0, 80] 0)" by code_simp
  then show ?thesis by (simp add: rok_iff)
qed

lemma sample_ovs_reach: "ovs_reach netaddr_raw sample_ovs"
  unfolding sample_ovs_def by (intro ovs_reach.intros)

lemma sample_ovs_sent: "MFlowMod (new_flow_mod 1 5 (empty_match\<lparr>m_fields2 := [uint_arg ''reg0'' 7]\<rparr>) [OFPInstructionGotoTable 2])
    \<in> set (od_sent sample_ovs)"
  by (simp add: sample_ovs_def OVSDatapath_send_msg_def ovs_flow_mod_def sample_stateful_fm_def new_flow_mod_def
      ovs_instr_def ovs_goto_def Beba2OVSWrapper_def control_flow_miss_def reg1_init super_send_msg_def
      get_state_table_id_def get_flow_table_id_def)

section \<open>Properties\<close>







text \<open>
  C18. In every reachable state of a wrapped datapath, each goto-table
  instruction sent to the switch leads to the state table of a stage whose table-miss entry has
  been sent as well.
\<close>

theorem ovs_goto_installed:
  assumes "ovs_reach na dp" and "MFlowMod fm \<in> set (od_sent dp)"
    and "OFPInstructionGotoTable k \<in> set (fm_instructions fm)"
  shows "\<exists>t miss. k = get_state_table_id t \<and> control_flow_miss na t = Inr miss \<and> MFlowMod miss \<in> set (od_sent dp)"
proof -
  have "ovs_inv na dp" using assms(1) by (rule ovs_reach_inv)
  with assms(2,3) have "k \<in> get_state_table_id ` od_stateful_stages_in_use dp"
    by (fastforce simp: ovs_inv_def list_all_iff)
  moreover have "\<forall>t \<in> od_stateful_stages_in_use dp. stage_installed na (od_sent dp) t"
    using \<open>ovs_inv na dp\<close> by (simp add: ovs_inv_def)
  ultimately show ?thesis by (auto simp: stage_installed_def)
qed

theorem ovs_goto_installed_witness:
  "\<exists>t miss. 2 = get_state_table_id t \<and> control_flow_miss netaddr_raw t = Inr miss \<and> MFlowMod miss \<in> set (od_sent sample_ovs)"
  by (rule ovs_goto_installed [OF sample_ovs_reach sample_ovs_sent]) (simp add: new_flow_mod_def)

end
