(* ===== verification/Dp_Recv.thy ===== *)
theory Dp_Recv
  imports OF13_Msg
begin

text \<open>
  The receive path of a datapath (\<open>Datapath._recv_loop\<close> of \<open>ryu/controller/controller.py\<close>). Bytes
  from the socket are collected in a buffer, cut into messages by the length in their headers, parsed
  by \<open>ofproto_parser.msg\<close> and delivered.

  Two things are arguments of the model: the parsers registered for the protocol versions, and
  \<open>deliver\<close>, what the event layer and the handlers do with a parsed message. Delivering returns the
  new state of the application together with \<open>Inr ()\<close> or the exception it raised. The value \<open>None\<close>
  of the loops is a loop that never ends.
\<close>

section \<open>One message\<close>

type_synonym 'm msg_parsers = "int \<Rightarrow> 'm msg_parser_fn option"
type_synonym ('m, 's) deliver_fn = "'m \<Rightarrow> 's \<Rightarrow> 's \<times> unit res"

text \<open>What happens to the bytes of one message, given the fields of its header.\<close>

definition dispatch_frame ::
  "'m msg_parsers \<Rightarrow> ('m, 's) deliver_fn \<Rightarrow> int list \<Rightarrow> bytes \<Rightarrow> 's \<Rightarrow> ('s \<times> unit res) option" where
  "dispatch_frame parsers deliver h frame s =
     (case ofproto_msg parsers (h ! 0) (h ! 1) (h ! 2) (h ! 3) frame of
        Inl e \<Rightarrow> if e = Diverges then None else Some (s, Inl e)
      | Inr None \<Rightarrow> Some (s, Inr ())
      | Inr (Some m) \<Rightarrow> if snd (deliver m s) = Inl Diverges then None else Some (deliver m s))"

section \<open>The inner loop\<close>

partial_function (option) process_buf ::
  "'m msg_parsers \<Rightarrow> ('m, 's) deliver_fn \<Rightarrow> bytes \<Rightarrow> nat \<Rightarrow> 's \<Rightarrow> ('s \<times> (bytes \<times> nat) res) option" where
  "process_buf parsers deliver buf required_len s =
     (if length buf < required_len then Some (s, Inr (buf, required_len))
      else case ofp_header buf of
             Inl e \<Rightarrow> Some (s, Inl e)
           | Inr h \<Rightarrow>
               (let msg_len = nat (h ! 2) in
                if length buf < msg_len then Some (s, Inr (buf, msg_len))
                else case dispatch_frame parsers deliver h (take msg_len buf) s of
                       None \<Rightarrow> None
                     | Some (s', r) \<Rightarrow>
                         (case r of
                            Inl e \<Rightarrow> Some (s', Inl e)
                          | Inr _ \<Rightarrow> process_buf parsers deliver (drop msg_len buf) OFP_HEADER_SIZE s')))"

section \<open>The outer loop\<close>

text \<open>
  What a round of the outer loop sees: bytes, a timeout or an error of the socket, or that \<open>close\<close>
  was called since the last round.
\<close>

datatype recv_result =
    Received bytes
  | RecvTimeout
  | RecvError
  | CloseRequested

datatype recv_outcome =
    Waiting
  | SocketClosed
  | Raised py_error

record 's rx_state =
  rx_buf :: bytes
  rx_required_len :: nat
  rx_close_requested :: bool
  rx_app :: 's

definition rx_init :: "'s \<Rightarrow> 's rx_state" where
  "rx_init s = \<lparr>rx_buf = [], rx_required_len = OFP_HEADER_SIZE, rx_close_requested = False, rx_app = s\<rparr>"

fun recv_loop ::
  "'m msg_parsers \<Rightarrow> ('m, 's) deliver_fn \<Rightarrow> ('s \<Rightarrow> 's) \<Rightarrow> recv_result list \<Rightarrow> 's rx_state
   \<Rightarrow> ('s rx_state \<times> recv_outcome) option" where
  "recv_loop parsers deliver deactivate [] st = Some (st, Waiting)"
| "recv_loop parsers deliver deactivate (Received ret # rs) st =
     (if ret = [] \<or> rx_close_requested st then Some (st\<lparr>rx_app := deactivate (rx_app st)\<rparr>, SocketClosed)
      else case process_buf parsers deliver (rx_buf st @ ret) (rx_required_len st) (rx_app st) of
             None \<Rightarrow> None
           | Some (s, r) \<Rightarrow>
               (case r of
                  Inl e \<Rightarrow> Some (st\<lparr>rx_app := deactivate s\<rparr>, Raised e)
                | Inr (buf, required_len) \<Rightarrow>
                    recv_loop parsers deliver deactivate rs
                      (st\<lparr>rx_buf := buf, rx_required_len := required_len, rx_app := s\<rparr>)))"
| "recv_loop parsers deliver deactivate (RecvTimeout # rs) st =
     (if rx_close_requested st then Some (st\<lparr>rx_app := deactivate (rx_app st)\<rparr>, SocketClosed)
      else recv_loop parsers deliver deactivate rs st)"
| "recv_loop parsers deliver deactivate (RecvError # rs) st =
     Some (st\<lparr>rx_close_requested := True, rx_app := deactivate (rx_app st)\<rparr>, SocketClosed)"
| "recv_loop parsers deliver deactivate (CloseRequested # rs) st =
     recv_loop parsers deliver deactivate rs
       (st\<lparr>rx_close_requested := True, rx_app := deactivate (rx_app st)\<rparr>)"

end
