(* ===== verification/Ofp_Handler.thy ===== *)
theory Ofp_Handler
  imports Dp_Recv
begin

text \<open>
  A connection to a switch: \<open>ProtocolDesc\<close> of \<open>ryu/ofproto/ofproto_protocol.py\<close>, the state and the
  send path of \<open>Datapath\<close> in \<open>ryu/controller/controller.py\<close>, and the handlers of \<open>OFPHandler\<close> in
  \<open>ryu/controller/ofp_handler.py\<close>, which negotiate the version and take a connection from the
  handshake to normal operation.

  The supported versions, a global of the process, are an argument. Messages to the switch are kept
  as values together with their version and transaction id; their bytes are the subject of the
  message theories. The text of a hello-failed error is left out. Ports are of an arbitrary type
  and come with their numbers.
\<close>

section \<open>Protocol versions\<close>

definition OFP_VERSIONS :: "int list" where
  "OFP_VERSIONS = [1, 3, 4, 5, 6]"

definition set_app_supported_versions :: "int set \<Rightarrow> int set \<Rightarrow> int set res" where
  "set_app_supported_versions supported vers =
     (let supported' = supported \<inter> vers in
      rbind (rassert (supported' \<noteq> {})) (\<lambda>_. Inr supported'))"

section \<open>State of a connection\<close>

datatype dispatcher = HANDSHAKE_DISPATCHER | CONFIG_DISPATCHER | MAIN_DISPATCHER | DEAD_DISPATCHER

datatype 'p ofp_body =
    HelloBody "hello_elem list"
  | FeaturesBody int "(int \<rightharpoonup> 'p) option"
  | PortDescBody int "(int \<times> 'p) list"
  | EchoRequestBody bytes
  | ErrorBody error_msg
  | OtherBody int

record 'p ofp_msg =
  msg_version :: int
  msg_xid :: int
  msg_body :: "'p ofp_body"

datatype out_msg =
    OutHello
  | OutHelloFailed
  | OutFeaturesRequest
  | OutPortDescRequest int
  | OutEchoReply bytes
  | OutApp int

record out_frame =
  of_version :: int
  of_xid :: int
  of_msg :: out_msg

datatype 'p dp_event =
    EventOFPStateChange
  | EventOFPMsg "'p ofp_msg"

record 'p datapath =
  dp_version :: int
  dp_phase :: dispatcher
  dp_xid :: int
  dp_id :: "int option"
  dp_ports :: "(int \<rightharpoonup> 'p) option"
  dp_send_active :: bool
  dp_close_requested :: bool
  dp_send_q :: "out_frame list option"
  dp_wire :: "out_frame list"
  dp_events :: "('p dp_event \<times> dispatcher) list"

section \<open>Datapath\<close>

definition set_version :: "int set \<Rightarrow> int \<Rightarrow> 'p datapath \<Rightarrow> 'p datapath \<times> unit res" where
  "set_version supported version dp =
     (if version \<in> supported then (dp\<lparr>dp_version := version\<rparr>, Inr ()) else (dp, Inl AssertionError))"

definition send_event_to_observers :: "'p dp_event \<Rightarrow> dispatcher \<Rightarrow> 'p datapath \<Rightarrow> 'p datapath" where
  "send_event_to_observers ev state dp = dp\<lparr>dp_events := dp_events dp @ [(ev, state)]\<rparr>"

definition set_state :: "dispatcher \<Rightarrow> 'p datapath \<Rightarrow> 'p datapath" where
  "set_state state dp = send_event_to_observers EventOFPStateChange state (dp\<lparr>dp_phase := state\<rparr>)"

text \<open>The constructor, with the random first transaction id as an argument.\<close>

definition Datapath_init :: "int set \<Rightarrow> int \<Rightarrow> 'p datapath" where
  "Datapath_init supported xid =
     set_state HANDSHAKE_DISPATCHER
       \<lparr>dp_version = Max supported, dp_phase = HANDSHAKE_DISPATCHER, dp_xid = xid, dp_id = None,
        dp_ports = None, dp_send_active = True, dp_close_requested = False, dp_send_q = Some [],
        dp_wire = [], dp_events = []\<rparr>"

definition deactivate :: "'p datapath \<Rightarrow> 'p datapath" where
  "deactivate dp = set_state DEAD_DISPATCHER (dp\<lparr>dp_send_active := False\<rparr>)"

definition dp_close :: "'p datapath \<Rightarrow> 'p datapath" where
  "dp_close dp = deactivate (dp\<lparr>dp_close_requested := True\<rparr>)"

definition dp_send :: "out_frame \<Rightarrow> 'p datapath \<Rightarrow> 'p datapath" where
  "dp_send f dp =
     (case dp_send_q dp of None \<Rightarrow> dp | Some q \<Rightarrow> dp\<lparr>dp_send_q := Some (q @ [f])\<rparr>)"

definition set_xid :: "'p datapath \<Rightarrow> 'p datapath" where
  "set_xid dp = dp\<lparr>dp_xid := (dp_xid dp + 1) AND MAX_XID\<rparr>"

definition send_msg :: "int option \<Rightarrow> out_msg \<Rightarrow> 'p datapath \<Rightarrow> 'p datapath" where
  "send_msg xid m dp =
     (case xid of
        Some x \<Rightarrow> dp_send \<lparr>of_version = dp_version dp, of_xid = x, of_msg = m\<rparr> dp
      | None \<Rightarrow>
          (let dp' = set_xid dp in
           dp_send \<lparr>of_version = dp_version dp', of_xid = dp_xid dp', of_msg = m\<rparr> dp'))"

text \<open>
  The send loop, with one boolean per call of \<open>sendall\<close> that says whether it succeeds. The loop
  waits when the queue is empty; when it ends it drops the queue and deactivates the connection.
\<close>

definition send_loop_end :: "'p datapath \<Rightarrow> 'p datapath" where
  "send_loop_end dp = deactivate (dp\<lparr>dp_send_q := None\<rparr>)"

fun send_loop :: "bool list \<Rightarrow> 'p datapath \<Rightarrow> 'p datapath" where
  "send_loop [] dp = (if dp_send_active dp then dp else send_loop_end dp)"
| "send_loop (ok # oks) dp =
     (if \<not> dp_send_active dp then send_loop_end dp
      else case dp_send_q dp of
             None \<Rightarrow> send_loop_end dp
           | Some [] \<Rightarrow> dp
           | Some (f # q) \<Rightarrow>
               (if ok then send_loop oks (dp\<lparr>dp_send_q := Some q, dp_wire := dp_wire dp @ [f]\<rparr>)
                else send_loop_end (dp\<lparr>dp_send_q := Some q\<rparr>)))"

text \<open>\<open>serve\<close> up to the receive loop.\<close>

definition serve_hello :: "'p datapath \<Rightarrow> 'p datapath" where
  "serve_hello dp = send_msg None OutHello dp"

section \<open>OFPHandler\<close>

definition hello_failed :: "'p datapath \<Rightarrow> 'p datapath \<times> unit res" where
  "hello_failed dp = (send_msg None OutHelloFailed dp, Inr ())"

definition hello_proceed :: "int set \<Rightarrow> int set \<Rightarrow> 'p datapath \<Rightarrow> 'p datapath \<times> unit res" where
  "hello_proceed supported usable_versions dp =
     (if usable_versions = {} then hello_failed dp
      else case set_version supported (Max usable_versions) dp of
             (dp1, Inl e) \<Rightarrow> (dp1, Inl e)
           | (dp1, Inr _) \<Rightarrow> (send_msg None OutFeaturesRequest (set_state CONFIG_DISPATCHER dp1), Inr ()))"

definition hello_handler ::
  "int set \<Rightarrow> int \<Rightarrow> hello_elem list \<Rightarrow> 'p datapath \<Rightarrow> 'p datapath \<times> unit res" where
  "hello_handler supported version elements dp =
     (if elements \<noteq> [] then
        (let switch_versions = int ` set (concat (map he_versions elements));
             usable_versions = switch_versions \<inter> supported;
             negotiated_versions = {v \<in> switch_versions. v \<le> Max supported}
         in if negotiated_versions \<noteq> {} \<and> usable_versions = {} then hello_failed dp
            else if negotiated_versions \<noteq> {} \<and> usable_versions \<noteq> {}
                    \<and> Max negotiated_versions \<noteq> Max usable_versions then hello_failed dp
            else hello_proceed supported usable_versions dp)
      else
        (let usable_versions = {v \<in> supported. v \<le> version}
         in if usable_versions \<noteq> {} \<and> Max usable_versions \<noteq> min version (dp_version dp)
            then hello_failed dp
            else hello_proceed supported usable_versions dp))"

definition switch_features_handler ::
  "int \<Rightarrow> (int \<rightharpoonup> 'p) option \<Rightarrow> 'p datapath \<Rightarrow> 'p datapath \<times> unit res" where
  "switch_features_handler datapath_id ports dp =
     (let dp1 = dp\<lparr>dp_id := Some datapath_id\<rparr> in
      if dp_version dp1 < 4 then
        (case ports of
           None \<Rightarrow> (dp1, Inl AttributeError)
         | Some ps \<Rightarrow> (set_state MAIN_DISPATCHER (dp1\<lparr>dp_ports := Some ps\<rparr>), Inr ()))
      else (send_msg None (OutPortDescRequest 0) (dp1\<lparr>dp_ports := Some Map.empty\<rparr>), Inr ()))"

text \<open>Assigning a port fails when the ports have not been initialised by a features reply.\<close>

fun add_ports :: "(int \<times> 'p) list \<Rightarrow> 'p datapath \<Rightarrow> 'p datapath \<times> unit res" where
  "add_ports [] dp = (dp, Inr ())"
| "add_ports ((no, p) # ps) dp =
     (case dp_ports dp of
        None \<Rightarrow> (dp, Inl TypeError)
      | Some m \<Rightarrow> add_ports ps (dp\<lparr>dp_ports := Some (m(no \<mapsto> p))\<rparr>))"

definition multipart_reply_handler ::
  "int \<Rightarrow> (int \<times> 'p) list \<Rightarrow> 'p datapath \<Rightarrow> 'p datapath \<times> unit res" where
  "multipart_reply_handler flags body dp =
     (case add_ports body dp of
        (dp1, Inl e) \<Rightarrow> (dp1, Inl e)
      | (dp1, Inr _) \<Rightarrow>
          if flags AND OFPMPF_REPLY_MORE \<noteq> 0 then (dp1, Inr ())
          else (set_state MAIN_DISPATCHER dp1, Inr ()))"

definition echo_request_handler :: "int \<Rightarrow> bytes \<Rightarrow> 'p datapath \<Rightarrow> 'p datapath \<times> unit res" where
  "echo_request_handler xid data dp = (send_msg (Some xid) (OutEchoReply data) dp, Inr ())"

text \<open>The error handlers read the header of the offending message out of the data and log it.\<close>

definition error_msg_handler :: "bytes \<Rightarrow> 'p datapath \<Rightarrow> 'p datapath \<times> unit res" where
  "error_msg_handler data dp = (dp, rbind (ofp_header data) (\<lambda>_. Inr ()))"

definition OFPErrorExperimenterMsg_handler :: "bytes \<Rightarrow> unit res" where
  "OFPErrorExperimenterMsg_handler data = rbind (unpack_from OFP_HEADER_PACK_STR data 0) (\<lambda>_. Inr ())"

definition exp_error_msg_handler :: "int \<Rightarrow> bytes \<Rightarrow> 'p datapath \<Rightarrow> 'p datapath \<times> unit res" where
  "exp_error_msg_handler experimenter data dp =
     (dp, if experimenter = BEBA_EXPERIMENTER_ID then OFPErrorExperimenterMsg_handler data else Inr ())"

section \<open>Dispatch\<close>

text \<open>The states in which \<open>set_ev_handler\<close> registers the handler of a message.\<close>

fun dispatchers :: "'p ofp_body \<Rightarrow> dispatcher list" where
  "dispatchers (HelloBody _) = [HANDSHAKE_DISPATCHER]"
| "dispatchers (FeaturesBody _ _) = [CONFIG_DISPATCHER]"
| "dispatchers (PortDescBody _ _) = [CONFIG_DISPATCHER]"
| "dispatchers (EchoRequestBody _) = [HANDSHAKE_DISPATCHER, CONFIG_DISPATCHER, MAIN_DISPATCHER]"
| "dispatchers (ErrorBody _) = [HANDSHAKE_DISPATCHER, CONFIG_DISPATCHER, MAIN_DISPATCHER]"
| "dispatchers (OtherBody _) = []"

fun ofp_handle :: "int set \<Rightarrow> 'p ofp_msg \<Rightarrow> 'p datapath \<Rightarrow> 'p datapath \<times> unit res" where
  "ofp_handle supported m dp =
     (case msg_body m of
        HelloBody elements \<Rightarrow> hello_handler supported (msg_version m) elements dp
      | FeaturesBody i ports \<Rightarrow> switch_features_handler i ports dp
      | PortDescBody flags body \<Rightarrow> multipart_reply_handler flags body dp
      | EchoRequestBody data \<Rightarrow> echo_request_handler (msg_xid m) data dp
      | ErrorBody (OFPErrorMsg _ _ data) \<Rightarrow> error_msg_handler data dp
      | ErrorBody (OFPErrorExperimenterMsg _ _ experimenter data) \<Rightarrow>
          exp_error_msg_handler experimenter data dp
      | OtherBody _ \<Rightarrow> (dp, Inr ()))"

text \<open>What \<open>_recv_loop\<close> does with a parsed message.\<close>

definition dp_deliver :: "int set \<Rightarrow> ('p ofp_msg, 'p datapath) deliver_fn" where
  "dp_deliver supported m dp =
     (let dp1 = send_event_to_observers (EventOFPMsg m) (dp_phase dp) dp in
      if dp_phase dp1 \<in> set (dispatchers (msg_body m)) then ofp_handle supported m dp1
      else (dp1, Inr ()))"

section \<open>The parser of version 1.3\<close>

text \<open>
  The registry of OpenFlow 1.3 parsers as far as the handlers of this theory read messages; a message
  of another type, and a multipart reply other than port descriptions, is parsed by \<open>others\<close>.
\<close>

definition of13_msg_parsers ::
  "netaddr \<Rightarrow> (int \<Rightarrow> of_port ofp_msg msg_parser_fn option) \<Rightarrow> int \<Rightarrow> of_port ofp_msg msg_parser_fn option" where
  "of13_msg_parsers na others t =
     (if t = OFPT_HELLO then Some (\<lambda>version msg_type msg_len xid buf.
        rbind (OFPHello_parser msg_type msg_len buf) (\<lambda>es.
          Inr \<lparr>msg_version = version, msg_xid = xid, msg_body = HelloBody es\<rparr>))
      else if t = OFPT_ERROR then Some (\<lambda>version msg_type msg_len xid buf.
        rbind (OFPErrorMsg_parser msg_type buf) (\<lambda>e.
          Inr \<lparr>msg_version = version, msg_xid = xid, msg_body = ErrorBody e\<rparr>))
      else if t = OFPT_ECHO_REQUEST then Some (\<lambda>version msg_type msg_len xid buf.
        rbind (OFPEchoRequest_parser msg_type buf) (\<lambda>d.
          Inr \<lparr>msg_version = version, msg_xid = xid, msg_body = EchoRequestBody d\<rparr>))
      else if t = OFPT_FEATURES_REPLY then Some (\<lambda>version msg_type msg_len xid buf.
        rbind (OFPSwitchFeatures_parser msg_type buf) (\<lambda>sf.
          Inr \<lparr>msg_version = version, msg_xid = xid, msg_body = FeaturesBody (sf_datapath_id sf) None\<rparr>))
      else if t = OFPT_MULTIPART_REPLY then Some (\<lambda>version msg_type msg_len xid buf.
        rbind (unpack_from OFP_MULTIPART_REPLY_PACK_STR buf OFP_HEADER_SIZE) (\<lambda>vs.
          if vs ! 0 = OFPMP_PORT_DESC then
            rbind (OFPMultipartReply_parser [OFPMP_PORT_DESC \<mapsto> (OFPPort_parser na, False)] msg_type msg_len buf)
              (\<lambda>r. Inr \<lparr>msg_version = version, msg_xid = xid,
                         msg_body = PortDescBody (mp_flags r)
                           (case mp_body r of MPList ps \<Rightarrow> map (\<lambda>p. (port_no p, p)) ps | MPSingle p \<Rightarrow> [(port_no p, p)])\<rparr>)
          else (case others t of
                  None \<Rightarrow> Inl TypeError
                | Some parser \<Rightarrow> parser version msg_type msg_len xid buf)))
      else others t)"

definition of13_parsers ::
  "netaddr \<Rightarrow> (int \<Rightarrow> of_port ofp_msg msg_parser_fn option) \<Rightarrow> of_port ofp_msg msg_parsers" where
  "of13_parsers na others version =
     (if version = OFP_VERSION then Some (msg_parser (of13_msg_parsers na others)) else None)"

end
