(* ===== verification/Dp_Recv_Codec.thy ===== *)
theory Dp_Recv_Codec
  imports Dp_Recv OF13_Msg_Codec
begin

text \<open>
  The receive loop of a datapath against a receiver of whole messages, and the one way in which
  it fails to end.
\<close>

section \<open>Vocabulary\<close>

text \<open>A frame is a message whose header announces its own length.\<close>

definition frame_ok :: "bytes \<Rightarrow> bool" where
  "frame_ok f = (case ofp_header f of Inl e \<Rightarrow> False | Inr h \<Rightarrow> nat (h ! 2) = length f)"

text \<open>The abstract receiver gets whole messages and delivers them one after the other.\<close>

fun deliver_all ::
  "'m msg_parsers \<Rightarrow> ('m, 's) deliver_fn \<Rightarrow> bytes list \<Rightarrow> 's \<Rightarrow> ('s \<times> unit res) option" where
  "deliver_all parsers deliver [] s = Some (s, Inr ())"
| "deliver_all parsers deliver (f # fs) s =
     (case ofp_header f of
        Inl e \<Rightarrow> Some (s, Inl e)
      | Inr h \<Rightarrow>
          (case dispatch_frame parsers deliver h f s of
             None \<Rightarrow> None
           | Some (s', r) \<Rightarrow>
               (case r of Inl e \<Rightarrow> Some (s', Inl e) | Inr _ \<Rightarrow> deliver_all parsers deliver fs s')))"

text \<open>The buffer between two rounds: a part of the first frame that is still to come.\<close>

definition pending :: "bytes list \<Rightarrow> bytes \<Rightarrow> nat \<Rightarrow> bool" where
  "pending fs buf req \<longleftrightarrow>
     length buf < req \<and> (req = 8 \<or> (\<exists>f fs'. fs = f # fs' \<and> 8 \<le> length buf \<and> req = length f))"

text \<open>
  Running the loop on pieces of a stream of frames: it stops where the abstract receiver stops, with
  the same application state, or waits with the frames delivered so far.
\<close>

definition rx_at :: "bytes \<Rightarrow> nat \<Rightarrow> 's \<Rightarrow> 's rx_state" where
  "rx_at buf req s = \<lparr>rx_buf = buf, rx_required_len = req, rx_close_requested = False, rx_app = s\<rparr>"

definition stuck :: "'m msg_parsers \<Rightarrow> ('m, 's) deliver_fn \<Rightarrow> bytes \<Rightarrow> nat \<Rightarrow> bool" where
  "stuck P D buf req \<longleftrightarrow> req = 8 \<and> 8 \<le> length buf \<and>
     (\<exists>h. ofp_header buf = Inr h \<and> h ! 2 = 0 \<and> (\<forall>s. \<exists>s'. dispatch_frame P D h [] s = Some (s', Inr ())))"

definition hello_parsers :: "hello_elem list msg_parsers" where
  "hello_parsers version =
     (if version = 4 then Some (\<lambda>version msg_type msg_len xid buf. OFPHello_parser msg_type msg_len buf) else None)"

definition count_deliver :: "(hello_elem list, nat) deliver_fn" where
  "count_deliver m n = (Suc n, Inr ())"

section \<open>The message sequence a byte stream stands for\<close>

lemma frame_okE:
  assumes "frame_ok f"
  obtains h where "ofp_header f = Inr h" and "nat (h ! 2) = length f" and "8 \<le> length f"
proof -
  from assms obtain h where h: "ofp_header f = Inr h" "nat (h ! 2) = length f"
    by (auto simp: frame_ok_def split: sum.splits)
  moreover from h(1) have "8 \<le> length f" by (auto simp: ofp_header_def rbind_eq_Inr)
  ultimately show ?thesis using that by blast
qed

lemma ofp_header_append: "8 \<le> length f \<Longrightarrow> ofp_header (f @ rest) = ofp_header f"
  by (simp add: ofp_header_def unpack_from_def slice_def)

lemma ofp_header_prefix:
  assumes "8 \<le> length b" and "b @ c = f @ rest" and "8 \<le> length f"
  shows "ofp_header b = ofp_header f"
  using assms ofp_header_append [of b c] ofp_header_append [of f rest] by simp

lemma process_buf_frame:
  assumes "frame_ok f" and "req \<le> length f"
  shows "process_buf P D (f @ rest) req s =
    (case deliver_all P D [f] s of
       None \<Rightarrow> None
     | Some (s', Inl e) \<Rightarrow> Some (s', Inl e)
     | Some (s', Inr _) \<Rightarrow> process_buf P D rest 8 s')"
proof -
  obtain h where h: "ofp_header f = Inr h" "nat (h ! 2) = length f" "8 \<le> length f"
    using assms(1) by (rule frame_okE)
  have "ofp_header (f @ rest) = Inr h" using h ofp_header_append by simp
  with h assms(2) show ?thesis
    by (subst process_buf.simps) (auto split: option.split sum.split)
qed

lemma deliver_all_append:
  "deliver_all P D (fs @ gs) s =
    (case deliver_all P D fs s of
       None \<Rightarrow> None
     | Some (s', Inl e) \<Rightarrow> Some (s', Inl e)
     | Some (s', Inr _) \<Rightarrow> deliver_all P D gs s')"
  by (induction fs arbitrary: s) (auto split: option.splits sum.splits)

lemma process_buf_short: "length buf < req \<Longrightarrow> process_buf P D buf req s = Some (s, Inr (buf, req))"
  by (subst process_buf.simps) simp

lemma process_buf_stream:
  assumes "list_all frame_ok fs" and "concat fs = buf @ rest"
    and "req = 8 \<or> (\<exists>f fs'. fs = f # fs' \<and> 8 \<le> length buf \<and> req = length f)"
  shows "\<exists>fs1 fs2. fs = fs1 @ fs2 \<and>
    (case deliver_all P D fs1 s of
       None \<Rightarrow> process_buf P D buf req s = None
     | Some (s', Inl e) \<Rightarrow> process_buf P D buf req s = Some (s', Inl e)
     | Some (s', Inr _) \<Rightarrow>
         (\<exists>buf' req'. process_buf P D buf req s = Some (s', Inr (buf', req')) \<and>
                      concat fs2 = buf' @ rest \<and> pending fs2 buf' req'))"
  using assms
proof (induction fs arbitrary: buf req s)
  case Nil
  then have "process_buf P D buf req s = Some (s, Inr ([], 8))" by (simp add: process_buf_short)
  with Nil show ?case by (simp add: pending_def)
next
  case (Cons f fs)
  obtain h where h: "ofp_header f = Inr h" "nat (h ! 2) = length f" "8 \<le> length f"
    using Cons.prems(1) frame_okE by auto
  have req: "req = 8 \<or> req = length f \<and> 8 \<le> length buf" using Cons.prems(3) by auto
  show ?case
  proof (cases "length f \<le> length buf")
    case True
    define buf1 where "buf1 = drop (length f) buf"
    have t: "f = take (length f) buf" "concat fs = buf1 @ rest"
      using True Cons.prems(2) by (auto simp: append_eq_append_conv_if buf1_def)
    have b: "buf = f @ buf1" "concat fs = buf1 @ rest"
      using append_take_drop_id [of "length f" buf] t by (simp_all add: buf1_def)
    have fok: "frame_ok f" "list_all frame_ok fs" using Cons.prems(1) by simp_all
    have p: "process_buf P D buf req s =
      (case deliver_all P D [f] s of
         None \<Rightarrow> None
       | Some (s', Inl e) \<Rightarrow> Some (s', Inl e)
       | Some (s', Inr _) \<Rightarrow> process_buf P D buf1 8 s')"
      unfolding b(1) using fok(1) req h(3) by (intro process_buf_frame) auto
    show ?thesis
    proof (cases "deliver_all P D [f] s")
      case None
      with p show ?thesis by (intro exI [of _ "[f]"] exI [of _ fs]) simp
    next
      case (Some sr)
      obtain s1 r where sr: "sr = (s1, r)" by (cases sr)
      show ?thesis
      proof (cases r)
        case (Inl e)
        with p Some sr show ?thesis by (intro exI [of _ "[f]"] exI [of _ fs]) (simp del: deliver_all.simps)
      next
        case (Inr u)
        have p1: "process_buf P D buf req s = process_buf P D buf1 8 s1"
          using p Some sr Inr by (simp del: deliver_all.simps)
        have d1: "deliver_all P D (f # gs) s = deliver_all P D gs s1" for gs
          using deliver_all_append [of P D "[f]" gs s] Some sr Inr by (simp del: deliver_all.simps)
        obtain fs1 fs2 where ih: "fs = fs1 @ fs2"
          "case deliver_all P D fs1 s1 of
             None \<Rightarrow> process_buf P D buf1 8 s1 = None
           | Some (s', Inl e) \<Rightarrow> process_buf P D buf1 8 s1 = Some (s', Inl e)
           | Some (s', Inr _) \<Rightarrow>
               (\<exists>buf' req'. process_buf P D buf1 8 s1 = Some (s', Inr (buf', req')) \<and>
                            concat fs2 = buf' @ rest \<and> pending fs2 buf' req')"
          using Cons.IH [OF fok(2) b(2), of 8 s1] by auto
        show ?thesis
          unfolding p1 by (rule exI [of _ "f # fs1"], rule exI [of _ fs2]) (use ih d1 in simp)
      qed
    qed
  next
    case False
    have "\<exists>req'. process_buf P D buf req s = Some (s, Inr (buf, req')) \<and> pending (f # fs) buf req'"
    proof (cases "length buf < req")
      case True
      then show ?thesis using req False by (auto simp: process_buf_short pending_def)
    next
      case b8: False
      then have 8: "8 \<le> length buf" using req h(3) False by auto
      have "ofp_header buf = Inr h"
        using ofp_header_prefix [OF 8 _ h(3), of rest "concat fs"] Cons.prems(2) h(1) by simp
      then have "process_buf P D buf req s = Some (s, Inr (buf, length f))"
        using b8 False h(2) by (subst process_buf.simps) simp
      with 8 False show ?thesis by (auto simp: pending_def)
    qed
    with Cons.prems(2) show ?thesis
      by (intro exI [of _ "[]"] exI [of _ "f # fs"]) simp
  qed
qed

section \<open>The receive loop on a stream in pieces\<close>

lemma recv_loop_pieces:
  assumes "list_all frame_ok fs" and "concat fs = buf @ concat cs" and "pending fs buf req"
    and "\<forall>c \<in> set cs. c \<noteq> []"
  shows "case deliver_all P D fs s of
      None \<Rightarrow> recv_loop P D K (map Received cs) (rx_at buf req s) = None
    | Some (s', Inl e) \<Rightarrow>
        (\<exists>b r. recv_loop P D K (map Received cs) (rx_at buf req s) = Some (rx_at b r (K s'), Raised e))
    | Some (s', Inr _) \<Rightarrow>
        recv_loop P D K (map Received cs) (rx_at buf req s) = Some (rx_at [] 8 s', Waiting)"
  using assms
proof (induction cs arbitrary: fs buf req s)
  case Nil
  have "fs = []"
  proof (rule ccontr)
    assume "fs \<noteq> []"
    then obtain f fs' where fs: "fs = f # fs'" by (cases fs) auto
    then have "8 \<le> length f" using Nil.prems(1) frame_okE by auto
    moreover have "length f \<le> length buf" using Nil.prems(2) fs by (metis append_Nil2 concat.simps le_add1 length_append)
    ultimately show False using Nil.prems(3) fs by (auto simp: pending_def)
  qed
  with Nil have "buf = []" "req = 8" by (auto simp: pending_def)
  with \<open>fs = []\<close> show ?case by simp
next
  case (Cons c cs)
  have "req = 8 \<or> (\<exists>f fs'. fs = f # fs' \<and> 8 \<le> length (buf @ c) \<and> req = length f)"
    using Cons.prems(3) by (auto simp: pending_def)
  moreover have "concat fs = (buf @ c) @ concat cs" using Cons.prems(2) by simp
  ultimately obtain fs1 fs2 where fs: "fs = fs1 @ fs2"
    and p: "case deliver_all P D fs1 s of
       None \<Rightarrow> process_buf P D (buf @ c) req s = None
     | Some (s', Inl e) \<Rightarrow> process_buf P D (buf @ c) req s = Some (s', Inl e)
     | Some (s', Inr _) \<Rightarrow>
         (\<exists>buf' req'. process_buf P D (buf @ c) req s = Some (s', Inr (buf', req')) \<and>
                      concat fs2 = buf' @ concat cs \<and> pending fs2 buf' req')"
    using process_buf_stream [OF Cons.prems(1), of "buf @ c" "concat cs" req P D s] by blast
  have c: "c \<noteq> []" and cs: "\<forall>c \<in> set cs. c \<noteq> []" using Cons.prems(4) by auto
  have f2: "list_all frame_ok fs2" using Cons.prems(1) fs by simp
  show ?case
  proof (cases "deliver_all P D fs1 s")
    case None
    with p c fs show ?thesis by (simp add: deliver_all_append rx_at_def)
  next
    case (Some sr)
    obtain s1 r where sr: "sr = (s1, r)" by (cases sr)
    show ?thesis
    proof (cases r)
      case (Inl e)
      with Some sr p c fs show ?thesis by (simp add: deliver_all_append rx_at_def)
    next
      case (Inr u)
      with Some sr p obtain buf' req' where b: "process_buf P D (buf @ c) req s = Some (s1, Inr (buf', req'))"
        "concat fs2 = buf' @ concat cs" "pending fs2 buf' req'" by auto
      have step: "recv_loop P D K (map Received (c # cs)) (rx_at buf req s)
          = recv_loop P D K (map Received cs) (rx_at buf' req' s1)"
        using b(1) c by (simp add: rx_at_def)
      have deq: "deliver_all P D fs s = deliver_all P D fs2 s1"
        using Some sr Inr fs by (simp add: deliver_all_append)
      show ?thesis unfolding step deq by (rule Cons.IH [OF f2 b(2,3) cs])
    qed
  qed
qed

lemma rx_init_at: "rx_init s = rx_at [] 8 s"
  by (simp add: rx_init_def rx_at_def)

lemma rx_app_at [simp]: "rx_app (rx_at b r s) = s"
  by (simp add: rx_at_def)

section \<open>A message that announces no length\<close>

lemma process_buf_stuck:
  assumes "process_buf P D buf req s = Some r"
  shows "\<not> stuck P D buf req"
  apply (rule process_buf.raw_induct [where P = "\<lambda>P D buf req s r. \<not> stuck P D buf req", OF _ assms])
  subgoal premises prems for f P D buf req s r
  proof
    assume st: "stuck P D buf req"
    then obtain h s' where h: "ofp_header buf = Inr h" "h ! 2 = 0" "8 \<le> length buf" "req = 8"
      and d: "dispatch_frame P D h [] s = Some (s', Inr ())" unfolding stuck_def by blast
    then have "f P D buf 8 s' = Some r" using prems(2) by simp
    then have "\<not> stuck P D buf 8" by (rule prems(1))
    with st h(4) show False by simp
  qed
  done

section \<open>A receiver that counts hello messages\<close>

lemma hello_frame: "frame_ok [4, 0, 0, 8, 0, 0, 0, 1]"
  by code_simp

lemma hello_delivered: "deliver_all hello_parsers count_deliver [[4, 0, 0, 8, 0, 0, 0, 1]] n = Some (Suc n, Inr ())"
proof -
  have h: "ofp_header [4, 0, 0, 8, 0, 0, 0, 1] = Inr [4, 0, 8, 1]" by code_simp
  have "OFPHello_parser 0 8 [4, 0, 0, 8, 0, 0, 0, 1] = Inr []" by code_simp
  with h show ?thesis by (simp add: dispatch_frame_def ofproto_msg_def hello_parsers_def count_deliver_def)
qed

section \<open>Properties\<close>

text \<open>
  C3. The receive loop implements a receiver of whole messages: however a
  stream of well-formed messages is cut into pieces by the socket, the loop delivers exactly
  these messages, in order, with the same effect on the application, stops at the first
  exception of a handler, and otherwise waits with an empty buffer.
\<close>

theorem recv_stream_refines:
  assumes "list_all frame_ok fs" and "concat cs = concat fs" and "\<forall>c \<in> set cs. c \<noteq> []"
  shows "case deliver_all P D fs s of
      None \<Rightarrow> recv_loop P D K (map Received cs) (rx_init s) = None
    | Some (s', Inl e) \<Rightarrow>
        (\<exists>st. recv_loop P D K (map Received cs) (rx_init s) = Some (st, Raised e) \<and> rx_app st = K s')
    | Some (s', Inr _) \<Rightarrow>
        recv_loop P D K (map Received cs) (rx_init s) = Some (rx_init s', Waiting)"
proof -
  have "pending fs [] 8" by (simp add: pending_def)
  then have r: "case deliver_all P D fs s of
      None \<Rightarrow> recv_loop P D K (map Received cs) (rx_at [] 8 s) = None
    | Some (s', Inl e) \<Rightarrow>
        (\<exists>b r. recv_loop P D K (map Received cs) (rx_at [] 8 s) = Some (rx_at b r (K s'), Raised e))
    | Some (s', Inr _) \<Rightarrow>
        recv_loop P D K (map Received cs) (rx_at [] 8 s) = Some (rx_at [] 8 s', Waiting)"
    using assms by (intro recv_loop_pieces) simp_all
  show ?thesis
  proof (cases "deliver_all P D fs s")
    case None
    with r show ?thesis by (simp add: rx_init_at)
  next
    case (Some sr)
    obtain s' o' where sr: "sr = (s', o')" by (cases sr)
    show ?thesis
    proof (cases o')
      case (Inl e)
      with r Some sr obtain b q where
        "recv_loop P D K (map Received cs) (rx_at [] 8 s) = Some (rx_at b q (K s'), Raised e)" by auto
      with Some sr Inl show ?thesis by (simp add: rx_init_at)
    next
      case (Inr u)
      with r Some sr show ?thesis by (simp add: rx_init_at)
    qed
  qed
qed

theorem recv_stream_refines_witness:
  "recv_loop hello_parsers count_deliver (\<lambda>n. n)
     (map Received [[4, 0, 0], [8, 0, 0, 0, 1, 4, 0], [0, 8, 0, 0, 0, 1]]) (rx_init 0) = Some (rx_init 2, Waiting)"
proof -
  let ?f = "[4, 0, 0, 8, 0, 0, 0, 1] :: bytes"
  have "deliver_all hello_parsers count_deliver [?f, ?f] 0 = Some (2, Inr ())"
    using deliver_all_append [of hello_parsers count_deliver "[?f]" "[?f]" 0]
    by (simp only: append_Cons append_Nil hello_delivered) simp
  with recv_stream_refines [where fs = "[?f, ?f]" and cs = "[[4, 0, 0], [8, 0, 0, 0, 1, 4, 0], [0, 8, 0, 0, 0, 1]]"
      and P = hello_parsers and D = count_deliver and s = 0 and K = "\<lambda>n. n"] hello_frame
  show ?thesis by simp
qed

text \<open>
  C33. The receive loop does not always end its work on a piece of
  input: a header that announces length zero, for which parsing the empty message has no fatal
  error, keeps the inner loop busy with the same bytes for ever.
\<close>

theorem recv_zero_length_never_ends:
  assumes h: "ofp_header buf = Inr h" and "h ! 2 = 0"
    and "\<And>s. \<exists>s'. dispatch_frame parsers D h [] s = Some (s', Inr ())"
  shows "recv_loop parsers D K (Received buf # rs) (rx_init s) = None"
proof -
  have l: "8 \<le> length buf" using h by (auto simp: ofp_header_def rbind_eq_Inr)
  have "process_buf parsers D buf 8 s = None"
    using h assms(2,3) l process_buf_stuck [of parsers D buf 8 s]
    by (cases "process_buf parsers D buf 8 s") (auto simp: stuck_def)
  with l show ?thesis by (auto simp: rx_init_def)
qed

theorem recv_zero_length_never_ends_witness:
  "recv_loop hello_parsers count_deliver (\<lambda>n. n) [Received [4, 0, 0, 0, 0, 0, 0, 1]] (rx_init 0) = None"
proof (rule recv_zero_length_never_ends [where h = "[4, 0, 0, 1]"])
  show "ofp_header [4, 0, 0, 0, 0, 0, 0, 1] = Inr [4, 0, 0, 1]" by code_simp
  have "OFPHello_parser 0 0 [] = Inr []" by code_simp
  then show "\<exists>s'. dispatch_frame hello_parsers count_deliver [4, 0, 0, 1] [] s = Some (s', Inr ())" for s
    by (simp add: dispatch_frame_def ofproto_msg_def hello_parsers_def count_deliver_def)
qed simp

end
