(* ===== verification/Ofp_Session.thy ===== *)
theory Ofp_Session
  imports Ofp_Handler Dp_Recv_Codec
begin

text \<open>
  Correctness of a connection: the version negotiation, the invariant of every reachable
  connection, the end of the handshake and the transaction ids.
\<close>

section \<open>Vocabulary\<close>

text \<open>
  The version both sides end up with by the rule of the OpenFlow specification, given that the hello
  of the controller carries no version bitmap: the highest common candidate, or nothing.
\<close>

definition negotiated_version :: "int set \<Rightarrow> int \<Rightarrow> hello_elem list \<Rightarrow> int option" where
  "negotiated_version supported version elements =
     (if elements = [] then Some (min version (Max supported))
      else let vs = {v \<in> int ` set (concat (map he_versions elements)). v \<le> Max supported}
           in if vs = {} then None else Some (Max vs))"

text \<open>
  A connection starts when \<open>serve\<close> has sent the hello message; then messages arrive, applications send
  messages with or without a transaction id, the send loop runs, and the connection is closed or
  deactivated by the end of one of its loops.
\<close>

inductive dp_reach :: "int set \<Rightarrow> 'p datapath \<Rightarrow> bool" for supported where
  dp_start: "0 \<le> xid \<Longrightarrow> xid \<le> MAX_XID \<Longrightarrow> dp_reach supported (serve_hello (Datapath_init supported xid))"
| dp_recv: "dp_reach supported dp \<Longrightarrow> dp_reach supported (fst (dp_deliver supported m dp))"
| dp_app_send: "dp_reach supported dp \<Longrightarrow> dp_reach supported (send_msg xid (OutApp n) dp)"
| dp_send_step: "dp_reach supported dp \<Longrightarrow> dp_reach supported (send_loop oks dp)"
| dp_closed: "dp_reach supported dp \<Longrightarrow> dp_reach supported (dp_close dp)"
| dp_loop_end: "dp_reach supported dp \<Longrightarrow> dp_reach supported (deactivate dp)"

text \<open>The states a connection has announced to the applications, oldest first.\<close>

fun state_change :: "'p dp_event \<times> dispatcher \<Rightarrow> dispatcher list" where
  "state_change (EventOFPStateChange, d) = [d]"
| "state_change (EventOFPMsg _, d) = []"

definition state_changes :: "'p datapath \<Rightarrow> dispatcher list" where
  "state_changes dp = concat (map state_change (dp_events dp))"

definition live_phases :: "dispatcher list" where
  "live_phases = [HANDSHAKE_DISPATCHER, CONFIG_DISPATCHER, MAIN_DISPATCHER]"

text \<open>
  The invariant of a connection: the announced states are a path of the state machine followed by
  the announcements of its end, the current state is the last one announced, and the data that a
  state promises is there.
\<close>

definition phases_ok :: "dispatcher list \<Rightarrow> dispatcher \<Rightarrow> nat \<Rightarrow> nat \<Rightarrow> bool" where
  "phases_ok changes phase n k \<longleftrightarrow>
     1 \<le> n \<and> n \<le> 3 \<and> changes = take n live_phases @ replicate k DEAD_DISPATCHER \<and>
     phase = (if k = 0 then live_phases ! (n - 1) else DEAD_DISPATCHER)"

definition dp_inv :: "int set \<Rightarrow> 'p datapath \<Rightarrow> bool" where
  "dp_inv supported dp \<longleftrightarrow>
     (\<exists>n k. phases_ok (state_changes dp) (dp_phase dp) n k \<and>
        (n = 1 \<longrightarrow> dp_version dp = Max supported \<and> dp_id dp = None \<and> dp_ports dp = None) \<and>
        (0 < k \<longrightarrow> \<not> dp_send_active dp)) \<and>
     dp_version dp \<in> supported \<and> 0 \<le> dp_xid dp \<and> dp_xid dp \<le> MAX_XID \<and>
     (dp_send_q dp = None \<longrightarrow> \<not> dp_send_active dp) \<and>
     (dp_ports dp \<noteq> None \<longrightarrow> dp_id dp \<noteq> None)"

text \<open>Sending a list of messages that carry no transaction id.\<close>

definition send_all :: "out_msg list \<Rightarrow> 'p datapath \<Rightarrow> 'p datapath" where
  "send_all ms dp = fold (send_msg None) ms dp"

fun dp_run :: "int set \<Rightarrow> 'p ofp_msg list \<Rightarrow> 'p datapath \<Rightarrow> 'p datapath \<times> unit res" where
  "dp_run supported [] dp = (dp, Inr ())"
| "dp_run supported (m # ms) dp =
     (case dp_deliver supported m dp of
        (dp1, Inl e) \<Rightarrow> (dp1, Inl e)
      | (dp1, Inr _) \<Rightarrow> dp_run supported ms dp1)"

text \<open>Messages that a switch may send at any time and that do not take part in the handshake.\<close>

definition quiet :: "'p ofp_msg \<Rightarrow> bool" where
  "quiet m = (case msg_body m of EchoRequestBody _ \<Rightarrow> True | OtherBody _ \<Rightarrow> True | _ \<Rightarrow> False)"

text \<open>What the handshake depends on.\<close>

definition dp_core :: "'p datapath \<Rightarrow> int \<times> dispatcher \<times> int option \<times> (int \<rightharpoonup> 'p) option" where
  "dp_core dp = (dp_version dp, dp_phase dp, dp_id dp, dp_ports dp)"

text \<open>Port descriptions that come in parts: all but the last part announce more.\<close>

fun port_parts :: "'p ofp_msg list \<Rightarrow> (int \<times> 'p) list option" where
  "port_parts [] = None"
| "port_parts (m # ms) =
     (case msg_body m of
        PortDescBody flags ps \<Rightarrow>
          if flags AND OFPMPF_REPLY_MORE \<noteq> 0
          then (case port_parts ms of None \<Rightarrow> None | Some qs \<Rightarrow> Some (ps @ qs))
          else if ms = [] then Some ps else None
      | _ \<Rightarrow> None)"

section \<open>Version negotiation\<close>

lemma hello_proceed_usable:
  assumes "usable \<noteq> {}" and "Max usable \<in> supported"
  shows "hello_proceed supported usable dp =
    (send_msg None OutFeaturesRequest (set_state CONFIG_DISPATCHER (dp\<lparr>dp_version := Max usable\<rparr>)), Inr ())"
  using assms by (simp add: hello_proceed_def set_version_def)

lemma hello_elements_negotiate:
  fixes supported :: "int set" and vs :: "int set"
  assumes "finite supported" and "finite vs"
  defines "neg \<equiv> {v \<in> vs. v \<le> Max supported}"
  shows "vs \<inter> supported \<noteq> {} \<and> Max neg = Max (vs \<inter> supported) \<longleftrightarrow> neg \<noteq> {} \<and> Max neg \<in> supported"
    and "neg \<noteq> {} \<Longrightarrow> Max neg \<in> supported \<Longrightarrow> Max (vs \<inter> supported) = Max neg"
    and "neg = {} \<Longrightarrow> vs \<inter> supported = {}"
proof -
  have sub: "vs \<inter> supported \<subseteq> neg" using assms by auto
  have fin: "finite neg" using assms by simp
  have eq: "Max (vs \<inter> supported) = Max neg" if "neg \<noteq> {}" "Max neg \<in> supported"
  proof (rule Max_eqI)
    show "finite (vs \<inter> supported)" using assms by simp
    show "y \<le> Max neg" if "y \<in> vs \<inter> supported" for y using that sub fin by auto
    have "Max neg \<in> neg" using fin that(1) by simp
    then show "Max neg \<in> vs \<inter> supported" using that(2) by (auto simp: neg_def)
  qed
  show "neg \<noteq> {} \<Longrightarrow> Max neg \<in> supported \<Longrightarrow> Max (vs \<inter> supported) = Max neg" by (rule eq)
  show "neg = {} \<Longrightarrow> vs \<inter> supported = {}" using sub by auto
  have mem: "Max (vs \<inter> supported) \<in> supported" if "vs \<inter> supported \<noteq> {}"
    using that assms Max_in [of "vs \<inter> supported"] by auto
  have mem2: "vs \<inter> supported \<noteq> {}" if "neg \<noteq> {}" "Max neg \<in> supported"
  proof -
    have "Max neg \<in> neg" using fin that(1) by simp
    then have "Max neg \<in> vs \<inter> supported" using that(2) by (auto simp: neg_def)
    then show ?thesis by auto
  qed
  show "vs \<inter> supported \<noteq> {} \<and> Max neg = Max (vs \<inter> supported) \<longleftrightarrow> neg \<noteq> {} \<and> Max neg \<in> supported"
    using sub mem mem2 eq by (metis subset_empty)
qed

lemma hello_version_negotiate:
  fixes supported :: "int set" and version :: int
  assumes "finite supported" and "supported \<noteq> {}"
  defines "usable \<equiv> {v \<in> supported. v \<le> version}"
  shows "usable \<noteq> {} \<and> Max usable = min version (Max supported) \<longleftrightarrow> min version (Max supported) \<in> supported"
proof -
  have fin: "finite usable" using assms by simp
  have "Max usable \<in> usable" if "usable \<noteq> {}" using that fin by simp
  then have 1: "Max usable \<in> supported" if "usable \<noteq> {}" using that by (simp add: usable_def)
  have 2: "usable \<noteq> {} \<and> Max usable = min version (Max supported)" if m: "min version (Max supported) \<in> supported"
  proof -
    have "min version (Max supported) \<in> usable" using m by (simp add: usable_def)
    moreover have "y \<le> min version (Max supported)" if "y \<in> usable" for y
      using that assms by (auto simp: usable_def)
    ultimately show ?thesis using fin by (auto intro: Max_eqI)
  qed
  show ?thesis using 1 2 by metis
qed

lemma hello_handler_negotiated:
  assumes "finite supported" and "supported \<noteq> {}" and "dp_version dp = Max supported"
  shows "hello_handler supported version elements dp =
    (case negotiated_version supported version elements of
       Some v \<Rightarrow>
         if v \<in> supported
         then (send_msg None OutFeaturesRequest (set_state CONFIG_DISPATCHER (dp\<lparr>dp_version := v\<rparr>)), Inr ())
         else (send_msg None OutHelloFailed dp, Inr ())
     | None \<Rightarrow> (send_msg None OutHelloFailed dp, Inr ()))"
proof (cases "elements = []")
  case True
  note v = hello_version_negotiate [OF assms(1,2), of version]
  show ?thesis
  proof (cases "min version (Max supported) \<in> supported")
    case m: True
    with v have u: "{v \<in> supported. v \<le> version} \<noteq> {}"
      "Max ({v \<in> supported. v \<le> version}) = min version (Max supported)" by auto
    have "Max ({v \<in> supported. v \<le> version}) \<in> supported" unfolding u(2) by (rule m)
    from hello_proceed_usable [OF u(1) this] m u True assms(3) show ?thesis
      unfolding hello_handler_def negotiated_version_def by (simp only: Let_def simp_thms if_True if_False option.case)
  next
    case False
    with v True assms(3) show ?thesis
      by (auto simp: hello_handler_def negotiated_version_def hello_failed_def hello_proceed_def Let_def)
  qed
next
  case False
  let ?vs = "int ` set (concat (map he_versions elements))"
  let ?neg = "{v \<in> ?vs. v \<le> Max supported}"
  have f: "finite ?vs" by simp
  note n = hello_elements_negotiate [OF assms(1) f]
  show ?thesis
  proof (cases "?neg \<noteq> {} \<and> Max ?neg \<in> supported")
    case True
    then have u: "?vs \<inter> supported \<noteq> {}" "Max (?vs \<inter> supported) = Max ?neg" using n(1,2) by auto
    have "Max (?vs \<inter> supported) \<in> supported" unfolding u(2) using True by blast
    from hello_proceed_usable [OF u(1) this] True u False show ?thesis
      unfolding hello_handler_def negotiated_version_def by (simp only: Let_def simp_thms if_True if_False option.case)
  next
    case m: False
    then have x: "\<not> (?vs \<inter> supported \<noteq> {} \<and> Max ?neg = Max (?vs \<inter> supported))" using n(1) by simp
    have e: "?neg = {} \<longrightarrow> ?vs \<inter> supported = {}" using n(3) by blast
    have "hello_handler supported version elements dp = hello_failed dp"
      using x e False unfolding hello_handler_def hello_proceed_def Let_def
      by (cases "?neg = {}"; cases "?vs \<inter> supported = {}")
         (simp_all only: simp_thms if_True if_False not_False_eq_True)
    with m False show ?thesis
      unfolding negotiated_version_def hello_failed_def Let_def
      by (cases "?neg = {}"; cases "Max ?neg \<in> supported") (simp_all only: simp_thms if_True if_False option.case not_False_eq_True)
  qed
qed

section \<open>Reachable connections\<close>

lemmas dp_ops = send_msg_def dp_send_def set_xid_def Let_def set_state_def send_event_to_observers_def

lemma send_msg_fields [simp]:
  "dp_version (send_msg x m dp) = dp_version dp"
  "dp_phase (send_msg x m dp) = dp_phase dp"
  "dp_id (send_msg x m dp) = dp_id dp"
  "dp_ports (send_msg x m dp) = dp_ports dp"
  "dp_send_active (send_msg x m dp) = dp_send_active dp"
  "dp_wire (send_msg x m dp) = dp_wire dp"
  "dp_events (send_msg x m dp) = dp_events dp"
  "dp_send_q (send_msg x m dp) = None \<longleftrightarrow> dp_send_q dp = None"
  by (auto simp: dp_ops split: option.splits)

lemma set_state_fields [simp]:
  "dp_version (set_state s dp) = dp_version dp"
  "dp_phase (set_state s dp) = s"
  "dp_xid (set_state s dp) = dp_xid dp"
  "dp_id (set_state s dp) = dp_id dp"
  "dp_ports (set_state s dp) = dp_ports dp"
  "dp_send_active (set_state s dp) = dp_send_active dp"
  "dp_send_q (set_state s dp) = dp_send_q dp"
  "dp_wire (set_state s dp) = dp_wire dp"
  by (simp_all add: dp_ops)

lemma state_changes_simps [simp]:
  "state_changes (set_state s dp) = state_changes dp @ [s]"
  "state_changes (send_msg x m dp) = state_changes dp"
  "state_changes (send_event_to_observers (EventOFPMsg e) s dp) = state_changes dp"
  by (simp_all add: state_changes_def set_state_def send_event_to_observers_def)

lemma state_changes_upd [simp]:
  "state_changes (dp\<lparr>dp_version := v\<rparr>) = state_changes dp"
  "state_changes (dp\<lparr>dp_id := i\<rparr>) = state_changes dp"
  "state_changes (dp\<lparr>dp_ports := p\<rparr>) = state_changes dp"
  "state_changes (dp\<lparr>dp_send_active := a\<rparr>) = state_changes dp"
  "state_changes (dp\<lparr>dp_close_requested := a\<rparr>) = state_changes dp"
  "state_changes (dp\<lparr>dp_send_q := q\<rparr>) = state_changes dp"
  "state_changes (dp\<lparr>dp_wire := w\<rparr>) = state_changes dp"
  by (simp_all add: state_changes_def)

lemma send_event_fields [simp]:
  "dp_version (send_event_to_observers e s dp) = dp_version dp"
  "dp_phase (send_event_to_observers e s dp) = dp_phase dp"
  "dp_xid (send_event_to_observers e s dp) = dp_xid dp"
  "dp_id (send_event_to_observers e s dp) = dp_id dp"
  "dp_ports (send_event_to_observers e s dp) = dp_ports dp"
  "dp_send_active (send_event_to_observers e s dp) = dp_send_active dp"
  "dp_send_q (send_event_to_observers e s dp) = dp_send_q dp"
  "dp_wire (send_event_to_observers e s dp) = dp_wire dp"
  by (simp_all add: send_event_to_observers_def)

lemma and_MAX_XID: "x AND MAX_XID = x mod 2 ^ 32" for x :: int
proof -
  have "MAX_XID = mask 32" by (simp add: mask_eq_exp_minus_1)
  then have "x AND MAX_XID = take_bit 32 x" by (metis take_bit_eq_mask)
  then show ?thesis by (simp only: take_bit_eq_mod)
qed

lemma dp_xid_send_msg:
  "dp_xid (send_msg x m dp) = (if x = None then (dp_xid dp + 1) mod 2 ^ 32 else dp_xid dp)"
  unfolding and_MAX_XID [symmetric] by (auto simp: dp_ops simp del: MAX_XID_def split: option.splits)

lemma dp_xid_send_msg_bounds:
  assumes "0 \<le> dp_xid dp" and "dp_xid dp \<le> MAX_XID"
  shows "0 \<le> dp_xid (send_msg x m dp)" and "dp_xid (send_msg x m dp) \<le> MAX_XID"
  using assms by (auto simp: dp_xid_send_msg)

lemma phases_ok_dead:
  assumes "phases_ok cs p n k"
  shows "phases_ok (cs @ [DEAD_DISPATCHER]) DEAD_DISPATCHER n (Suc k)"
  using assms by (simp add: phases_ok_def replicate_append_same)

lemma phases_ok_cases:
  assumes "phases_ok cs p n k"
  shows "p = HANDSHAKE_DISPATCHER \<Longrightarrow> n = 1 \<and> k = 0"
    and "p = CONFIG_DISPATCHER \<Longrightarrow> n = 2 \<and> k = 0"
  using assms by (auto simp: phases_ok_def live_phases_def nth_Cons' split: if_splits)

lemma phases_ok_next:
  assumes "phases_ok cs p n 0" and "n < 3"
  shows "phases_ok (cs @ [live_phases ! n]) (live_phases ! n) (Suc n) 0"
proof -
  have "take (Suc n) live_phases = take n live_phases @ [live_phases ! n]"
    using assms(2) by (intro take_Suc_conv_app_nth) (simp add: live_phases_def)
  with assms show ?thesis by (simp add: phases_ok_def)
qed

lemma dp_inv_send_msg: "dp_inv S dp \<Longrightarrow> dp_inv S (send_msg x m dp)"
  using dp_xid_send_msg_bounds [of dp x m] by (simp add: dp_inv_def del: MAX_XID_def)

lemma dp_inv_event: "dp_inv S dp \<Longrightarrow> dp_inv S (send_event_to_observers (EventOFPMsg e) s dp)"
  by (simp add: dp_inv_def)

lemma dp_inv_deactivate:
  assumes "dp_inv S dp"
  shows "dp_inv S (deactivate dp)"
proof -
  from assms obtain n k where "phases_ok (state_changes dp) (dp_phase dp) n k"
    "n = 1 \<longrightarrow> dp_version dp = Max S \<and> dp_id dp = None \<and> dp_ports dp = None"
    by (auto simp: dp_inv_def)
  then have "\<exists>n k. phases_ok (state_changes dp @ [DEAD_DISPATCHER]) DEAD_DISPATCHER n k \<and>
      (n = 1 \<longrightarrow> dp_version dp = Max S \<and> dp_id dp = None \<and> dp_ports dp = None)"
    using phases_ok_dead by blast
  with assms show ?thesis by (simp add: deactivate_def dp_inv_def del: MAX_XID_def)
qed

lemma dp_inv_close: "dp_inv S dp \<Longrightarrow> dp_inv S (dp_close dp)"
  unfolding dp_close_def by (rule dp_inv_deactivate) (simp add: dp_inv_def)

lemma deactivate_q:
  "deactivate (dp\<lparr>dp_send_q := q\<rparr>) = (deactivate dp)\<lparr>dp_send_q := q\<rparr>"
  by (simp add: deactivate_def dp_ops)

lemma deactivate_active [simp]: "\<not> dp_send_active (deactivate dp)"
  by (simp add: deactivate_def)

lemma dp_inv_send_loop_end: "dp_inv S dp \<Longrightarrow> dp_inv S (send_loop_end dp)"
  using dp_inv_deactivate [of S dp] by (simp add: send_loop_end_def deactivate_q dp_inv_def del: MAX_XID_def)

lemma dp_inv_queue:
  "dp_inv S dp \<Longrightarrow> dp_inv S (dp\<lparr>dp_send_q := Some q\<rparr>)"
  "dp_inv S dp \<Longrightarrow> dp_inv S (dp\<lparr>dp_send_q := Some q, dp_wire := w\<rparr>)"
  by (simp_all add: dp_inv_def)

lemma dp_inv_send_loop: "dp_inv S dp \<Longrightarrow> dp_inv S (send_loop oks dp)"
  by (induction oks dp rule: send_loop.induct)
    (auto simp: dp_inv_send_loop_end dp_inv_queue split: option.splits list.splits)

lemma dp_inv_config:
  assumes "dp_inv S dp" and "dp_phase dp = HANDSHAKE_DISPATCHER" and "v \<in> S"
  shows "dp_inv S (set_state CONFIG_DISPATCHER (dp\<lparr>dp_version := v\<rparr>))"
proof -
  from assms(1) obtain n k where p: "phases_ok (state_changes dp) (dp_phase dp) n k"
    "0 < k \<longrightarrow> \<not> dp_send_active dp"
    by (auto simp: dp_inv_def)
  then have "phases_ok (state_changes dp) (dp_phase dp) 1 0"
    using phases_ok_cases(1) [OF p(1) assms(2)] by simp
  from phases_ok_next [OF this]
  have "phases_ok (state_changes dp @ [CONFIG_DISPATCHER]) CONFIG_DISPATCHER 2 0"
    by (simp add: live_phases_def numeral_2_eq_2)
  then have "\<exists>n k. phases_ok (state_changes dp @ [CONFIG_DISPATCHER]) CONFIG_DISPATCHER n k \<and>
     (n = 1 \<longrightarrow> v = Max S \<and> dp_id dp = None \<and> dp_ports dp = None) \<and> (0 < k \<longrightarrow> \<not> dp_send_active dp)"
    by (intro exI [of _ 2] exI [of _ 0]) simp
  with assms show ?thesis by (simp add: dp_inv_def del: MAX_XID_def)
qed

lemma dp_inv_in_config:
  assumes "dp_inv S dp" and "dp_phase dp = CONFIG_DISPATCHER"
    and "dp_ports dp' \<noteq> None \<longrightarrow> dp_id dp' \<noteq> None"
    and "dp_version dp' = dp_version dp" "dp_xid dp' = dp_xid dp" "dp_send_q dp' = dp_send_q dp"
      "dp_send_active dp' = dp_send_active dp"
    and "state_changes dp' = state_changes dp \<and> dp_phase dp' = CONFIG_DISPATCHER \<or>
         state_changes dp' = state_changes dp @ [MAIN_DISPATCHER] \<and> dp_phase dp' = MAIN_DISPATCHER"
  shows "dp_inv S dp'"
proof -
  from assms(1) obtain n k where p: "phases_ok (state_changes dp) (dp_phase dp) n k"
    by (auto simp: dp_inv_def)
  then have q: "phases_ok (state_changes dp) (dp_phase dp) 2 0"
    using phases_ok_cases(2) [OF p assms(2)] by simp
  from phases_ok_next [OF this]
  have "phases_ok (state_changes dp @ [MAIN_DISPATCHER]) MAIN_DISPATCHER 3 0"
    by (simp add: live_phases_def numeral_2_eq_2 numeral_3_eq_3)
  with q assms(2,8) have "\<exists>n. 1 < n \<and> phases_ok (state_changes dp') (dp_phase dp') n 0"
    by (metis one_less_numeral_iff semiring_norm(76) semiring_norm(77))
  then obtain n where n: "1 < n" "phases_ok (state_changes dp') (dp_phase dp') n 0" by blast
  then have "\<exists>n k. phases_ok (state_changes dp') (dp_phase dp') n k \<and>
     (n = 1 \<longrightarrow> dp_version dp' = Max S \<and> dp_id dp' = None \<and> dp_ports dp' = None) \<and> (0 < k \<longrightarrow> \<not> dp_send_active dp')"
    by (intro exI [of _ n] exI [of _ 0]) simp
  with assms show ?thesis by (simp add: dp_inv_def del: MAX_XID_def)
qed

lemma add_ports_fields:
  assumes "add_ports ps dp = (dp', r)"
  shows "dp_version dp' = dp_version dp" "dp_phase dp' = dp_phase dp" "dp_xid dp' = dp_xid dp"
    "dp_id dp' = dp_id dp" "dp_send_active dp' = dp_send_active dp" "dp_send_q dp' = dp_send_q dp"
    "dp_wire dp' = dp_wire dp" "dp_events dp' = dp_events dp" "dp_ports dp' = None \<longleftrightarrow> dp_ports dp = None"
proof -
  have "dp_version dp' = dp_version dp \<and> dp_phase dp' = dp_phase dp \<and> dp_xid dp' = dp_xid dp \<and>
    dp_id dp' = dp_id dp \<and> dp_send_active dp' = dp_send_active dp \<and> dp_send_q dp' = dp_send_q dp \<and>
    dp_wire dp' = dp_wire dp \<and> dp_events dp' = dp_events dp \<and> (dp_ports dp' = None \<longleftrightarrow> dp_ports dp = None)"
    using assms by (induction ps dp rule: add_ports.induct) (auto split: option.splits)
  then show "dp_version dp' = dp_version dp" "dp_phase dp' = dp_phase dp" "dp_xid dp' = dp_xid dp"
    "dp_id dp' = dp_id dp" "dp_send_active dp' = dp_send_active dp" "dp_send_q dp' = dp_send_q dp"
    "dp_wire dp' = dp_wire dp" "dp_events dp' = dp_events dp" "dp_ports dp' = None \<longleftrightarrow> dp_ports dp = None"
    by simp_all
qed

lemma add_ports_changes: "add_ports ps dp = (dp', r) \<Longrightarrow> state_changes dp' = state_changes dp"
  by (simp add: state_changes_def add_ports_fields(8))

lemma dp_inv_hello:
  assumes "finite S" and "S \<noteq> {}" and "dp_inv S dp" and "dp_phase dp = HANDSHAKE_DISPATCHER"
  shows "dp_inv S (fst (hello_handler S v es dp))"
proof -
  from assms(3,4) have "dp_version dp = Max S" using phases_ok_cases(1) by (auto simp: dp_inv_def)
  from hello_handler_negotiated [OF assms(1,2) this, of v es] assms(3,4) show ?thesis
    by (auto simp: dp_inv_send_msg dp_inv_config split: option.split)
qed

lemma dp_inv_features:
  assumes "dp_inv S dp" and "dp_phase dp = CONFIG_DISPATCHER"
  shows "dp_inv S (fst (switch_features_handler i ps dp))"
proof -
  have 1: "dp_inv S (dp\<lparr>dp_id := Some i, dp_ports := p\<rparr>)" for p
    by (rule dp_inv_in_config [OF assms]) (simp_all add: assms)
  have 2: "dp_inv S (dp\<lparr>dp_id := Some i\<rparr>)"
    by (rule dp_inv_in_config [OF assms]) (simp_all add: assms)
  have 3: "dp_inv S (set_state MAIN_DISPATCHER (dp\<lparr>dp_id := Some i, dp_ports := p\<rparr>))" for p
    by (rule dp_inv_in_config [OF assms]) (simp_all add: assms)
  from 1 2 3 show ?thesis
    by (auto simp: switch_features_handler_def Let_def dp_inv_send_msg split: option.split)
qed

lemma dp_inv_port_desc:
  assumes "dp_inv S dp" and "dp_phase dp = CONFIG_DISPATCHER"
  shows "dp_inv S (fst (multipart_reply_handler flags body dp))"
proof -
  obtain dp' r where a: "add_ports body dp = (dp', r)" by fastforce
  have p: "dp_ports dp' \<noteq> None \<longrightarrow> dp_id dp' \<noteq> None"
    using assms(1) add_ports_fields(4,9) [OF a] by (simp add: dp_inv_def)
  have 1: "dp_inv S dp'"
    by (rule dp_inv_in_config [OF assms])
       (use p in \<open>simp_all add: add_ports_fields [OF a] add_ports_changes [OF a] assms(2)\<close>)
  have 2: "dp_inv S (set_state MAIN_DISPATCHER dp')"
    by (rule dp_inv_in_config [OF assms])
       (use p in \<open>simp_all add: add_ports_fields [OF a] add_ports_changes [OF a] assms(2)\<close>)
  from a 1 2 show ?thesis by (simp add: multipart_reply_handler_def split: sum.split)
qed

lemma dp_inv_deliver:
  assumes "finite S" and "S \<noteq> {}" and "dp_inv S dp"
  shows "dp_inv S (fst (dp_deliver S m dp))"
proof -
  let ?dp = "send_event_to_observers (EventOFPMsg m) (dp_phase dp) dp"
  have i: "dp_inv S ?dp" using assms(3) by (rule dp_inv_event)
  show ?thesis
  proof (cases "dp_phase dp \<in> set (dispatchers (msg_body m))")
    case False
    with i show ?thesis by (simp add: dp_deliver_def)
  next
    case True
    with i have "dp_inv S (fst (ofp_handle S m ?dp))"
      by (cases "msg_body m")
         (auto simp: dp_inv_hello [OF assms(1,2)] dp_inv_features dp_inv_port_desc echo_request_handler_def
            error_msg_handler_def exp_error_msg_handler_def dp_inv_send_msg split: error_msg.split)
    with True show ?thesis by (simp add: dp_deliver_def del: ofp_handle.simps)
  qed
qed

lemma dp_inv_init:
  assumes "finite S" and "S \<noteq> {}" and "0 \<le> xid" and "xid \<le> MAX_XID"
  shows "dp_inv S (serve_hello (Datapath_init S xid))"
proof -
  let ?d = "Datapath_init S xid"
  have c: "state_changes ?d = [HANDSHAKE_DISPATCHER]"
    by (simp add: Datapath_init_def) (simp add: state_changes_def)
  have "phases_ok [HANDSHAKE_DISPATCHER] HANDSHAKE_DISPATCHER 1 0" by (simp add: phases_ok_def live_phases_def)
  then have "\<exists>n k. phases_ok (state_changes ?d) (dp_phase ?d) n k \<and>
     (n = 1 \<longrightarrow> dp_version ?d = Max S \<and> dp_id ?d = None \<and> dp_ports ?d = None) \<and>
     (0 < k \<longrightarrow> \<not> dp_send_active ?d)"
    unfolding c by (intro exI [of _ 1] exI [of _ 0]) (simp add: Datapath_init_def)
  moreover have "dp_version ?d \<in> S" "0 \<le> dp_xid ?d" "dp_xid ?d \<le> MAX_XID" "dp_send_q ?d \<noteq> None" "dp_ports ?d = None"
    using assms Max_in [of S] by (simp_all add: Datapath_init_def del: MAX_XID_def)
  ultimately have "dp_inv S ?d" unfolding dp_inv_def by blast
  then show ?thesis unfolding serve_hello_def by (rule dp_inv_send_msg)
qed

lemma dp_inv_reach:
  assumes "finite S" and "S \<noteq> {}" and "dp_reach S dp"
  shows "dp_inv S dp"
  using assms(3)
  by induction (auto intro: dp_inv_init dp_inv_deliver dp_inv_send_msg dp_inv_send_loop dp_inv_close
      dp_inv_deactivate simp: assms(1,2) simp del: MAX_XID_def)

section \<open>Transaction ids\<close>

lemma send_all_queue:
  assumes "dp_send_q dp = Some q"
  shows "dp_send_q (send_all ms dp) =
    Some (q @ map (\<lambda>(k, m). \<lparr>of_version = dp_version dp, of_xid = (dp_xid dp + 1 + int k) mod 2 ^ 32, of_msg = m\<rparr>)
                (enumerate 0 ms))"
proof -
  have "dp_send_q (fold (send_msg None) ms dp) =
    Some (q @ map (\<lambda>(k, m). \<lparr>of_version = dp_version dp, of_xid = (x + 1 + int k) mod 2 ^ 32, of_msg = m\<rparr>)
                (enumerate j ms))"
    if "dp_send_q dp = Some q" "dp_xid dp mod 2 ^ 32 = (x + int j) mod 2 ^ 32" for j x q dp
    using that
  proof (induction ms arbitrary: j q dp)
    case Nil
    then show ?case by simp
  next
    case (Cons m ms)
    have x1: "dp_xid (send_msg None m dp) = (x + 1 + int j) mod 2 ^ 32"
      using mod_add_cong [OF Cons.prems(2) refl, of 1] by (simp only: dp_xid_send_msg simp_thms if_True ac_simps)
    have q1: "dp_send_q (send_msg None m dp) =
        Some (q @ [\<lparr>of_version = dp_version dp, of_xid = dp_xid (send_msg None m dp), of_msg = m\<rparr>])"
      using Cons.prems(1) by (simp add: dp_ops)
    have "dp_xid (send_msg None m dp) mod 2 ^ 32 = (x + int (Suc j)) mod 2 ^ 32"
      unfolding x1 by (simp add: algebra_simps)
    from Cons.IH [OF q1 this] x1 show ?case by simp
  qed
  from this [of dp q "dp_xid dp" 0] assms show ?thesis by (simp add: send_all_def)
qed

section \<open>The handshake comes to its end\<close>

lemma dp_run_append:
  "dp_run S (ms @ ns) dp =
     (case dp_run S ms dp of (dp1, Inl e) \<Rightarrow> (dp1, Inl e) | (dp1, Inr _) \<Rightarrow> dp_run S ns dp1)"
  by (induction ms arbitrary: dp) (auto split: prod.split sum.split)

lemma deliver_quiet:
  assumes "quiet m"
  obtains dp' where "dp_deliver S m dp = (dp', Inr ())" and "dp_core dp' = dp_core dp"
proof -
  have "snd (dp_deliver S m dp) = Inr () \<and> dp_core (fst (dp_deliver S m dp)) = dp_core dp"
    using assms by (auto simp: quiet_def dp_deliver_def Let_def echo_request_handler_def dp_core_def split: ofp_body.splits)
  then show ?thesis using that by (metis prod.collapse)
qed

lemma run_quiet:
  assumes "list_all quiet ms"
  shows "\<exists>dp'. dp_run S ms dp = (dp', Inr ()) \<and> dp_core dp' = dp_core dp"
  using assms
proof (induction ms arbitrary: dp)
  case Nil
  then show ?case by simp
next
  case (Cons m ms)
  from Cons.prems have "quiet m" by simp
  then obtain dp1 where "dp_deliver S m dp = (dp1, Inr ())" "dp_core dp1 = dp_core dp" by (rule deliver_quiet)
  with Cons.IH [of dp1] Cons.prems show ?case by simp
qed

text \<open>Running up to and including the first message of the handshake.\<close>

lemma run_step:
  assumes "filter (\<lambda>m. \<not> quiet m) ms = h # hs"
    and "\<And>dp1. dp_core dp1 = dp_core dp \<Longrightarrow>
           \<exists>dp2. dp_deliver S h dp1 = (dp2, Inr ()) \<and> dp_core dp2 = c"
  obtains ms' dp2 where "dp_run S ms dp = dp_run S ms' dp2" and "dp_core dp2 = c"
    and "filter (\<lambda>m. \<not> quiet m) ms' = hs"
proof -
  from assms(1) obtain qs rest where ms: "ms = qs @ h # rest" "\<forall>m \<in> set qs. quiet m"
    "filter (\<lambda>m. \<not> quiet m) rest = hs"
    by (auto simp: filter_eq_Cons_iff)
  obtain dp1 where q: "dp_run S qs dp = (dp1, Inr ())" "dp_core dp1 = dp_core dp"
    using run_quiet [of qs S dp] ms(2) by (auto simp: list_all_iff)
  obtain dp2 where d: "dp_deliver S h dp1 = (dp2, Inr ())" "dp_core dp2 = c" using assms(2) [OF q(2)] by blast
  from ms(1) q d have "dp_run S ms dp = dp_run S rest dp2" by (simp add: dp_run_append)
  then show ?thesis using that d(2) ms(3) by blast
qed

lemma deliver_hello:
  assumes "finite S" and "S \<noteq> {}" and "negotiated_version S (msg_version m) es = Some v" and "v \<in> S"
    and "msg_body m = HelloBody es" and "dp_core dp = (Max S, HANDSHAKE_DISPATCHER, i, ps)"
  shows "\<exists>dp2. dp_deliver S m dp = (dp2, Inr ()) \<and> dp_core dp2 = (v, CONFIG_DISPATCHER, i, ps)"
proof -
  let ?d = "send_event_to_observers (EventOFPMsg m) (dp_phase dp) dp"
  have "dp_version ?d = Max S" using assms(6) by (simp add: dp_core_def)
  from hello_handler_negotiated [OF assms(1,2) this, of "msg_version m" es] assms(3-6) show ?thesis
    by (simp add: dp_deliver_def dp_core_def)
qed

lemma deliver_features:
  assumes "4 \<le> v" and "msg_body m = FeaturesBody i p" and "dp_core dp = (v, CONFIG_DISPATCHER, i0, ps)"
  shows "\<exists>dp2. dp_deliver S m dp = (dp2, Inr ()) \<and> dp_core dp2 = (v, CONFIG_DISPATCHER, Some i, Some Map.empty)"
  using assms by (simp add: dp_deliver_def dp_core_def switch_features_handler_def Let_def)

lemma add_ports_some:
  assumes "dp_ports dp = Some m"
  shows "add_ports ps dp = (dp\<lparr>dp_ports := Some (m ++ map_of (rev ps))\<rparr>, Inr ())"
  using assms by (induction ps dp arbitrary: m rule: add_ports.induct) (auto simp: map_add_upd_left)

lemma deliver_port_desc:
  assumes "msg_body m = PortDescBody flags ps" and "dp_core dp = (v, CONFIG_DISPATCHER, i, Some pm)"
  shows "\<exists>dp2. dp_deliver S m dp = (dp2, Inr ()) \<and>
    dp_core dp2 = (v, if flags AND OFPMPF_REPLY_MORE \<noteq> 0 then CONFIG_DISPATCHER else MAIN_DISPATCHER, i,
                   Some (pm ++ map_of (rev ps)))"
proof -
  let ?d = "send_event_to_observers (EventOFPMsg m) (dp_phase dp) dp"
  have "dp_ports ?d = Some pm" using assms(2) by (simp add: dp_core_def)
  from add_ports_some [OF this, of ps] assms show ?thesis
    by (simp add: dp_deliver_def dp_core_def multipart_reply_handler_def)
qed

lemma run_port_parts:
  assumes "filter (\<lambda>m. \<not> quiet m) ms = parts" and "port_parts parts = Some qs"
    and "dp_core dp = (v, CONFIG_DISPATCHER, i, Some pm)"
  shows "\<exists>dp'. dp_run S ms dp = (dp', Inr ()) \<and>
    dp_core dp' = (v, MAIN_DISPATCHER, i, Some (pm ++ map_of (rev qs)))"
  using assms
proof (induction parts arbitrary: ms dp qs pm)
  case Nil
  then show ?case by simp
next
  case (Cons h hs)
  from Cons.prems(2) obtain flags ps where b: "msg_body h = PortDescBody flags ps"
    by (auto split: ofp_body.splits)
  have "\<exists>dp2. dp_deliver S h dp1 = (dp2, Inr ()) \<and>
      dp_core dp2 = (v, if flags AND OFPMPF_REPLY_MORE \<noteq> 0 then CONFIG_DISPATCHER else MAIN_DISPATCHER, i,
                     Some (pm ++ map_of (rev ps)))" if "dp_core dp1 = dp_core dp" for dp1
    using that b Cons.prems(3) by (intro deliver_port_desc) simp_all
  with Cons.prems(1) obtain ms' dp2 where r: "dp_run S ms dp = dp_run S ms' dp2"
    "dp_core dp2 = (v, if flags AND OFPMPF_REPLY_MORE \<noteq> 0 then CONFIG_DISPATCHER else MAIN_DISPATCHER, i,
                     Some (pm ++ map_of (rev ps)))" "filter (\<lambda>m. \<not> quiet m) ms' = hs"
    by (rule run_step)
  show ?case
  proof (cases "flags AND OFPMPF_REPLY_MORE \<noteq> 0")
    case True
    with Cons.prems(2) b obtain qs' where q: "port_parts hs = Some qs'" "qs = ps @ qs'"
      by (auto split: option.splits)
    have "dp_core dp2 = (v, CONFIG_DISPATCHER, i, Some (pm ++ map_of (rev ps)))" using r(2) True by (simp only: if_True simp_thms)
    from Cons.IH [OF r(3) q(1) this] r(1) q(2) show ?thesis by simp
  next
    case False
    with Cons.prems(2) b have q: "hs = []" "qs = ps" by (auto split: if_splits)
    with r(3) have "list_all quiet ms'" by (auto simp: filter_empty_conv list_all_iff)
    from run_quiet [OF this, of S dp2] r(1,2) q(2) False show ?thesis by auto
  qed
qed

section \<open>Properties\<close>







text \<open>
  C4. A switch that sends a hello with a negotiable version of at
  least 1.3, its features and its port descriptions in any number of parts brings the connection
  to the main state, with its id and all its ports known, whatever echo requests and messages
  without a handler come in between.
\<close>

theorem handshake_reaches_main:
  assumes "finite S" and "S \<noteq> {}"
    and "msg_body hello = HelloBody es" and "negotiated_version S (msg_version hello) es = Some v"
    and "v \<in> S" and "4 \<le> v"
    and "msg_body features = FeaturesBody i p"
    and "filter (\<lambda>m. \<not> quiet m) ms = hello # features # parts" and "port_parts parts = Some ports"
  shows "\<exists>dp. dp_run S ms (serve_hello (Datapath_init S xid)) = (dp, Inr ()) \<and>
    dp_phase dp = MAIN_DISPATCHER \<and> dp_version dp = v \<and> dp_id dp = Some i \<and>
    dp_ports dp = Some (map_of (rev ports))"
proof -
  let ?d = "serve_hello (Datapath_init S xid)"
  have c0: "dp_core ?d = (Max S, HANDSHAKE_DISPATCHER, None, None)"
    by (simp add: serve_hello_def Datapath_init_def dp_core_def)
  have "\<exists>dp2. dp_deliver S hello dp1 = (dp2, Inr ()) \<and> dp_core dp2 = (v, CONFIG_DISPATCHER, None, None)"
    if "dp_core dp1 = dp_core ?d" for dp1
    using that c0 assms(1-5) by (intro deliver_hello) simp_all
  with assms(8) obtain ms1 dp1 where 1: "dp_run S ms ?d = dp_run S ms1 dp1"
    "dp_core dp1 = (v, CONFIG_DISPATCHER, None, None)" "filter (\<lambda>m. \<not> quiet m) ms1 = features # parts"
    by (rule run_step)
  have "\<exists>dp2. dp_deliver S features dp2' = (dp2, Inr ()) \<and> dp_core dp2 = (v, CONFIG_DISPATCHER, Some i, Some Map.empty)"
    if "dp_core dp2' = dp_core dp1" for dp2'
    using that 1(2) assms(6,7) by (intro deliver_features) simp_all
  with 1(3) obtain ms2 dp2 where 2: "dp_run S ms1 dp1 = dp_run S ms2 dp2"
    "dp_core dp2 = (v, CONFIG_DISPATCHER, Some i, Some Map.empty)" "filter (\<lambda>m. \<not> quiet m) ms2 = parts"
    by (rule run_step)
  from run_port_parts [OF 2(3) assms(9) 2(2), of S] 1(1) 2(1) show ?thesis
    by (auto simp: dp_core_def)
qed

theorem handshake_reaches_main_witness:
  "\<exists>dp. dp_run {4}
      [\<lparr>msg_version = 4, msg_xid = 1, msg_body = HelloBody []\<rparr>,
       \<lparr>msg_version = 4, msg_xid = 9, msg_body = EchoRequestBody [7]\<rparr>,
       \<lparr>msg_version = 4, msg_xid = 2, msg_body = FeaturesBody 42 None\<rparr>,
       \<lparr>msg_version = 4, msg_xid = 3, msg_body = PortDescBody 1 [(1, 10 :: nat)]\<rparr>,
       \<lparr>msg_version = 4, msg_xid = 3, msg_body = PortDescBody 0 [(2, 20)]\<rparr>]
      (serve_hello (Datapath_init {4} 5)) = (dp, Inr ()) \<and>
    dp_phase dp = MAIN_DISPATCHER \<and> dp_version dp = 4 \<and> dp_id dp = Some 42 \<and>
    dp_ports dp = Some (map_of (rev [(1, 10), (2, 20)]))"
  by (rule handshake_reaches_main [where hello = "\<lparr>msg_version = 4, msg_xid = 1, msg_body = HelloBody []\<rparr>"
        and features = "\<lparr>msg_version = 4, msg_xid = 2, msg_body = FeaturesBody 42 None\<rparr>"
        and parts = "[\<lparr>msg_version = 4, msg_xid = 3, msg_body = PortDescBody 1 [(1, 10 :: nat)]\<rparr>,
                      \<lparr>msg_version = 4, msg_xid = 3, msg_body = PortDescBody 0 [(2, 20)]\<rparr>]"
        and es = "[]" and p = None])
     (simp_all add: negotiated_version_def quiet_def)

end
