(* ===== verification/Ofp_Wire.thy ===== *)
theory Ofp_Wire
  imports Ofp_Session
begin

text \<open>
  The connection over the wire: the receive loop composed with the handlers of the connection. A
  locale states what the receive loop keeps of its client; it is interpreted on the connection.
\<close>

section \<open>What the receive loop keeps\<close>

text \<open>
  The contract between the receive loop and the code it delivers to: an invariant of the application
  state that delivering a message and deactivating the connection keep. Then no sequence of bytes,
  however it is cut into pieces, breaks the invariant.
\<close>

locale rx_client =
  fixes deliver_msg :: "'m \<Rightarrow> 's \<Rightarrow> 's \<times> unit res" and close_app :: "'s \<Rightarrow> 's" and inv :: "'s \<Rightarrow> bool"
  assumes deliver_inv: "inv s \<Longrightarrow> inv (fst (deliver_msg m s))"
    and close_inv: "inv s \<Longrightarrow> inv (close_app s)"

begin

lemma dispatch_inv:
  assumes "dispatch_frame P deliver_msg h f s = Some (s', r)" and "inv s"
  shows "inv s'"
  using assms deliver_inv [OF assms(2)]
  by (auto simp: dispatch_frame_def split: sum.splits option.splits if_splits) (metis fst_conv)

lemma process_buf_inv:
  assumes "process_buf P deliver_msg buf req s = Some sr" and "inv s"
  shows "inv (fst sr)"
proof -
  have "D = deliver_msg \<longrightarrow> inv s \<longrightarrow> inv (fst sr)" if "process_buf P D buf req s = Some sr" for D
  proof (rule process_buf.raw_induct [where P = "\<lambda>P D buf req s sr. D = deliver_msg \<longrightarrow> inv s \<longrightarrow> inv (fst sr)", OF _ that],
      intro impI)
    fix f P D buf req s sr
    assume ih: "\<And>P D buf req s sr. f P D buf req s = Some sr \<Longrightarrow> D = deliver_msg \<longrightarrow> inv s \<longrightarrow> inv (fst sr)"
      and b: "(if length buf < req then Some (s, Inr (buf, req))
        else case ofp_header buf of Inl e \<Rightarrow> Some (s, Inl e)
           | Inr h \<Rightarrow>
               (let msg_len = nat (h ! 2) in
                if length buf < msg_len then Some (s, Inr (buf, msg_len))
                else case dispatch_frame P D h (take msg_len buf) s of
                       None \<Rightarrow> None
                     | Some (s', r) \<Rightarrow>
                         (case r of Inl e \<Rightarrow> Some (s', Inl e)
                          | Inr _ \<Rightarrow> f P D (drop msg_len buf) OFP_HEADER_SIZE s'))) = Some sr"
      and D: "D = deliver_msg" and s: "inv s"
    show "inv (fst sr)"
    proof (cases "length buf < req \<or> (\<exists>e. ofp_header buf = Inl e)")
      case True
      with b s show ?thesis by (auto split: if_splits)
    next
      case False
      then obtain h where h: "ofp_header buf = Inr h" by (cases "ofp_header buf") auto
      show ?thesis
      proof (cases "length buf < nat (h ! 2)")
        case True
        with False h b s show ?thesis by auto
      next
        case l: False
        with False h b D obtain s1 r where d: "dispatch_frame P deliver_msg h (take (nat (h ! 2)) buf) s = Some (s1, r)"
          by (auto simp: Let_def split: option.splits)
        have s1: "inv s1" by (rule dispatch_inv [OF d s])
        show ?thesis
        proof (cases r)
          case (Inl e)
          with False h b D l d s1 show ?thesis by auto
        next
          case (Inr u)
          with False h b D l d have "f P deliver_msg (drop (nat (h ! 2)) buf) OFP_HEADER_SIZE s1 = Some sr" by simp
          from ih [OF this] s1 show ?thesis by blast
        qed
      qed
    qed
  qed
  with assms show ?thesis by blast
qed

lemma recv_loop_inv:
  assumes "recv_loop P deliver_msg close_app rs st = Some (st', oc)" and "inv (rx_app st)"
  shows "inv (rx_app st')"
  using assms
proof (induction rs arbitrary: st)
  case Nil
  then show ?case by simp
next
  case (Cons r rs)
  show ?case
  proof (cases r)
    case (Received ret)
    show ?thesis
    proof (cases "ret = [] \<or> rx_close_requested st")
      case True
      with Cons.prems Received show ?thesis by (auto simp: close_inv)
    next
      case False
      with Cons.prems(1) Received obtain s q where
        p: "process_buf P deliver_msg (rx_buf st @ ret) (rx_required_len st) (rx_app st) = Some (s, q)"
        by (auto split: option.splits)
      have "inv s" using process_buf_inv [OF p Cons.prems(2)] by simp
      with p False Cons.prems(1) Received close_inv Cons.IH show ?thesis
        by (cases q) (auto split: prod.splits)
    qed
  next
    case RecvTimeout
    with Cons show ?thesis by (auto simp: close_inv split: if_splits)
  next
    case RecvError
    with Cons show ?thesis by (auto simp: close_inv)
  next
    case CloseRequested
    with Cons.prems Cons.IH [of "st\<lparr>rx_close_requested := True, rx_app := close_app (rx_app st)\<rparr>"] show ?thesis
      by (simp add: close_inv)
  qed
qed

end

interpretation dp_rx: rx_client "dp_deliver S" deactivate "\<lambda>dp. finite S \<and> S \<noteq> {} \<longrightarrow> dp_inv S dp" for S
  by unfold_locales (simp_all add: dp_inv_deliver dp_inv_deactivate)

lemma recv_loop_closed:
  "recv_loop P D K rs st = Some (st', oc) \<Longrightarrow> oc \<noteq> Waiting \<Longrightarrow> \<exists>s. rx_app st' = K s"
  by (induction P D K rs st rule: recv_loop.induct)
     (auto split: if_splits option.splits sum.splits prod.splits)

lemma live_phase: "d \<noteq> DEAD_DISPATCHER \<Longrightarrow> d \<in> set [HANDSHAKE_DISPATCHER, CONFIG_DISPATCHER, MAIN_DISPATCHER]"
  by (cases d) simp_all

lemma echo_frame:
  assumes "msg_serialize OFPT_ECHO_REQUEST (Some xid) (OFPEchoRequest_body (Some data)) = Inr f"
  shows "frame_ok f"
    and "deliver_all (of13_parsers na others) (dp_deliver S) (f # fs) dp =
      (case dp_deliver S \<lparr>msg_version = 4, msg_xid = xid, msg_body = EchoRequestBody data\<rparr> dp of
         (dp', Inl e) \<Rightarrow> if e = Diverges then None else Some (dp', Inl e)
       | (dp', Inr _) \<Rightarrow> deliver_all (of13_parsers na others) (dp_deliver S) fs dp')"
proof -
  from msg_serialize_wire [OF assms] have h: "ofp_header f = Inr [4, OFPT_ECHO_REQUEST, int (length f), xid]"
    and d: "drop 8 f = data"
    by (auto simp: OFPEchoRequest_body_def serialize_pre_def)
  then show "frame_ok f" by (simp add: frame_ok_def)
  have "ofproto_msg (of13_parsers na others) 4 OFPT_ECHO_REQUEST (int (length f)) xid f =
      Inr (Some \<lparr>msg_version = 4, msg_xid = xid, msg_body = EchoRequestBody data\<rparr>)"
    using d by (simp add: ofproto_msg_def of13_parsers_def msg_parser_def of13_msg_parsers_def
        OFPEchoRequest_parser_def MsgBase_parser_def)
  with h show "deliver_all (of13_parsers na others) (dp_deliver S) (f # fs) dp =
      (case dp_deliver S \<lparr>msg_version = 4, msg_xid = xid, msg_body = EchoRequestBody data\<rparr> dp of
         (dp', Inl e) \<Rightarrow> if e = Diverges then None else Some (dp', Inl e)
       | (dp', Inr _) \<Rightarrow> deliver_all (of13_parsers na others) (dp_deliver S) fs dp')"
    by (auto simp: dispatch_frame_def split: prod.splits sum.splits)
qed

lemma deliver_echo:
  assumes "dp_phase dp \<noteq> DEAD_DISPATCHER" and "dp_send_q dp = Some q"
  obtains dp' where
    "dp_deliver S \<lparr>msg_version = 4, msg_xid = xid, msg_body = EchoRequestBody data\<rparr> dp = (dp', Inr ())"
    "dp_send_q dp' = Some (q @ [\<lparr>of_version = dp_version dp, of_xid = xid, of_msg = OutEchoReply data\<rparr>])"
    "dp_core dp' = dp_core dp"
proof -
  let ?d = "dp_deliver S \<lparr>msg_version = 4, msg_xid = xid, msg_body = EchoRequestBody data\<rparr> dp"
  have "snd ?d = Inr () \<and> dp_core (fst ?d) = dp_core dp \<and>
    dp_send_q (fst ?d) = Some (q @ [\<lparr>of_version = dp_version dp, of_xid = xid, of_msg = OutEchoReply data\<rparr>])"
    using assms live_phase [OF assms(1)]
    by (simp add: dp_deliver_def echo_request_handler_def send_msg_def dp_send_def dp_core_def)
  then show ?thesis using that by (metis prod.collapse)
qed

lemma deliver_echoes:
  assumes "list_all2 (\<lambda>(xid, data) f.
      msg_serialize OFPT_ECHO_REQUEST (Some xid) (OFPEchoRequest_body (Some data)) = Inr f) reqs fs"
    and "dp_phase dp \<noteq> DEAD_DISPATCHER" and "dp_send_q dp = Some q"
  shows "\<exists>dp'. deliver_all (of13_parsers na others) (dp_deliver S) fs dp = Some (dp', Inr ()) \<and>
    dp_send_q dp' =
      Some (q @ map (\<lambda>(xid, data). \<lparr>of_version = dp_version dp, of_xid = xid, of_msg = OutEchoReply data\<rparr>) reqs) \<and>
    dp_core dp' = dp_core dp"
  using assms
proof (induction reqs fs arbitrary: dp q rule: list_all2_induct)
  case Nil
  then show ?case by simp
next
  case (Cons r reqs f fs)
  obtain xid data where r: "r = (xid, data)" by fastforce
  with Cons.hyps have f: "msg_serialize OFPT_ECHO_REQUEST (Some xid) (OFPEchoRequest_body (Some data)) = Inr f" by simp
  obtain dp1 where d: "dp_deliver S \<lparr>msg_version = 4, msg_xid = xid, msg_body = EchoRequestBody data\<rparr> dp = (dp1, Inr ())"
    "dp_send_q dp1 = Some (q @ [\<lparr>of_version = dp_version dp, of_xid = xid, of_msg = OutEchoReply data\<rparr>])"
    "dp_core dp1 = dp_core dp"
    using Cons.prems by (rule deliver_echo)
  have "dp_phase dp1 \<noteq> DEAD_DISPATCHER" "dp_version dp1 = dp_version dp"
    using d(3) Cons.prems(1) by (simp_all add: dp_core_def)
  with Cons.IH [of dp1, OF _ d(2)] d echo_frame(2) [OF f, of na others S fs dp] r show ?case by auto
qed

section \<open>Properties\<close>

text \<open>
  C5. Whatever bytes a switch sends, in whatever pieces, with timeouts,
  socket errors and requests to close in between, the connection keeps its invariant, and when
  the receive loop has ended the connection is dead and does not send.
\<close>

theorem bytes_keep_invariant:
  assumes "finite S" and "S \<noteq> {}" and "dp_reach S dp"
    and "recv_loop parsers (dp_deliver S) deactivate rs (rx_init dp) = Some (st, oc)"
  shows "dp_inv S (rx_app st) \<and> (oc \<noteq> Waiting \<longrightarrow> dp_phase (rx_app st) = DEAD_DISPATCHER \<and> \<not> dp_send_active (rx_app st))"
proof -
  have "dp_inv S dp" using dp_inv_reach assms(1-3) by blast
  then have "finite S \<and> S \<noteq> {} \<longrightarrow> dp_inv S (rx_app (rx_init dp))" by (simp add: rx_init_def)
  from dp_rx.recv_loop_inv [OF assms(4) this] assms(1,2) have "dp_inv S (rx_app st)" by simp
  moreover have "dp_phase (rx_app st) = DEAD_DISPATCHER \<and> \<not> dp_send_active (rx_app st)" if "oc \<noteq> Waiting"
    using recv_loop_closed [OF assms(4) that] by (auto simp: deactivate_def)
  ultimately show ?thesis by blast
qed

theorem bytes_keep_invariant_witness:
  "\<exists>st. recv_loop (of13_parsers netaddr_raw (\<lambda>_. None)) (dp_deliver {4}) deactivate [Received [4, 0, 0, 8], RecvError]
      (rx_init (serve_hello (Datapath_init {4} 5))) = Some (st, SocketClosed) \<and> dp_phase (rx_app st) = DEAD_DISPATCHER"
proof -
  let ?r = "recv_loop (of13_parsers netaddr_raw (\<lambda>_. None)) (dp_deliver {4}) deactivate [Received [4, 0, 0, 8], RecvError]
      (rx_init (serve_hello (Datapath_init {4} 5)))"
  obtain st where st: "?r = Some (st, SocketClosed)" by (simp add: rx_init_def process_buf_short)
  have "dp_reach {4} (serve_hello (Datapath_init {4} 5) :: of_port datapath)" by (rule dp_start) simp_all
  from bytes_keep_invariant [OF _ _ this st] st show ?thesis by auto
qed



text \<open>
  C35. An error message of a switch whose data is shorter than a message
  header ends the connection: the handler, which only logs, raises AssertionError in the receive
  loop.
\<close>

theorem short_error_closes:
  assumes "dp_phase dp \<noteq> DEAD_DISPATCHER" and "type \<noteq> OFPET_EXPERIMENTER" and "length data < 8"
    and "msg_serialize OFPT_ERROR xid (OFPErrorMsg_body type code (Some data)) = Inr f"
    and "concat cs = f" and "\<forall>c \<in> set cs. c \<noteq> []"
  shows "\<exists>st. recv_loop (of13_parsers na others) (dp_deliver S) deactivate (map Received cs) (rx_init dp)
      = Some (st, Raised AssertionError) \<and> dp_phase (rx_app st) = DEAD_DISPATCHER"
proof -
  let ?x = "xid_of xid"
  let ?m = "\<lparr>msg_version = 4, msg_xid = ?x, msg_body = ErrorBody (OFPErrorMsg type code data)\<rparr>"
  from msg_serialize_wire [OF assms(4)] obtain buf0 where h: "ofp_header f = Inr [4, OFPT_ERROR, int (length f), ?x]"
    and b: "OFPErrorMsg_body type code (Some data) serialize_pre = Inr buf0" "drop 8 buf0 = drop 8 f" "length buf0 = length f"
    by blast
  define w where "w = packed OFP_ERROR_MSG_PACK_STR [type, code]"
  from b(1) have p: "packable OFP_ERROR_MSG_PACK_STR [type, code]"
    by (auto simp: OFPErrorMsg_body_def msg_pack_into_eq serialize_pre_def rbind_eq_Inr split: if_splits)
  then have "buf0 = zeros 8 @ w @ data"
    using b(1) by (simp add: OFPErrorMsg_body_def msg_pack_into_eq serialize_pre_def pack_at_append w_def)
  with b(2,3) have f: "f = take 8 f @ w @ data" "8 \<le> length f" 
    using append_take_drop_id [of 8 f] by (auto simp: w_def)
  have lw: "length w = 4" by (simp add: w_def fmt_defs)
  have l8: "length (take 8 f) = 8" using f(2) by simp
  have u: "unpack_from OFP_ERROR_MSG_PACK_STR f 8 = Inr [type, code]"
    by (subst f(1)) (use p l8 in \<open>simp add: w_def unpack_from_packed\<close>)
  have ww: "w = packed [fH] [type] @ packed [fH] [code]" by (simp add: w_def fmt_defs)
  have "packable [fH] [type]" using p by (simp add: fmt_defs)
  from unpack_from_packed [OF this, of 8 "take 8 f" "packed [fH] [code] @ data"] l8 ww f(1)
  have t: "unpack_from [fH] f 8 = Inr [type]" by (metis append.assoc)
  have "drop 12 f = data" by (subst f(1)) (use f(2) in \<open>simp add: lw min_def\<close>)
  with t u assms(2) have "OFPErrorMsg_parser OFPT_ERROR f = Inr (OFPErrorMsg type code data)"
    by (simp add: OFPErrorMsg_parser_def MsgBase_parser_def)
  then have m: "ofproto_msg (of13_parsers na others) 4 OFPT_ERROR (int (length f)) ?x f = Inr (Some ?m)"
    by (simp add: ofproto_msg_def of13_parsers_def msg_parser_def of13_msg_parsers_def)
  have "snd (dp_deliver S ?m dp) = Inl AssertionError"
    using assms(1,3) live_phase [OF assms(1)]
    by (simp add: dp_deliver_def error_msg_handler_def ofp_header_def rassert_def)
  with m h have d: "deliver_all (of13_parsers na others) (dp_deliver S) [f] dp
      = Some (fst (dp_deliver S ?m dp), Inl AssertionError)"
    by (cases "dp_deliver S ?m dp") (simp add: dispatch_frame_def)
  have "list_all frame_ok [f]" using h by (simp add: frame_ok_def)
  from recv_loop_pieces [OF this, where buf = "[]" and cs = cs and req = 8 and P = "of13_parsers na others"
      and D = "dp_deliver S" and s = dp and K = deactivate] assms(5,6) d
  show ?thesis by (fastforce simp: pending_def rx_init_at deactivate_def simp del: deliver_all.simps)
qed

theorem short_error_closes_witness:
  "\<exists>st. recv_loop (of13_parsers netaddr_raw (\<lambda>_. None)) (dp_deliver {4}) deactivate
      (map Received [[4, 1, 0, 13, 0, 0, 0, 7, 0, 0, 0, 0, 1]]) (rx_init (Datapath_init {4} 5))
      = Some (st, Raised AssertionError) \<and> dp_phase (rx_app st) = DEAD_DISPATCHER"
proof -
  have s: "msg_serialize OFPT_ERROR (Some 7) (OFPErrorMsg_body 0 0 (Some [1]))
      = Inr [4, 1, 0, 13, 0, 0, 0, 7, 0, 0, 0, 0, 1]"
    by code_simp
  show ?thesis
    by (rule short_error_closes [where type = 0 and code = 0 and data = "[1]" and xid = "Some 7"
          and f = "[4, 1, 0, 13, 0, 0, 0, 7, 0, 0, 0, 0, 1]"])
       (use s in \<open>simp_all add: Datapath_init_def\<close>)
qed

end
