(* ===== verification/App_Manager.thy ===== *)
theory App_Manager
  imports Ofp_Handler
begin

text \<open>
  The application framework: event handlers and their registration from
  \<open>ryu/controller/handler.py\<close>, the applications (bricks) and the application manager of
  \<open>ryu/base/app_manager.py\<close>.

  Dictionaries are association lists, so that iterating over them is iterating over a list; the
  order of the list stands for the arbitrary order of the dictionary. Modules and classes are
  values: importing a module, and what it says about services and required applications, are
  arguments. A handler is known by a number; what it does when it is called is an argument of the
  event loop. The limit of the event queues, which makes a sender wait, is left out.
\<close>

section \<open>Dictionaries\<close>

definition dict_get :: "('k \<times> 'v) list \<Rightarrow> 'k \<Rightarrow> 'v \<Rightarrow> 'v" where
  "dict_get d k v = (case map_of d k of None \<Rightarrow> v | Some x \<Rightarrow> x)"

text \<open>Assignment keeps the place of a key that is there already.\<close>

fun dict_set :: "('k \<times> 'v) list \<Rightarrow> 'k \<Rightarrow> 'v \<Rightarrow> ('k \<times> 'v) list" where
  "dict_set [] k v = [(k, v)]"
| "dict_set ((k', v') # d) k v = (if k' = k then (k, v) # d else (k', v') # dict_set d k v)"

definition dict_del :: "('k \<times> 'v) list \<Rightarrow> 'k \<Rightarrow> ('k \<times> 'v) list" where
  "dict_del d k = filter (\<lambda>(k', _). k' \<noteq> k) d"

definition dict_has :: "('k \<times> 'v) list \<Rightarrow> 'k \<Rightarrow> bool" where
  "dict_has d k = (map_of d k \<noteq> None)"

definition dict_vals :: "('k \<times> 'v) list \<Rightarrow> 'v list" where
  "dict_vals d = map snd d"

text \<open>\<open>str.split\<close> with a separator of one character.\<close>

fun split_on :: "char \<Rightarrow> string \<Rightarrow> string list" where
  "split_on c [] = [[]]"
| "split_on c (x # xs) =
     (if x = c then [] # split_on c xs
      else case split_on c xs of [] \<Rightarrow> [[x]] | w # ws \<Rightarrow> (x # w) # ws)"

section \<open>Events and handlers\<close>

record ev_class =
  ec_module :: string
  ec_name :: string

text \<open>An event, and for a request the applications that answer and that asked.\<close>

record event =
  ev_cls :: ev_class
  ev_payload :: nat
  ev_is_request :: bool
  ev_src :: "string option"
  ev_sync :: bool

record caller =
  c_dispatchers :: "string list"
  c_ev_source :: "string option"

record py_method =
  m_id :: nat
  m_callers :: "(ev_class \<times> caller) list option"

fun listify_dispatchers :: "string list option \<Rightarrow> string list" where
  "listify_dispatchers None = []"
| "listify_dispatchers (Some l) = l"

fun add_callers :: "ev_class list \<Rightarrow> (ev_class \<Rightarrow> caller) \<Rightarrow> (ev_class \<times> caller) list \<Rightarrow> (ev_class \<times> caller) list" where
  "add_callers [] c d = d"
| "add_callers (e # es) c d = add_callers es c (dict_set d e (c e))"

definition set_ev_cls :: "ev_class list \<Rightarrow> string list option \<Rightarrow> py_method \<Rightarrow> py_method" where
  "set_ev_cls es ds m =
     m\<lparr>m_callers := Some (add_callers es
         (\<lambda>e. \<lparr>c_dispatchers = listify_dispatchers ds, c_ev_source = Some (ec_module e)\<rparr>)
         (case m_callers m of None \<Rightarrow> [] | Some d \<Rightarrow> d))\<rparr>"

definition set_ev_handler :: "ev_class list \<Rightarrow> string list option \<Rightarrow> py_method \<Rightarrow> py_method" where
  "set_ev_handler es ds m =
     m\<lparr>m_callers := Some (add_callers es
         (\<lambda>e. \<lparr>c_dispatchers = listify_dispatchers ds, c_ev_source = None\<rparr>)
         (case m_callers m of None \<Rightarrow> [] | Some d \<Rightarrow> d))\<rparr>"

section \<open>Applications\<close>

record app =
  app_name :: string
  event_handlers :: "(ev_class \<times> py_method list) list"
  observers :: "(ev_class \<times> (string \<times> string set) list) list"
  app_events :: "(event option \<times> string option) list"
  is_active :: bool
  app_methods :: "py_method list"
  app_EVENTS :: "ev_class list"

definition RyuApp_init :: "string \<Rightarrow> py_method list \<Rightarrow> ev_class list \<Rightarrow> app" where
  "RyuApp_init name methods EVENTS =
     \<lparr>app_name = name, event_handlers = [], observers = [], app_events = [], is_active = True,
      app_methods = methods, app_EVENTS = EVENTS\<rparr>"

definition register_handler :: "ev_class \<Rightarrow> py_method \<Rightarrow> app \<Rightarrow> app" where
  "register_handler e h app =
     app\<lparr>event_handlers := dict_set (event_handlers app) e (dict_get (event_handlers app) e [] @ [h])\<rparr>"

definition unregister_handler :: "ev_class \<Rightarrow> py_method \<Rightarrow> app \<Rightarrow> app res" where
  "unregister_handler e h app =
     rbind (rget KeyError (map_of (event_handlers app) e)) (\<lambda>hs.
     rbind (if h \<in> set hs then Inr (remove1 h hs) else Inl ValueError) (\<lambda>hs'.
       Inr (app\<lparr>event_handlers :=
         (if hs' = [] then dict_del (event_handlers app) e else dict_set (event_handlers app) e hs')\<rparr>)))"

definition register_observer :: "ev_class \<Rightarrow> string \<Rightarrow> string set \<Rightarrow> app \<Rightarrow> app" where
  "register_observer e name states app =
     (let ev_cls_observers = dict_get (observers app) e [] in
      app\<lparr>observers := dict_set (observers app) e
            (dict_set ev_cls_observers name (dict_get ev_cls_observers name {} \<union> states))\<rparr>)"

text \<open>Removing an observer of an event nobody observes pops from a fresh dictionary and fails.\<close>

definition unregister_observer :: "ev_class \<Rightarrow> string \<Rightarrow> app \<Rightarrow> app res" where
  "unregister_observer e name app =
     (let obs = dict_get (observers app) e [] in
      if dict_has obs name then Inr (app\<lparr>observers := dict_set (observers app) e (dict_del obs name)\<rparr>)
      else Inl KeyError)"

definition unregister_observer_all_event :: "string \<Rightarrow> app \<Rightarrow> app" where
  "unregister_observer_all_event name app =
     app\<lparr>observers := map (\<lambda>(e, obs). (e, dict_del obs name)) (observers app)\<rparr>"

definition truthy :: "string option \<Rightarrow> bool" where
  "truthy state = (case state of None \<Rightarrow> False | Some s \<Rightarrow> s \<noteq> [])"

definition handler_test :: "ev_class \<Rightarrow> string \<Rightarrow> py_method \<Rightarrow> bool" where
  "handler_test e state h =
     (case m_callers h of
        None \<Rightarrow> True
      | Some cs \<Rightarrow>
          (case map_of cs e of
             None \<Rightarrow> True
           | Some c \<Rightarrow> c_dispatchers c = [] \<or> state \<in> set (c_dispatchers c)))"

definition get_handlers :: "event \<Rightarrow> string option \<Rightarrow> app \<Rightarrow> py_method list" where
  "get_handlers ev state app =
     (let handlers = dict_get (event_handlers app) (ev_cls ev) [] in
      case state of None \<Rightarrow> handlers | Some s \<Rightarrow> filter (handler_test (ev_cls ev) s) handlers)"

definition get_observers :: "event \<Rightarrow> string option \<Rightarrow> app \<Rightarrow> string list" where
  "get_observers ev state app =
     map fst (filter (\<lambda>(k, v). \<not> truthy state \<or> v = {} \<or> the state \<in> v)
                (dict_get (observers app) (ev_cls ev) []))"

text \<open>
  The event loop on the entries of its queue, where \<open>None\<close> is the event that \<open>stop\<close> puts there. What
  a handler does, with its exception if it raises one, is the argument \<open>call\<close>; an exception ends
  the loop.
\<close>

fun call_handlers ::
  "(py_method \<Rightarrow> event \<Rightarrow> 's \<Rightarrow> 's \<times> unit res) \<Rightarrow> py_method list \<Rightarrow> event \<Rightarrow> 's \<Rightarrow> 's \<times> unit res" where
  "call_handlers call [] ev s = (s, Inr ())"
| "call_handlers call (h # hs) ev s =
     (case call h ev s of (s1, Inl e) \<Rightarrow> (s1, Inl e) | (s1, Inr _) \<Rightarrow> call_handlers call hs ev s1)"

fun event_loop ::
  "(py_method \<Rightarrow> event \<Rightarrow> 's \<Rightarrow> 's \<times> unit res) \<Rightarrow> app \<Rightarrow> (event option \<times> string option) list \<Rightarrow> 's
   \<Rightarrow> 's \<times> unit res" where
  "event_loop call app [] s = (s, Inr ())"
| "event_loop call app ((None, state) # q) s = event_loop call app q s"
| "event_loop call app ((Some ev, state) # q) s =
     (case call_handlers call (get_handlers ev state app) ev s of
        (s1, Inl e) \<Rightarrow> (s1, Inl e)
      | (s1, Inr _) \<Rightarrow> event_loop call app q s1)"

definition app_stop :: "app \<Rightarrow> app" where
  "app_stop app = app\<lparr>is_active := False, app_events := app_events app @ [(None, None)]\<rparr>"

section \<open>The bricks\<close>

type_synonym bricks = "(string \<times> app) list"

definition lookup_service_brick :: "bricks \<Rightarrow> string \<Rightarrow> app option" where
  "lookup_service_brick SERVICE_BRICKS name = map_of SERVICE_BRICKS name"

definition brick_of_mod_name :: "string \<Rightarrow> string" where
  "brick_of_mod_name mod_name = last (split_on (CHR ''.'') mod_name)"

definition update_brick :: "string \<Rightarrow> (app \<Rightarrow> app) \<Rightarrow> bricks \<Rightarrow> bricks" where
  "update_brick name f b = map (\<lambda>(k, a). (k, if k = name then f a else a)) b"

definition register_instance :: "app \<Rightarrow> app" where
  "register_instance i =
     fold (\<lambda>m i. case m_callers m of None \<Rightarrow> i | Some cs \<Rightarrow> fold (\<lambda>(e, c). register_handler e m) cs i)
       (app_methods i) i"

definition register_app :: "app \<Rightarrow> bricks \<Rightarrow> bricks res" where
  "register_app app b =
     rbind (rassert (\<not> dict_has b (app_name app))) (\<lambda>_.
       Inr (dict_set b (app_name app) (register_instance app)))"

definition unregister_app :: "string \<Rightarrow> bricks \<Rightarrow> bricks res" where
  "unregister_app name b = (if dict_has b name then Inr (dict_del b name) else Inl KeyError)"

definition observe_event :: "string \<Rightarrow> ev_class \<Rightarrow> string set \<Rightarrow> bricks \<Rightarrow> bricks" where
  "observe_event name e states b = update_brick (brick_of_mod_name (ec_module e)) (register_observer e name states) b"

definition unobserve_event :: "string \<Rightarrow> ev_class \<Rightarrow> bricks \<Rightarrow> bricks res" where
  "unobserve_event name e b =
     (case lookup_service_brick b (brick_of_mod_name (ec_module e)) of
        None \<Rightarrow> Inr b
      | Some brick \<Rightarrow>
          rbind (unregister_observer e name brick) (\<lambda>brick'.
            Inr (update_brick (brick_of_mod_name (ec_module e)) (\<lambda>_. brick') b)))"

definition send_event_q :: "event \<Rightarrow> string option \<Rightarrow> app \<Rightarrow> app" where
  "send_event_q ev state app = app\<lparr>app_events := app_events app @ [(Some ev, state)]\<rparr>"

text \<open>\<open>sender\<close> is the name of the application that sends.\<close>

definition send_event :: "string \<Rightarrow> string \<Rightarrow> event \<Rightarrow> string option \<Rightarrow> bricks \<Rightarrow> bricks" where
  "send_event sender name ev state b =
     (if dict_has b name then
        (let ev' = (if ev_is_request ev then ev\<lparr>ev_src := Some sender\<rparr> else ev) in
         update_brick name (send_event_q ev' state) b)
      else b)"

definition send_to_observers :: "string \<Rightarrow> event \<Rightarrow> string option \<Rightarrow> bricks \<Rightarrow> bricks" where
  "send_to_observers sender ev state b =
     (case lookup_service_brick b sender of
        None \<Rightarrow> b
      | Some app \<Rightarrow> fold (\<lambda>observer. send_event sender observer ev state) (get_observers ev state app) b)"

definition send_request :: "string \<Rightarrow> string \<Rightarrow> event \<Rightarrow> bricks \<Rightarrow> bricks res" where
  "send_request sender dst req b =
     rbind (rassert (ev_is_request req)) (\<lambda>_. Inr (send_event sender dst (req\<lparr>ev_sync := True\<rparr>) None b))"

text \<open>A synchronous reply goes to the waiting sender, the second component; another one is an event.\<close>

definition reply_to_request :: "string \<Rightarrow> event \<Rightarrow> event \<Rightarrow> bricks \<Rightarrow> (bricks \<times> event option) res" where
  "reply_to_request sender req rep b =
     rbind (rassert (ev_is_request req)) (\<lambda>_.
       if ev_sync req then Inr (b, Some rep)
       else Inr (case ev_src req of None \<Rightarrow> b | Some dst \<Rightarrow> send_event sender dst rep None b, None))"

section \<open>The application manager\<close>

text \<open>One entry of the inner loop of \<open>_update_bricks\<close>: a handler of application \<open>name\<close>.\<close>

definition update_bricks_entry :: "string \<Rightarrow> ev_class \<times> caller \<Rightarrow> bricks \<Rightarrow> bricks" where
  "update_bricks_entry name ec b =
     (case ec of (e, c) \<Rightarrow>
        (case c_ev_source c of
           None \<Rightarrow> b
         | Some src \<Rightarrow>
             if src = [] then b
             else map (\<lambda>(k, a). (k, if e \<in> set (app_EVENTS a) then register_observer e name (set (c_dispatchers c)) a else a))
                    (update_brick (brick_of_mod_name src) (register_observer e name (set (c_dispatchers c))) b)))"

definition app_callers :: "app \<Rightarrow> (ev_class \<times> caller) list" where
  "app_callers app = concat (map (\<lambda>m. case m_callers m of None \<Rightarrow> [] | Some cs \<Rightarrow> cs) (app_methods app))"

definition update_bricks :: "bricks \<Rightarrow> bricks" where
  "update_bricks b = fold (\<lambda>(_, i). fold (update_bricks_entry (app_name i)) (app_callers i)) b b"

record manager =
  bricks :: bricks
  applications :: "string list"
  supported_versions :: "int set"

text \<open>
  An application class as the manager instantiates it: the versions it supports, and its
  constructor, which may raise.
\<close>

record app_ctor =
  ctor_OFP_VERSIONS :: "int list option"
  ctor_new :: "app res"

definition instantiate_cls :: "string option \<Rightarrow> app_ctor \<Rightarrow> manager \<Rightarrow> manager res" where
  "instantiate_cls name cls mgr =
     rbind (case ctor_OFP_VERSIONS cls of
              None \<Rightarrow> Inr (supported_versions mgr)
            | Some vs \<Rightarrow> set_app_supported_versions (supported_versions mgr) (set vs)) (\<lambda>sv.
     rbind (case name of None \<Rightarrow> Inr () | Some n \<Rightarrow> rassert (n \<notin> set (applications mgr))) (\<lambda>_.
     rbind (ctor_new cls) (\<lambda>app.
     rbind (register_app app (bricks mgr)) (\<lambda>b.
     rbind (rassert (app_name app \<notin> set (applications mgr))) (\<lambda>_.
       Inr \<lparr>bricks = b, applications = applications mgr @ [app_name app], supported_versions = sv\<rparr>)))))"

definition manager_update_bricks :: "manager \<Rightarrow> manager" where
  "manager_update_bricks mgr = mgr\<lparr>bricks := update_bricks (bricks mgr)\<rparr>"

definition instantiate :: "app_ctor \<Rightarrow> manager \<Rightarrow> manager res" where
  "instantiate cls mgr = rbind (instantiate_cls None cls mgr) (\<lambda>mgr1. Inr (manager_update_bricks mgr1))"

fun instantiate_all :: "(string \<times> app_ctor) list \<Rightarrow> manager \<Rightarrow> manager res" where
  "instantiate_all [] mgr = Inr mgr"
| "instantiate_all ((n, c) # cs) mgr = rbind (instantiate_cls (Some n) c mgr) (instantiate_all cs)"

definition instantiate_apps :: "(string \<times> app_ctor) list \<Rightarrow> manager \<Rightarrow> manager res" where
  "instantiate_apps applications_cls mgr =
     rbind (instantiate_all applications_cls mgr) (\<lambda>mgr1. Inr (manager_update_bricks mgr1))"

text \<open>
  The second component is the stopped application, whose event loop still runs on what its queue
  holds.
\<close>

definition uninstantiate :: "string \<Rightarrow> manager \<Rightarrow> (manager \<times> app) res" where
  "uninstantiate name mgr =
     (if name \<notin> set (applications mgr) then Inl KeyError
      else rbind (rget KeyError (lookup_service_brick (bricks mgr) name)) (\<lambda>app.
           rbind (unregister_app name (bricks mgr)) (\<lambda>b.
             Inr (mgr\<lparr>bricks := map (\<lambda>(k, a). (k, unregister_observer_all_event name a)) b,
                      applications := remove1 name (applications mgr)\<rparr>, app_stop app))))"

fun uninstantiate_all :: "string list \<Rightarrow> manager \<Rightarrow> manager res" where
  "uninstantiate_all [] mgr = Inr mgr"
| "uninstantiate_all (n # ns) mgr = rbind (uninstantiate n mgr) (\<lambda>(mgr1, _). uninstantiate_all ns mgr1)"

definition manager_close :: "manager \<Rightarrow> manager res" where
  "manager_close mgr =
     rbind (uninstantiate_all (applications mgr) mgr) (\<lambda>mgr1.
     rbind (rassert (applications mgr1 = [])) (\<lambda>_. Inr mgr1))"

section \<open>Loading applications\<close>

record py_class =
  pc_name :: string
  pc_module :: string
  pc_is_app :: bool
  pc_methods :: "py_method list"

record app_class = py_class +
  ac_contexts :: "(string \<times> py_class) list"

text \<open>
  \<open>service_name\<close> is the attribute \<open>_SERVICE_NAME\<close> and \<open>required_app\<close> the attribute
  \<open>_REQUIRED_APP\<close> of a module.
\<close>

definition get_dependent_services ::
  "(string \<Rightarrow> string option) \<Rightarrow> (string \<Rightarrow> string list) \<Rightarrow> 'x py_class_scheme \<Rightarrow> string list" where
  "get_dependent_services service_name required_app cls =
     remdups
       (concat (map (\<lambda>(e, c). case service_name (ec_module e) of
                                None \<Rightarrow> []
                              | Some service \<Rightarrow>
                                  if service \<noteq> [] \<and> pc_module cls \<noteq> service then [service] else [])
                  (concat (map (\<lambda>m. case m_callers m of None \<Rightarrow> [] | Some cs \<Rightarrow> cs) (pc_methods cls))))
        @ required_app (pc_module cls))"

fun load_contexts ::
  "(string \<Rightarrow> string option) \<Rightarrow> (string \<Rightarrow> string list) \<Rightarrow> (string \<times> py_class) list
   \<Rightarrow> (string \<times> py_class) list \<Rightarrow> string list \<Rightarrow> string list
   \<Rightarrow> ((string \<times> py_class) list \<times> string list \<times> string list) res" where
  "load_contexts service_name required_app [] contexts_cls context_modules services =
     Inr (contexts_cls, context_modules, services)"
| "load_contexts service_name required_app ((key, context_cls) # cs) contexts_cls context_modules services =
     (let v = dict_get contexts_cls key context_cls;
          contexts_cls1 = (if dict_has contexts_cls key then contexts_cls else dict_set contexts_cls key context_cls)
      in rbind (rassert (v = context_cls)) (\<lambda>_.
           load_contexts service_name required_app cs contexts_cls1
             (context_modules @ [pc_module context_cls])
             (if pc_is_app context_cls
              then services @ get_dependent_services service_name required_app context_cls
              else services)))"

record loaded =
  ld_contexts_cls :: "(string \<times> py_class) list"
  ld_applications_cls :: "(string \<times> app_class) list"

text \<open>One round of the loop of \<open>load_apps\<close>: what it stores and the services it adds to the list.\<close>

definition load_one ::
  "(string \<Rightarrow> app_class option res) \<Rightarrow> (string \<Rightarrow> string option) \<Rightarrow> (string \<Rightarrow> string list)
   \<Rightarrow> string \<Rightarrow> string list \<Rightarrow> loaded \<Rightarrow> (loaded \<times> string list) res" where
  "load_one load_app service_name required_app name app_lists ld =
     (let context_modules = map pc_module (dict_vals (ld_contexts_cls ld)) in
      if name \<in> set context_modules then Inr (ld, app_lists)
      else rbind (load_app name) (\<lambda>c.
        case c of
          None \<Rightarrow> Inr (ld, app_lists)
        | Some cls \<Rightarrow>
            rbind (load_contexts service_name required_app (ac_contexts cls) (ld_contexts_cls ld) context_modules [])
              (\<lambda>(contexts_cls, context_modules', services).
                let services' = services @ filter (\<lambda>i. i \<notin> set context_modules')
                                             (get_dependent_services service_name required_app cls)
                in Inr (\<lparr>ld_contexts_cls = contexts_cls,
                         ld_applications_cls = dict_set (ld_applications_cls ld) name cls\<rparr>,
                        app_lists @ filter (\<lambda>s. s \<notin> set app_lists) (remdups services')))))"

partial_function (option) load_loop ::
  "(string \<Rightarrow> app_class option res) \<Rightarrow> (string \<Rightarrow> string option) \<Rightarrow> (string \<Rightarrow> string list)
   \<Rightarrow> string list \<Rightarrow> loaded \<Rightarrow> loaded res option" where
  "load_loop load_app service_name required_app app_lists ld =
     (case app_lists of
        [] \<Rightarrow> Some (Inr ld)
      | name # rest \<Rightarrow>
          (case load_one load_app service_name required_app name rest ld of
             Inl e \<Rightarrow> Some (Inl e)
           | Inr (ld', app_lists') \<Rightarrow> load_loop load_app service_name required_app app_lists' ld'))"

definition load_apps ::
  "(string \<Rightarrow> app_class option res) \<Rightarrow> (string \<Rightarrow> string option) \<Rightarrow> (string \<Rightarrow> string list)
   \<Rightarrow> string list \<Rightarrow> loaded \<Rightarrow> loaded res option" where
  "load_apps load_app service_name required_app app_lists ld =
     load_loop load_app service_name required_app (concat (map (split_on (CHR '','')) app_lists)) ld"

end
