(* ===== verification/App_Routing.thy ===== *)
theory App_Routing
  imports App_Manager
begin

text \<open>
  The application manager: the invariant of every reachable manager, which application gets
  which event, and what remains when applications are taken away.
\<close>

section \<open>Vocabulary\<close>

definition obs_ok :: "string set \<Rightarrow> (ev_class \<times> (string \<times> string set) list) list \<Rightarrow> bool" where
  "obs_ok names os \<longleftrightarrow> distinct (map fst os) \<and>
     (\<forall>(e, obs) \<in> set os. distinct (map fst obs) \<and> fst ` set obs \<subseteq> names)"

text \<open>
  The names of the bricks are distinct and those of their applications, the manager knows exactly
  these applications, and every observer of an event is one of them.
\<close>

definition mgr_ok :: "manager \<Rightarrow> bool" where
  "mgr_ok mgr \<longleftrightarrow>
     distinct (map fst (bricks mgr)) \<and> distinct (applications mgr) \<and>
     set (applications mgr) = fst ` set (bricks mgr) \<and>
     (\<forall>(k, a) \<in> set (bricks mgr). app_name a = k \<and> is_active a \<and> obs_ok (fst ` set (bricks mgr)) (observers a))"

text \<open>Reachable managers; \<open>observe_event\<close> is called by an application that is instantiated.\<close>

definition fresh_app :: "app_ctor \<Rightarrow> bool" where
  "fresh_app cls \<longleftrightarrow> (case ctor_new cls of Inl _ \<Rightarrow> True | Inr a \<Rightarrow> a = RyuApp_init (app_name a) (app_methods a) (app_EVENTS a))"

inductive mgr_reach :: "manager \<Rightarrow> bool" where
  mr_empty: "mgr_reach \<lparr>bricks = [], applications = [], supported_versions = set OFP_VERSIONS\<rparr>"
| mr_instantiate_cls: "mgr_reach mgr \<Longrightarrow> fresh_app cls \<Longrightarrow> instantiate_cls n cls mgr = Inr mgr' \<Longrightarrow> mgr_reach mgr'"
| mr_update: "mgr_reach mgr \<Longrightarrow> mgr_reach (manager_update_bricks mgr)"
| mr_uninstantiate: "mgr_reach mgr \<Longrightarrow> uninstantiate n mgr = Inr (mgr', a) \<Longrightarrow> mgr_reach mgr'"
| mr_observe: "mgr_reach mgr \<Longrightarrow> n \<in> set (applications mgr) \<Longrightarrow>
    mgr_reach (mgr\<lparr>bricks := observe_event n e states (bricks mgr)\<rparr>)"
| mr_unobserve: "mgr_reach mgr \<Longrightarrow> unobserve_event n e (bricks mgr) = Inr b \<Longrightarrow> mgr_reach (mgr\<lparr>bricks := b\<rparr>)"
| mr_send: "mgr_reach mgr \<Longrightarrow> mgr_reach (mgr\<lparr>bricks := send_event sender n ev state (bricks mgr)\<rparr>)"
| mr_send_observers: "mgr_reach mgr \<Longrightarrow> mgr_reach (mgr\<lparr>bricks := send_to_observers n ev state (bricks mgr)\<rparr>)"

text \<open>What the invariant needs of the bricks alone.\<close>

definition bricks_ok :: "bricks \<Rightarrow> bool" where
  "bricks_ok b \<longleftrightarrow> distinct (map fst b) \<and>
     (\<forall>(k, a) \<in> set b. app_name a = k \<and> is_active a \<and> obs_ok (fst ` set b) (observers a))"

text \<open>The applications that want an event of a class in a state, by the table of the brick that sends it.\<close>

definition wants :: "app \<Rightarrow> ev_class \<Rightarrow> string option \<Rightarrow> string \<Rightarrow> bool" where
  "wants a e state name \<longleftrightarrow>
     (\<exists>states. map_of (dict_get (observers a) e []) name = Some states \<and>
        (state = None \<or> state = Some [] \<or> states = {} \<or> the state \<in> states))"

definition stamp :: "string \<Rightarrow> event \<Rightarrow> event" where
  "stamp sender ev = (if ev_is_request ev then ev\<lparr>ev_src := Some sender\<rparr> else ev)"

definition sample_event :: ev_class where
  "sample_event = \<lparr>ec_module = ''ryu.B'', ec_name = ''E''\<rparr>"

definition sample_ev :: event where
  "sample_ev = \<lparr>ev_cls = sample_event, ev_payload = 5, ev_is_request = False, ev_src = None, ev_sync = False\<rparr>"

definition sample_handler :: py_method where
  "sample_handler = set_ev_cls [sample_event] (Some [''main'']) \<lparr>m_id = 1, m_callers = None\<rparr>"

definition sample_ctors :: "(string \<times> app_ctor) list" where
  "sample_ctors =
     [(''b'', \<lparr>ctor_OFP_VERSIONS = None, ctor_new = Inr (RyuApp_init ''B'' [] [])\<rparr>),
      (''a'', \<lparr>ctor_OFP_VERSIONS = Some [4], ctor_new = Inr (RyuApp_init ''A'' [sample_handler] [])\<rparr>)]"

definition sample_mgr :: manager where
  "sample_mgr =
     \<lparr>bricks = [(''B'', register_observer sample_event ''A'' {''main''} (RyuApp_init ''B'' [] [])),
                (''A'', register_instance (RyuApp_init ''A'' [sample_handler] []))],
      applications = [''B'', ''A''], supported_versions = {4}\<rparr>"

section \<open>Dictionaries\<close>

lemma map_of_dict_set [simp]: "map_of (dict_set d k v) = (map_of d)(k \<mapsto> v)"
  by (induction d k v rule: dict_set.induct) (auto simp: fun_upd_twist)

lemma dom_dict_set [simp]: "fst ` set (dict_set d k v) = insert k (fst ` set d)"
  by (induction d k v rule: dict_set.induct) auto

lemma distinct_dict_set [simp]: "distinct (map fst (dict_set d k v)) = distinct (map fst d)"
proof (induction d k v rule: dict_set.induct)
  case (2 k' v' d k v)
  then show ?case using dom_dict_set [of d k v] by (auto simp: set_map [symmetric] simp del: set_map)
qed simp

lemma set_dict_set: "x \<in> set (dict_set d k v) \<Longrightarrow> x = (k, v) \<or> x \<in> set d"
  by (induction d k v rule: dict_set.induct) (auto split: if_splits)

lemma map_of_dict_del [simp]: "map_of (dict_del d k) = (map_of d)(k := None)"
  by (induction d) (auto simp: dict_del_def)

lemma distinct_dict_del: "distinct (map fst d) \<Longrightarrow> distinct (map fst (dict_del d k))"
  by (simp add: dict_del_def distinct_map_filter)

lemma dict_has_iff: "dict_has d k \<longleftrightarrow> k \<in> fst ` set d"
  by (simp add: dict_has_def map_of_eq_None_iff)

lemma update_brick_keys [simp]: "map fst (update_brick n f b) = map fst b"
  by (auto simp: update_brick_def)

lemma lookup_update_brick:
  "map_of (update_brick n f b) k = (if k = n then map_option f (map_of b k) else map_of b k)"
  by (induction b) (auto simp: update_brick_def)

lemma map_of_map_apps: "map_of (map (\<lambda>(k, a). (k, f k a)) b) n = map_option (f n) (map_of b n)"
  by (induction b) auto

section \<open>Well-formed applications and managers\<close>

lemma mgr_ok_bricks:
  "mgr_ok mgr \<longleftrightarrow> bricks_ok (bricks mgr) \<and> distinct (applications mgr) \<and>
     set (applications mgr) = fst ` set (bricks mgr)"
  by (auto simp: mgr_ok_def bricks_ok_def)

lemma keys_set: "map fst b = map fst c \<Longrightarrow> fst ` set b = fst ` set c"
  by (metis list.set_map)

lemma map_apps_keys [simp]: "map fst (map (\<lambda>(k, a). (k, g k a)) b) = map fst b"
  by (induction b) auto

lemma bricks_ok_map:
  assumes "bricks_ok b"
    and g: "\<And>k a. (k, a) \<in> set b \<Longrightarrow> app_name (g k a) = app_name a \<and> is_active (g k a) = is_active a \<and>
      (obs_ok (fst ` set b) (observers a) \<longrightarrow> obs_ok (fst ` set b) (observers (g k a)))"
  shows "bricks_ok (map (\<lambda>(k, a). (k, g k a)) b)"
proof -
  have n: "fst ` set (map (\<lambda>(k, a). (k, g k a)) b) = fst ` set b" by (rule keys_set) (rule map_apps_keys)
  have "app_name (g k a) = k \<and> is_active (g k a) \<and> obs_ok (fst ` set b) (observers (g k a))"
    if "(k, a) \<in> set b" for k a
    using that assms(1) g [OF that] by (auto simp: bricks_ok_def)
  then have "\<forall>(k, a) \<in> set (map (\<lambda>(k, a). (k, g k a)) b). app_name a = k \<and> is_active a \<and> obs_ok (fst ` set b) (observers a)"
    by fastforce
  moreover have "distinct (map fst b)" using assms(1) by (simp add: bricks_ok_def)
  ultimately show ?thesis unfolding bricks_ok_def n map_apps_keys by blast
qed

lemma bricks_ok_update:
  assumes "bricks_ok b"
    and "\<And>a. app_name (f a) = app_name a" "\<And>a. is_active (f a) = is_active a"
    and "\<And>a. obs_ok (fst ` set b) (observers a) \<Longrightarrow> obs_ok (fst ` set b) (observers (f a))"
  shows "bricks_ok (update_brick n f b)"
  unfolding update_brick_def by (rule bricks_ok_map [OF assms(1)]) (use assms(2-) in simp)

lemma obs_ok_get:
  assumes "obs_ok names os"
  shows "distinct (map fst (dict_get os e []))" and "fst ` set (dict_get os e []) \<subseteq> names"
proof -
  have "distinct (map fst (dict_get os e [])) \<and> fst ` set (dict_get os e []) \<subseteq> names"
  proof (cases "map_of os e")
    case (Some obs)
    then have "(e, obs) \<in> set os" by (rule map_of_SomeD)
    with assms Some show ?thesis unfolding obs_ok_def dict_get_def by fastforce
  qed (simp add: dict_get_def)
  then show "distinct (map fst (dict_get os e []))" and "fst ` set (dict_get os e []) \<subseteq> names" by simp_all
qed

lemma obs_ok_set:
  assumes "obs_ok names os" and "distinct (map fst obs)" and "fst ` set obs \<subseteq> names"
  shows "obs_ok names (dict_set os e obs)"
  unfolding obs_ok_def
proof (intro conjI ballI)
  show "distinct (map fst (dict_set os e obs))" using assms(1) by (simp add: obs_ok_def)
  fix x
  assume "x \<in> set (dict_set os e obs)"
  then have "x = (e, obs) \<or> x \<in> set os" by (rule set_dict_set)
  then show "case x of (e, obs) \<Rightarrow> distinct (map fst obs) \<and> fst ` set obs \<subseteq> names"
  proof
    assume "x = (e, obs)"
    with assms(2,3) show ?thesis by simp
  next
    assume "x \<in> set os"
    with assms(1) show ?thesis unfolding obs_ok_def by blast
  qed
qed

lemma obs_ok_register:
  assumes "obs_ok names (observers a)" and "n \<in> names"
  shows "obs_ok names (observers (register_observer e n states a))"
  using obs_ok_set [OF assms(1)] obs_ok_get [OF assms(1), of e] assms(2)
  by (simp add: register_observer_def Let_def)

lemma register_observer_fields [simp]:
  "app_name (register_observer e n states a) = app_name a"
  "is_active (register_observer e n states a) = is_active a"
  "event_handlers (register_observer e n states a) = event_handlers a"
  "app_events (register_observer e n states a) = app_events a"
  "app_methods (register_observer e n states a) = app_methods a"
  "app_EVENTS (register_observer e n states a) = app_EVENTS a"
  by (simp_all add: register_observer_def Let_def)

lemma bricks_ok_register:
  "bricks_ok b \<Longrightarrow> n \<in> fst ` set b \<Longrightarrow> bricks_ok (update_brick k (register_observer e n states) b)"
  by (rule bricks_ok_update) (simp_all add: obs_ok_register)

lemma bricks_ok_register_events:
  "bricks_ok b \<Longrightarrow> n \<in> fst ` set b \<Longrightarrow>
     bricks_ok (map (\<lambda>(k, a). (k, if e \<in> set (app_EVENTS a) then register_observer e n states a else a)) b)"
  by (rule bricks_ok_map) (simp_all add: obs_ok_register)

lemma update_bricks_entry_keys [simp]: "map fst (update_bricks_entry n ec b) = map fst b"
  unfolding update_bricks_entry_def 
  by (cases ec) (simp add: map_apps_keys [unfolded map_map] del: map_map split: option.split)

lemma bricks_ok_entry:
  assumes "bricks_ok b" and "n \<in> fst ` set b"
  shows "bricks_ok (update_bricks_entry n ec b)"
proof -
  have "bricks_ok (map (\<lambda>(k, a). (k, if e \<in> set (app_EVENTS a) then register_observer e n st a else a))
      (update_brick k (register_observer e n st) b))" for e st k
    using bricks_ok_register [OF assms] assms(2) keys_set [OF update_brick_keys]
    by (intro bricks_ok_register_events) auto
  with assms(1) show ?thesis unfolding update_bricks_entry_def by (cases ec) (simp split: option.split)
qed

lemma bricks_ok_entries:
  "bricks_ok b \<Longrightarrow> n \<in> fst ` set b \<Longrightarrow>
     bricks_ok (fold (update_bricks_entry n) ecs b) \<and> map fst (fold (update_bricks_entry n) ecs b) = map fst b"
proof (induction ecs arbitrary: b)
  case (Cons ec ecs)
  have "n \<in> fst ` set (update_bricks_entry n ec b)"
    using Cons.prems(2) keys_set [OF update_bricks_entry_keys] by blast
  with Cons.IH [of "update_bricks_entry n ec b"] Cons.prems bricks_ok_entry [of b n ec] show ?case by simp
qed simp

lemma bricks_ok_update_bricks_aux:
  "bricks_ok b \<Longrightarrow> app_name ` snd ` set ixs \<subseteq> fst ` set b \<Longrightarrow>
     bricks_ok (fold (\<lambda>(_, i). fold (update_bricks_entry (app_name i)) (app_callers i)) ixs b) \<and>
     map fst (fold (\<lambda>(_, i). fold (update_bricks_entry (app_name i)) (app_callers i)) ixs b) = map fst b"
proof (induction ixs arbitrary: b)
  case (Cons x xs)
  let ?b = "(\<lambda>(_, i). fold (update_bricks_entry (app_name i)) (app_callers i)) x b"
  have 1: "bricks_ok ?b \<and> map fst ?b = map fst b"
    using bricks_ok_entries [OF Cons.prems(1)] Cons.prems(2) by (cases x) auto
  then have "app_name ` snd ` set xs \<subseteq> fst ` set ?b" using Cons.prems(2) keys_set [of ?b b] by auto
  with Cons.IH [of ?b] 1 show ?case by simp
qed simp

lemma bricks_ok_update_bricks:
  assumes "bricks_ok b"
  shows "bricks_ok (update_bricks b)" and "map fst (update_bricks b) = map fst b"
proof -
  have "app_name ` snd ` set b \<subseteq> fst ` set b" using assms by (force simp: bricks_ok_def)
  from bricks_ok_update_bricks_aux [OF assms this]
  show "bricks_ok (update_bricks b)" and "map fst (update_bricks b) = map fst b"
    by (simp_all add: update_bricks_def)
qed

section \<open>The invariant of the manager\<close>

lemma fold_fields:
  assumes "\<And>x a. x \<in> set xs \<Longrightarrow> f (g x a) = f a"
  shows "f (fold g xs a) = f a"
proof -
  have "set ys \<subseteq> set xs \<Longrightarrow> f (fold g ys a) = f a" for ys
  proof (induction ys arbitrary: a)
    case Nil
    show ?case by simp
  next
    case (Cons y ys)
    then have "f (fold g ys (g y a)) = f (g y a)" "y \<in> set xs" by simp_all
    with assms [of y a] show ?case by simp
  qed
  then show ?thesis by simp
qed

lemma register_handler_fields [simp]:
  "app_name (register_handler e h a) = app_name a"
  "observers (register_handler e h a) = observers a"
  "app_events (register_handler e h a) = app_events a"
  "is_active (register_handler e h a) = is_active a"
  "app_methods (register_handler e h a) = app_methods a"
  "app_EVENTS (register_handler e h a) = app_EVENTS a"
  by (simp_all add: register_handler_def)

lemma register_instance_keeps:
  assumes "\<And>e h a. f (register_handler e h a) = f a"
  shows "f (register_instance a) = f a"
  unfolding register_instance_def
proof (rule fold_fields)
  fix m i
  show "f (case m_callers m of None \<Rightarrow> i | Some cs \<Rightarrow> fold (\<lambda>(e, c). register_handler e m) cs i) = f i"
    using fold_fields [where f = f and g = "\<lambda>(e, c). register_handler e m"] assms
    by (auto split: option.split)
qed

lemma register_instance_fields [simp]:
  "app_name (register_instance a) = app_name a"
  "observers (register_instance a) = observers a"
  "app_events (register_instance a) = app_events a"
  "is_active (register_instance a) = is_active a"
  "app_methods (register_instance a) = app_methods a"
  "app_EVENTS (register_instance a) = app_EVENTS a"
  by (simp_all add: register_instance_keeps [where f = app_name] register_instance_keeps [where f = observers]
      register_instance_keeps [where f = app_events] register_instance_keeps [where f = is_active]
      register_instance_keeps [where f = app_methods] register_instance_keeps [where f = app_EVENTS])

lemma obs_ok_mono: "obs_ok names os \<Longrightarrow> names \<subseteq> names' \<Longrightarrow> obs_ok names' os"
  by (fastforce simp: obs_ok_def)

lemma instantiate_cls_InrE:
  assumes "instantiate_cls n cls mgr = Inr mgr'"
  obtains a where "ctor_new cls = Inr a" and "app_name a \<notin> fst ` set (bricks mgr)"
    and "app_name a \<notin> set (applications mgr)"
    and "bricks mgr' = dict_set (bricks mgr) (app_name a) (register_instance a)"
    and "applications mgr' = applications mgr @ [app_name a]"
  using assms
  by (auto simp: instantiate_cls_def register_app_def rbind_eq_Inr rassert_def dict_has_iff split: if_splits)

lemma mgr_okD:
  assumes "mgr_ok mgr" and "(k, x) \<in> set (bricks mgr)"
  shows "app_name x = k" and "is_active x" and "obs_ok (fst ` set (bricks mgr)) (observers x)"
proof -
  have "case (k, x) of (k, a) \<Rightarrow> app_name a = k \<and> is_active a \<and> obs_ok (fst ` set (bricks mgr)) (observers a)"
    using assms unfolding mgr_ok_def by blast
  then show "app_name x = k" and "is_active x" and "obs_ok (fst ` set (bricks mgr)) (observers x)" by simp_all
qed

lemma mgr_ok_instantiate_cls:
  assumes ok: "mgr_ok mgr" and fr: "fresh_app cls" and i: "instantiate_cls n cls mgr = Inr mgr'"
  shows "mgr_ok mgr'"
proof -
  obtain a where a: "ctor_new cls = Inr a" "app_name a \<notin> fst ` set (bricks mgr)"
    "app_name a \<notin> set (applications mgr)"
    "bricks mgr' = dict_set (bricks mgr) (app_name a) (register_instance a)"
    "applications mgr' = applications mgr @ [app_name a]"
    using i by (rule instantiate_cls_InrE)
  have ra: "a = RyuApp_init (app_name a) (app_methods a) (app_EVENTS a)"
    using fr unfolding fresh_app_def a(1) sum.case .
  have f: "observers a = []" "is_active a" by (subst ra, simp add: RyuApp_init_def)+
  let ?b = "bricks mgr'"
  have n: "fst ` set ?b = insert (app_name a) (fst ` set (bricks mgr))" by (simp add: a(4))
  have "app_name x = k \<and> is_active x \<and> obs_ok (fst ` set ?b) (observers x)" if kx: "(k, x) \<in> set ?b" for k x
  proof -
    have "(k, x) = (app_name a, register_instance a) \<or> (k, x) \<in> set (bricks mgr)"
      using kx unfolding a(4) by (rule set_dict_set)
    then show ?thesis
    proof
      assume "(k, x) \<in> set (bricks mgr)"
      then have o: "app_name x = k" "is_active x" "obs_ok (fst ` set (bricks mgr)) (observers x)"
        by (rule mgr_okD [OF ok])+
      have "obs_ok (fst ` set ?b) (observers x)" using o(3) by (rule obs_ok_mono) (simp only: n subset_insertI)
      with o show ?thesis by simp
    next
      assume "(k, x) = (app_name a, register_instance a)"
      with f show ?thesis by (simp add: obs_ok_def)
    qed
  qed
  then have "\<forall>(k, x) \<in> set ?b. app_name x = k \<and> is_active x \<and> obs_ok (fst ` set ?b) (observers x)" by blast
  moreover have "distinct (map fst ?b)" "distinct (applications mgr')" "set (applications mgr') = fst ` set ?b"
    unfolding n using ok a(3) by (simp_all add: mgr_ok_def a(4,5))
  ultimately show ?thesis unfolding mgr_ok_def by blast
qed

lemma mgr_ok_bricks_upd:
  assumes "mgr_ok mgr" and "bricks_ok b" and "map fst b = map fst (bricks mgr)"
  shows "mgr_ok (mgr\<lparr>bricks := b\<rparr>)"
  using assms keys_set [OF assms(3)] by (simp add: mgr_ok_bricks)

lemma obs_ok_del:
  assumes "obs_ok names (observers a)"
  shows "obs_ok (names - {n}) (observers (unregister_observer_all_event n a))"
proof -
  have "distinct (map fst (map (\<lambda>(e, obs). (e, dict_del obs n)) (observers a)))"
    using assms unfolding obs_ok_def map_apps_keys [where g = "\<lambda>_ obs. dict_del obs n"] by blast
  moreover have "distinct (map fst (dict_del obs n)) \<and> fst ` set (dict_del obs n) \<subseteq> names - {n}"
    if "(e, obs) \<in> set (observers a)" for e obs
  proof -
    from that assms have "distinct (map fst obs)" "fst ` set obs \<subseteq> names" unfolding obs_ok_def by blast+
    then show ?thesis by (auto simp: distinct_dict_del) (auto simp: dict_del_def)
  qed
  ultimately show ?thesis unfolding obs_ok_def unregister_observer_all_event_def by fastforce
qed

lemma dict_del_keys: "fst ` set (dict_del d k) = fst ` set d - {k}"
  by (auto simp: dict_del_def)

lemma unregister_all_fields [simp]:
  "app_name (unregister_observer_all_event n a) = app_name a"
  "is_active (unregister_observer_all_event n a) = is_active a"
  by (simp_all add: unregister_observer_all_event_def)

lemma uninstantiate_InrE:
  assumes "uninstantiate n mgr = Inr (mgr', a)"
  obtains x where "n \<in> set (applications mgr)" and "map_of (bricks mgr) n = Some x" and "a = app_stop x"
    and "bricks mgr' = map (\<lambda>(k, a). (k, unregister_observer_all_event n a)) (dict_del (bricks mgr) n)"
    and "applications mgr' = remove1 n (applications mgr)"
  using assms
  by (auto simp: uninstantiate_def rbind_eq_Inr rget_def lookup_service_brick_def unregister_app_def
      split: if_splits option.splits)

lemma mgr_ok_uninstantiate:
  assumes ok: "mgr_ok mgr" and u: "uninstantiate n mgr = Inr (mgr', a)"
  shows "mgr_ok mgr'"
proof -
  obtain x where "n \<in> set (applications mgr)" "map_of (bricks mgr) n = Some x" "a = app_stop x"
    and b: "bricks mgr' = map (\<lambda>(k, a). (k, unregister_observer_all_event n a)) (dict_del (bricks mgr) n)"
    and as: "applications mgr' = remove1 n (applications mgr)"
    using u by (rule uninstantiate_InrE)
  let ?b = "bricks mgr'"
  have k: "map fst ?b = map fst (dict_del (bricks mgr) n)" unfolding b by (rule map_apps_keys)
  have n: "fst ` set ?b = fst ` set (bricks mgr) - {n}" unfolding keys_set [OF k] by (rule dict_del_keys)
  have d: "distinct (map fst ?b)" unfolding k using ok by (simp add: mgr_ok_def distinct_dict_del)
  have "app_name y = k \<and> is_active y \<and> obs_ok (fst ` set ?b) (observers y)" if ky: "(k, y) \<in> set ?b" for k y
  proof -
    obtain z where z: "(k, z) \<in> set (bricks mgr)" "y = unregister_observer_all_event n z"
      using ky unfolding b by (auto simp: dict_del_def)
    have "app_name z = k" "is_active z" "obs_ok (fst ` set (bricks mgr)) (observers z)"
      by (rule mgr_okD [OF ok z(1)])+
    with z(2) show ?thesis unfolding n using obs_ok_del by simp
  qed
  then have "\<forall>(k, y) \<in> set ?b. app_name y = k \<and> is_active y \<and> obs_ok (fst ` set ?b) (observers y)" by blast
  moreover have "distinct (applications mgr')" "set (applications mgr') = fst ` set ?b"
    unfolding n as using ok by (simp_all add: mgr_ok_def)
  ultimately show ?thesis using d unfolding mgr_ok_def by blast
qed

lemma send_event_q_fields [simp]:
  "app_name (send_event_q ev st a) = app_name a"
  "is_active (send_event_q ev st a) = is_active a"
  "observers (send_event_q ev st a) = observers a"
  "event_handlers (send_event_q ev st a) = event_handlers a"
  by (simp_all add: send_event_q_def)

lemma bricks_ok_send_event:
  "bricks_ok b \<Longrightarrow> bricks_ok (send_event sender n ev st b)"
  by (simp add: send_event_def Let_def bricks_ok_update)

lemma send_event_keys [simp]: "map fst (send_event sender n ev st b) = map fst b"
  by (simp add: send_event_def Let_def)

lemma send_events_ok:
  "bricks_ok b \<Longrightarrow> bricks_ok (fold (\<lambda>ob. send_event sender ob ev st) os b) \<and>
     map fst (fold (\<lambda>ob. send_event sender ob ev st) os b) = map fst b"
proof (induction os arbitrary: b)
  case (Cons n os)
  then show ?case using bricks_ok_send_event [OF Cons.prems, of sender n ev st]
    by (simp only: fold_Cons comp_apply send_event_keys)
qed simp

lemma unregister_observer_ok:
  assumes "unregister_observer e n a = Inr a'"
  shows "app_name a' = app_name a" and "is_active a' = is_active a"
    and "obs_ok names (observers a) \<Longrightarrow> obs_ok names (observers a')"
proof -
  let ?o = "dict_get (observers a) e []"
  from assms have a': "a' = a\<lparr>observers := dict_set (observers a) e (dict_del ?o n)\<rparr>"
    by (auto simp: unregister_observer_def Let_def split: if_splits)
  then show "app_name a' = app_name a" and "is_active a' = is_active a" by simp_all
  assume ok: "obs_ok names (observers a)"
  note o = obs_ok_get [OF ok, of e]
  have "distinct (map fst (dict_del ?o n))" "fst ` set (dict_del ?o n) \<subseteq> names"
    using o dict_del_keys [of ?o n] by (auto simp: distinct_dict_del)
  then show "obs_ok names (observers a')" using obs_ok_set [OF ok] by (simp add: a')
qed

lemma mgr_ok_unobserve:
  assumes ok: "mgr_ok mgr" and u: "unobserve_event n e (bricks mgr) = Inr b"
  shows "mgr_ok (mgr\<lparr>bricks := b\<rparr>)"
proof (cases "map_of (bricks mgr) (brick_of_mod_name (ec_module e))")
  case None
  with u ok show ?thesis by (auto simp: unobserve_event_def lookup_service_brick_def)
next
  case (Some a)
  let ?k = "brick_of_mod_name (ec_module e)"
  from u Some obtain a' where a': "unregister_observer e n a = Inr a'" "b = update_brick ?k (\<lambda>_. a') (bricks mgr)"
    by (auto simp: unobserve_event_def lookup_service_brick_def rbind_eq_Inr)
  have bo: "bricks_ok (bricks mgr)" using ok by (simp add: mgr_ok_bricks)
  have "bricks_ok b" unfolding a'(2) update_brick_def
  proof (rule bricks_ok_map [OF bo])
    fix k x
    assume "(k, x) \<in> set (bricks mgr)"
    with Some bo have "k = ?k \<Longrightarrow> x = a"
      by (metis bricks_ok_def map_of_is_SomeI option.inject)
    then show "app_name (if k = ?k then a' else x) = app_name x \<and>
       is_active (if k = ?k then a' else x) = is_active x \<and>
       (obs_ok (fst ` set (bricks mgr)) (observers x) \<longrightarrow>
        obs_ok (fst ` set (bricks mgr)) (observers (if k = ?k then a' else x)))"
      using unregister_observer_ok [OF a'(1)] by auto
  qed
  with ok a'(2) show ?thesis by (simp add: mgr_ok_bricks_upd)
qed

lemma send_to_observers_ok:
  assumes "bricks_ok b"
  shows "bricks_ok (send_to_observers n ev st b)" and "map fst (send_to_observers n ev st b) = map fst b"
  using send_events_ok [OF assms, of n ev st] assms by (simp_all add: send_to_observers_def split: option.split)

lemma mgr_reach_ok_aux: "mgr_reach mgr \<Longrightarrow> mgr_ok mgr"
proof (induction rule: mgr_reach.induct)
  case mr_empty
  show ?case by (simp add: mgr_ok_def)
next
  case (mr_instantiate_cls mgr cls n mgr')
  show ?case by (rule mgr_ok_instantiate_cls [OF mr_instantiate_cls.IH mr_instantiate_cls.hyps(2,3)])
next
  case (mr_update mgr)
  from mr_update.IH have "bricks_ok (bricks mgr)" unfolding mgr_ok_bricks by (rule conjunct1)
  from bricks_ok_update_bricks [OF this] show ?case
    unfolding manager_update_bricks_def by (rule mgr_ok_bricks_upd [OF mr_update.IH])
next
  case (mr_uninstantiate mgr n mgr' a)
  show ?case by (rule mgr_ok_uninstantiate [OF mr_uninstantiate.IH mr_uninstantiate.hyps(2)])
next
  case (mr_observe mgr n e states)
  from mr_observe.IH have b: "bricks_ok (bricks mgr)" "set (applications mgr) = fst ` set (bricks mgr)"
    unfolding mgr_ok_bricks by blast+
  have "n \<in> fst ` set (bricks mgr)" using mr_observe.hyps(2) unfolding b(2) .
  from bricks_ok_register [OF b(1) this] show ?case
    unfolding observe_event_def by (rule mgr_ok_bricks_upd [OF mr_observe.IH]) (rule update_brick_keys)
next
  case (mr_unobserve mgr n e b)
  show ?case by (rule mgr_ok_unobserve [OF mr_unobserve.IH mr_unobserve.hyps(2)])
next
  case (mr_send mgr sender n ev state)
  from mr_send.IH have "bricks_ok (bricks mgr)" unfolding mgr_ok_bricks by (rule conjunct1)
  from bricks_ok_send_event [OF this] show ?case
    by (rule mgr_ok_bricks_upd [OF mr_send.IH]) (rule send_event_keys)
next
  case (mr_send_observers mgr n ev state)
  from mr_send_observers.IH have "bricks_ok (bricks mgr)" unfolding mgr_ok_bricks by (rule conjunct1)
  from send_to_observers_ok [OF this] show ?case by (rule mgr_ok_bricks_upd [OF mr_send_observers.IH])
qed

section \<open>Routing\<close>

lemma get_observers_distinct:
  assumes "distinct (map fst (dict_get (observers a) (ev_cls ev) []))"
  shows "distinct (get_observers ev state a)"
  using assms unfolding get_observers_def by (rule distinct_map_filter)

lemma get_observers_wants:
  assumes "distinct (map fst (dict_get (observers a) (ev_cls ev) []))"
  shows "name \<in> set (get_observers ev state a) \<longleftrightarrow> wants a (ev_cls ev) state name"
proof -
  let ?o = "dict_get (observers a) (ev_cls ev) []"
  have "map_of ?o name = Some v \<longleftrightarrow> (name, v) \<in> set ?o" for v
    using assms by (simp add: map_of_eq_Some_iff)
  moreover have "\<not> truthy state \<longleftrightarrow> state = None \<or> state = Some []"
    by (auto simp: truthy_def split: option.split)
  ultimately show ?thesis by (force simp: get_observers_def wants_def)
qed

lemma map_of_send_event:
  "map_of (send_event sender n ev state b) k =
     map_option (\<lambda>a. if k = n then send_event_q (stamp sender ev) state a else a) (map_of b k)"
  by (cases "map_of b k") (auto simp: send_event_def stamp_def Let_def lookup_update_brick dict_has_def)

lemma map_of_send_events:
  assumes "distinct os"
  shows "map_of (fold (\<lambda>ob. send_event sender ob ev state) os b) k =
     map_option (\<lambda>a. if k \<in> set os then send_event_q (stamp sender ev) state a else a) (map_of b k)"
  using assms
proof (induction os arbitrary: b)
  case Nil
  show ?case by (cases "map_of b k") simp_all
next
  case (Cons n os)
  then show ?case by (cases "map_of b k") (auto simp: map_of_send_event)
qed

lemma brick_obs_ok:
  assumes "mgr_ok mgr" and "map_of (bricks mgr) n = Some a"
  shows "obs_ok (fst ` set (bricks mgr)) (observers a)"
  using mgr_okD(3) [OF assms(1) map_of_SomeD [OF assms(2)]] .

section \<open>Taking applications away\<close>

lemma dict_get_unregister:
  "dict_get (observers (unregister_observer_all_event n a)) e [] = dict_del (dict_get (observers a) e []) n"
proof -
  have "map_of (map (\<lambda>(e, obs). (e, dict_del obs n)) (observers a)) e
      = map_option (\<lambda>obs. dict_del obs n) (map_of (observers a) e)"
    by (rule map_of_map_apps)
  then show ?thesis
    by (cases "map_of (observers a) e") (simp_all add: unregister_observer_all_event_def dict_get_def dict_del_def)
qed

lemma wants_unregister:
  "wants (unregister_observer_all_event n a) e state k = (k \<noteq> n \<and> wants a e state k)"
  by (simp add: wants_def dict_get_unregister)

lemma uninstantiate_total:
  assumes "mgr_ok mgr" and "n \<in> set (applications mgr)"
  shows "\<exists>mgr' a. uninstantiate n mgr = Inr (mgr', a)"
proof -
  have "n \<in> fst ` set (bricks mgr)" using assms unfolding mgr_ok_bricks by blast
  then obtain x where "map_of (bricks mgr) n = Some x" by (metis map_of_eq_None_iff not_None_eq)
  with assms(2) show ?thesis
    by (simp add: uninstantiate_def lookup_service_brick_def unregister_app_def dict_has_def rget_def)
qed

lemma uninstantiate_all_total:
  assumes "mgr_ok mgr" and "applications mgr = ns"
  shows "\<exists>mgr'. uninstantiate_all ns mgr = Inr mgr' \<and> applications mgr' = [] \<and> mgr_ok mgr'"
  using assms
proof (induction ns arbitrary: mgr)
  case Nil
  then show ?case by simp
next
  case (Cons n ns)
  obtain mgr1 a where u: "uninstantiate n mgr = Inr (mgr1, a)"
    using uninstantiate_total [OF Cons.prems(1), of n] Cons.prems(2) by auto
  have ok: "mgr_ok mgr1" by (rule mgr_ok_uninstantiate [OF Cons.prems(1) u])
  have "applications mgr1 = ns" using u Cons.prems(2) by (auto elim!: uninstantiate_InrE)
  from Cons.IH [OF ok this] u show ?case by simp
qed

theorem manager_close_ends:
  assumes "mgr_reach mgr"
  shows "\<exists>mgr'. manager_close mgr = Inr mgr' \<and> bricks mgr' = [] \<and> applications mgr' = []"
proof -
  obtain mgr' where u: "uninstantiate_all (applications mgr) mgr = Inr mgr'" "applications mgr' = []" "mgr_ok mgr'"
    using uninstantiate_all_total [OF mgr_reach_ok_aux [OF assms] refl] by blast
  then have "fst ` set (bricks mgr') = {}" unfolding mgr_ok_bricks by simp
  then have "bricks mgr' = []" by simp
  with u show ?thesis by (simp add: manager_close_def)
qed

section \<open>Registering for all states\<close>

lemma mgr_reach_instantiate_all:
  assumes "mgr_reach mgr" and "list_all (\<lambda>(n, c). fresh_app c) cs" and "instantiate_all cs mgr = Inr mgr'"
  shows "mgr_reach mgr'"
  using assms
proof (induction cs arbitrary: mgr)
  case Nil
  then show ?case by simp
next
  case (Cons nc cs)
  obtain n c where nc: "nc = (n, c)" by fastforce
  from Cons.prems(3) nc obtain mgr1 where m: "instantiate_cls (Some n) c mgr = Inr mgr1" "instantiate_all cs mgr1 = Inr mgr'"
    by (auto simp: rbind_eq_Inr)
  have f: "fresh_app c" "list_all (\<lambda>(n, c). fresh_app c) cs" using Cons.prems(2) nc by simp_all
  show ?case by (rule Cons.IH [OF mr_instantiate_cls [OF Cons.prems(1) f(1) m(1)] f(2) m(2)])
qed

lemma mgr_reach_instantiate_apps:
  assumes "mgr_reach mgr" and "list_all (\<lambda>(n, c). fresh_app c) cs" and "instantiate_apps cs mgr = Inr mgr'"
  shows "mgr_reach mgr'"
proof -
  from assms(3) obtain mgr1 where "instantiate_all cs mgr = Inr mgr1" "mgr' = manager_update_bricks mgr1"
    by (auto simp: instantiate_apps_def rbind_eq_Inr)
  with mr_update [OF mgr_reach_instantiate_all [OF assms(1,2)]] show ?thesis by simp
qed

section \<open>A sample manager\<close>

lemma sample_brick_name: "brick_of_mod_name ''ryu.B'' = ''B''"
  by code_simp

lemma sample_instantiated:
  "instantiate_apps sample_ctors \<lparr>bricks = [], applications = [], supported_versions = set OFP_VERSIONS\<rparr> = Inr sample_mgr"
proof -
  have u: "update_bricks [(''B'', register_instance (RyuApp_init ''B'' [] [])), (''A'', register_instance (RyuApp_init ''A'' [sample_handler] []))]
      = bricks sample_mgr"
    by (simp add: update_bricks_def app_callers_def update_bricks_entry_def update_brick_def sample_handler_def
        set_ev_cls_def sample_event_def sample_mgr_def RyuApp_init_def register_instance_def register_handler_def
        register_observer_def dict_get_def sample_brick_name)
  show ?thesis
    using u
    by (simp add: instantiate_apps_def sample_ctors_def instantiate_cls_def register_app_def rassert_def dict_has_def
        set_app_supported_versions_def OFP_VERSIONS_def manager_update_bricks_def sample_mgr_def)
       (simp add: RyuApp_init_def)
qed

lemma sample_reach: "mgr_reach sample_mgr"
proof (rule mgr_reach_instantiate_apps [OF mr_empty _ sample_instantiated])
  show "list_all (\<lambda>(n, c). fresh_app c) sample_ctors"
    by (simp add: sample_ctors_def fresh_app_def RyuApp_init_def)
qed

lemma sample_wants: "wants (register_observer sample_event ''A'' {''main''} (RyuApp_init ''B'' [] [])) sample_event (Some ''main'') ''A''"
  by (simp add: wants_def register_observer_def RyuApp_init_def dict_get_def)

theorem manager_close_ends_witness: "\<exists>mgr'. manager_close sample_mgr = Inr mgr' \<and> bricks mgr' = []"
  using manager_close_ends [OF sample_reach] by blast

section \<open>Properties\<close>



text \<open>
  C12. An event sent to the observers of a brick is put at the end of the queue
  of exactly the applications that registered for its class and for the given state or for all
  states, once each, with a request stamped by the sender; all other applications are untouched,
  and every such observer exists.
\<close>

theorem events_routed:
  assumes "mgr_reach mgr" and "map_of (bricks mgr) sender = Some app"
  shows "map_of (send_to_observers sender ev state (bricks mgr)) name =
      map_option (\<lambda>a. if wants app (ev_cls ev) state name then send_event_q (stamp sender ev) state a else a)
        (map_of (bricks mgr) name) \<and>
    (wants app (ev_cls ev) state name \<longrightarrow> map_of (bricks mgr) name \<noteq> None)"
proof (intro conjI impI)
  have o: "obs_ok (fst ` set (bricks mgr)) (observers app)"
    by (rule brick_obs_ok [OF mgr_reach_ok_aux [OF assms(1)] assms(2)])
  note g = obs_ok_get [OF o, of "ev_cls ev"]
  show "map_of (send_to_observers sender ev state (bricks mgr)) name =
      map_option (\<lambda>a. if wants app (ev_cls ev) state name then send_event_q (stamp sender ev) state a else a)
        (map_of (bricks mgr) name)"
    using assms(2) map_of_send_events [OF get_observers_distinct [OF g(1)]] get_observers_wants [OF g(1)]
    by (simp add: send_to_observers_def lookup_service_brick_def)
  assume "wants app (ev_cls ev) state name"
  then obtain v where "map_of (dict_get (observers app) (ev_cls ev) []) name = Some v" by (auto simp: wants_def)
  then have "name \<in> fst ` set (dict_get (observers app) (ev_cls ev) [])" by (force dest: map_of_SomeD)
  then show "map_of (bricks mgr) name \<noteq> None" using g(2) by (auto simp: map_of_eq_None_iff)
qed

theorem events_routed_witness:
  "\<exists>a. map_of (send_to_observers ''B'' sample_ev (Some ''main'') (bricks sample_mgr)) ''A'' = Some a \<and>
     app_events a = [(Some sample_ev, Some ''main'')]"
proof -
  have b: "map_of (bricks sample_mgr) ''B'' = Some (register_observer sample_event ''A'' {''main''} (RyuApp_init ''B'' [] []))"
    by (simp add: sample_mgr_def)
  have a: "map_of (bricks sample_mgr) ''A'' = Some (register_instance (RyuApp_init ''A'' [sample_handler] []))"
    by (simp add: sample_mgr_def)
  from events_routed [OF sample_reach b, of sample_ev "Some ''main''" "''A''"] a sample_wants
  show ?thesis
    by (simp add: sample_ev_def send_event_q_def stamp_def) (simp add: RyuApp_init_def)
qed



text \<open>
  C37. Registering an observer for all states (no states given)
  has no effect when it is registered for the event already: an observer of specific states is
  not widened to all states.
\<close>

theorem register_all_states_ignored:
  assumes "map_of (dict_get (observers a) e []) name = Some states"
  shows "wants (register_observer e name {} a) = wants a"
  using assms by (auto simp: wants_def register_observer_def Let_def dict_get_def fun_eq_iff split: option.splits)

theorem register_all_states_ignored_witness:
  "\<not> wants (register_observer sample_event ''A'' {} (register_observer sample_event ''A'' {''main''} (RyuApp_init ''B'' [] [])))
      sample_event (Some ''config'') ''A''"
proof -
  let ?a = "register_observer sample_event ''A'' {''main''} (RyuApp_init ''B'' [] [])"
  have "map_of (dict_get (observers ?a) sample_event []) ''A'' = Some {''main''}"
    by (simp add: register_observer_def RyuApp_init_def dict_get_def)
  from register_all_states_ignored [OF this] this show ?thesis by (simp add: wants_def)
qed

end
