(* ===== verification/App_Loading.thy ===== *)
theory App_Loading
  imports App_Routing "HOL-Library.Multiset"
begin

text \<open>
  Loading applications: the loop over the list of names ends, with everything that was asked
  for, when the applications do not ask for each other in a circle, and does not end when they
  do.
\<close>

section \<open>Vocabulary\<close>

text \<open>
  The modules of a dictionary of contexts, the services the contexts that are applications ask for,
  and those a class asks for itself or through its contexts.
\<close>

definition ctx_modules :: "(string \<times> py_class) list \<Rightarrow> string set" where
  "ctx_modules cs = pc_module ` snd ` set cs"

definition ctx_services ::
  "(string \<Rightarrow> string option) \<Rightarrow> (string \<Rightarrow> string list) \<Rightarrow> (string \<times> py_class) list \<Rightarrow> string set" where
  "ctx_services sn ra cs =
     (\<Union>(_, c) \<in> set cs. if pc_is_app c then set (get_dependent_services sn ra c) else {})"

definition asked_services ::
  "(string \<Rightarrow> string option) \<Rightarrow> (string \<Rightarrow> string list) \<Rightarrow> app_class \<Rightarrow> string set" where
  "asked_services sn ra cls = set (get_dependent_services sn ra cls) \<union> ctx_services sn ra (ac_contexts cls)"

text \<open>Where a name that was asked for may be found in the end.\<close>

definition settled :: "(string \<Rightarrow> app_class option res) \<Rightarrow> loaded \<Rightarrow> string \<Rightarrow> bool" where
  "settled load_app ld s \<longleftrightarrow>
     dict_has (ld_applications_cls ld) s \<or> s \<in> ctx_modules (ld_contexts_cls ld) \<or> load_app s = Inr None"

text \<open>What the loop keeps: whatever was asked for is there, or still on the list.\<close>

definition load_inv ::
  "(string \<Rightarrow> app_class option res) \<Rightarrow> (string \<Rightarrow> string option) \<Rightarrow> (string \<Rightarrow> string list)
   \<Rightarrow> string set \<Rightarrow> string list \<Rightarrow> loaded \<Rightarrow> bool" where
  "load_inv load_app sn ra names todo ld \<longleftrightarrow>
     (\<forall>s \<in> names. settled load_app ld s \<or> s \<in> set todo) \<and>
     (\<forall>n cls s. (n, cls) \<in> set (ld_applications_cls ld) \<longrightarrow> s \<in> asked_services sn ra cls \<longrightarrow>
        settled load_app ld s \<or> s \<in> set todo)"

text \<open>The names on the list, by their rank in the order in which applications ask for each other.\<close>

definition ranked ::
  "(string \<Rightarrow> app_class option res) \<Rightarrow> (string \<Rightarrow> string option) \<Rightarrow> (string \<Rightarrow> string list)
   \<Rightarrow> (string \<Rightarrow> nat) \<Rightarrow> bool" where
  "ranked load_app sn ra rank \<longleftrightarrow>
     (\<forall>name cls s. load_app name = Inr (Some cls) \<longrightarrow> s \<in> asked_services sn ra cls \<longrightarrow> rank s < rank name)"

definition asks_only :: "(string \<Rightarrow> app_class option res) \<Rightarrow> (string \<Rightarrow> string option) \<Rightarrow> (string \<Rightarrow> string list)
   \<Rightarrow> string \<Rightarrow> string \<Rightarrow> bool" where
  "asks_only load_app sn ra a b \<longleftrightarrow>
     (case load_app a of
        Inr (Some cls) \<Rightarrow> ac_contexts cls = [] \<and> get_dependent_services sn ra cls = [b]
      | _ \<Rightarrow> False)"

definition sample_class :: "string \<Rightarrow> string \<Rightarrow> app_class" where
  "sample_class n m = \<lparr>pc_name = n, pc_module = m, pc_is_app = True, pc_methods = [], ac_contexts = []\<rparr>"

definition sample_load :: "string \<Rightarrow> app_class option res" where
  "sample_load n = (if n = ''a'' \<or> n = ''b'' then Inr (Some (sample_class n n)) else Inl OtherException)"

section \<open>Loading applications\<close>

lemma dict_set_new: "\<not> dict_has d k \<Longrightarrow> dict_set d k v = d @ [(k, v)]"
  by (induction d k v rule: dict_set.induct) (auto simp: dict_has_def split: if_splits)

lemma ctx_entry:
  assumes "dict_get cc key c = c"
  shows "(key, c) \<in> set (if dict_has cc key then cc else dict_set cc key c)"
    and "set cc \<subseteq> set (if dict_has cc key then cc else dict_set cc key c)"
  using assms by (auto simp: dict_set_new) (auto simp: dict_has_def dict_get_def dest: map_of_SomeD)

lemma ctx_Cons [simp]:
  "ctx_services sn ra ((k, c) # cs) =
     (if pc_is_app c then set (get_dependent_services sn ra c) else {}) \<union> ctx_services sn ra cs"
  "ctx_modules ((k, c) # cs) = insert (pc_module c) (ctx_modules cs)"
  by (simp_all add: ctx_services_def ctx_modules_def)

lemma ctx_modulesI: "(k, c) \<in> set cs \<Longrightarrow> pc_module c \<in> ctx_modules cs"
  by (force simp: ctx_modules_def)

lemma ctx_modules_mono: "set cs \<subseteq> set ds \<Longrightarrow> ctx_modules cs \<subseteq> ctx_modules ds"
  by (auto simp: ctx_modules_def)

lemma load_contexts_Cons:
  assumes "load_contexts sn ra ((key, c) # cs) cc cm sv = Inr r"
  shows "load_contexts sn ra cs (if dict_has cc key then cc else dict_set cc key c) (cm @ [pc_module c])
      (if pc_is_app c then sv @ get_dependent_services sn ra c else sv) = Inr r"
    and "dict_get cc key c = c"
proof -
  show v: "dict_get cc key c = c"
    using assms unfolding load_contexts.simps Let_def rassert_def by (cases "dict_get cc key c = c") simp_all
  show "load_contexts sn ra cs (if dict_has cc key then cc else dict_set cc key c) (cm @ [pc_module c])
      (if pc_is_app c then sv @ get_dependent_services sn ra c else sv) = Inr r"
    using assms unfolding load_contexts.simps Let_def v rassert_def by (simp only: simp_thms if_True rbind_simps)
qed

lemma load_contexts_keeps:
  assumes "load_contexts sn ra cs cc cm sv = Inr (cc', cm', sv')"
  shows "set cc \<subseteq> set cc' \<and> set cm' = set cm \<union> ctx_modules cs \<and> ctx_modules cs \<subseteq> ctx_modules cc'"
  using assms
proof (induction cs arbitrary: cc cm sv)
  case Nil
  then show ?case by (simp add: ctx_modules_def)
next
  case (Cons kc cs)
  obtain key c where kc: "kc = (key, c)" by fastforce
  note l = load_contexts_Cons [OF Cons.prems [unfolded kc]]
  note ih = Cons.IH [OF l(1)]
  note c = ctx_entry [OF l(2)]
  have 1: "set cc \<subseteq> set cc'" by (rule subset_trans [OF c(2) conjunct1 [OF ih]])
  have "(key, c) \<in> set cc'" by (rule subsetD [OF conjunct1 [OF ih] c(1)])
  then have 2: "pc_module c \<in> ctx_modules cc'" by (rule ctx_modulesI)
  show ?case unfolding kc ctx_Cons using 1 2 conjunct2 [OF ih] by simp
qed

lemma load_contexts_services:
  assumes "load_contexts sn ra cs cc cm sv = Inr (cc', cm', sv')"
  shows "set sv' = set sv \<union> ctx_services sn ra cs"
  using assms
proof (induction cs arbitrary: cc cm sv)
  case Nil
  then show ?case by (simp add: ctx_services_def)
next
  case (Cons kc cs)
  obtain key c where kc: "kc = (key, c)" by fastforce
  note ih = Cons.IH [OF load_contexts_Cons(1) [OF Cons.prems [unfolded kc]]]
  show ?case unfolding kc ctx_Cons ih by (simp add: Un_assoc)
qed

text \<open>One round: the names that are added are asked for, and the class is recorded.\<close>

lemma load_one_cases:
  assumes "load_one load_app sn ra name rest ld = Inr (ld', todo)"
  obtains
    (skip) "ld' = ld" "todo = rest"
      "name \<in> ctx_modules (ld_contexts_cls ld) \<or> load_app name = Inr None"
  | (load) cls cm sv where "load_app name = Inr (Some cls)"
      "load_contexts sn ra (ac_contexts cls) (ld_contexts_cls ld) (map pc_module (dict_vals (ld_contexts_cls ld))) []
        = Inr (ld_contexts_cls ld', cm, sv)"
      "ld_applications_cls ld' = dict_set (ld_applications_cls ld) name cls"
      "set todo = set rest \<union> set sv \<union> {i \<in> set (get_dependent_services sn ra cls). i \<notin> set cm}"
      "\<exists>new. todo = rest @ new \<and> set new \<subseteq> set sv \<union> set (get_dependent_services sn ra cls)"
proof (cases "name \<in> set (map pc_module (dict_vals (ld_contexts_cls ld)))")
  case True
  then have "name \<in> ctx_modules (ld_contexts_cls ld)" by (simp add: ctx_modules_def dict_vals_def image_image)
  with True assms show ?thesis by (intro skip) (simp_all add: load_one_def Let_def)
next
  case False
  with assms obtain c where c: "load_app name = Inr c"
    by (auto simp: load_one_def Let_def rbind_eq_Inr)
  show ?thesis
  proof (cases c)
    case None
    with False assms c show ?thesis by (intro skip) (simp_all add: load_one_def Let_def)
  next
    case (Some cls)
    from False assms c Some obtain cc cm sv where
      l: "load_contexts sn ra (ac_contexts cls) (ld_contexts_cls ld) (map pc_module (dict_vals (ld_contexts_cls ld))) []
        = Inr (cc, cm, sv)"
      and ld': "ld' = \<lparr>ld_contexts_cls = cc, ld_applications_cls = dict_set (ld_applications_cls ld) name cls\<rparr>"
      and t: "todo = rest @ filter (\<lambda>s. s \<notin> set rest)
        (remdups (sv @ filter (\<lambda>i. i \<notin> set cm) (get_dependent_services sn ra cls)))"
      unfolding load_one_def Let_def by (auto simp: rbind_eq_Inr simp del: set_map)
    show ?thesis
    proof (rule load)
      show "load_app name = Inr (Some cls)" using c Some by simp
      show "load_contexts sn ra (ac_contexts cls) (ld_contexts_cls ld) (map pc_module (dict_vals (ld_contexts_cls ld))) []
        = Inr (ld_contexts_cls ld', cm, sv)" using l ld' by simp
      show "ld_applications_cls ld' = dict_set (ld_applications_cls ld) name cls" using ld' by simp
      show "set todo = set rest \<union> set sv \<union> {i \<in> set (get_dependent_services sn ra cls). i \<notin> set cm}"
        unfolding t by auto
      show "\<exists>new. todo = rest @ new \<and> set new \<subseteq> set sv \<union> set (get_dependent_services sn ra cls)"
        unfolding t by (rule exI, rule conjI, rule refl) auto
    qed
  qed
qed

lemma settled_mono:
  assumes "settled load_app ld s" and "set (ld_contexts_cls ld) \<subseteq> set (ld_contexts_cls ld')"
    and "ld_applications_cls ld' = dict_set (ld_applications_cls ld) name cls"
  shows "settled load_app ld' s"
proof -
  have "dict_has (ld_applications_cls ld') s" if "dict_has (ld_applications_cls ld) s"
    using that by (simp add: assms(3) dict_has_iff)
  with assms(1) ctx_modules_mono [OF assms(2)] show ?thesis unfolding settled_def by blast
qed

lemma load_inv_step:
  assumes inv: "load_inv load_app sn ra names (name # rest) ld"
    and one: "load_one load_app sn ra name rest ld = Inr (ld', todo)"
  shows "load_inv load_app sn ra names todo ld'"
  using one
proof (cases rule: load_one_cases)
  case skip
  then have "settled load_app ld name" by (auto simp: settled_def)
  with inv skip(1,2) show ?thesis by (auto simp: load_inv_def)
next
  case (load cls cm sv)
  note k = load_contexts_keeps [OF load(2)]
  note m = settled_mono [OF _ conjunct1 [OF k] load(3)]
  have n: "settled load_app ld' name" by (simp add: settled_def load(3) dict_has_iff)
  have old: "settled load_app ld' s \<or> s \<in> set todo" if "settled load_app ld s \<or> s \<in> set (name # rest)" for s
    using that m n load(4) by auto
  have new: "settled load_app ld' s \<or> s \<in> set todo" if s: "s \<in> asked_services sn ra cls" for s
  proof (cases "s \<in> ctx_services sn ra (ac_contexts cls)")
    case True
    with load_contexts_services [OF load(2)] load(4) show ?thesis by simp
  next
    case False
    with s have d: "s \<in> set (get_dependent_services sn ra cls)" by (simp add: asked_services_def)
    have "set cm \<subseteq> ctx_modules (ld_contexts_cls ld')"
      using k ctx_modules_mono [OF conjunct1 [OF k]] by (simp add: ctx_modules_def dict_vals_def image_image)
    with d load(4) show ?thesis by (auto simp: settled_def)
  qed
  show ?thesis unfolding load_inv_def
  proof (intro conjI ballI allI impI)
    show "settled load_app ld' s \<or> s \<in> set todo" if "s \<in> names" for s
      using inv that by (intro old) (simp only: load_inv_def)
    show "settled load_app ld' s \<or> s \<in> set todo"
      if e: "(k, c) \<in> set (ld_applications_cls ld')" "s \<in> asked_services sn ra c" for k c s
    proof -
      from e(1) have "(k, c) = (name, cls) \<or> (k, c) \<in> set (ld_applications_cls ld)"
        unfolding load(3) by (rule set_dict_set)
      then show ?thesis
      proof
        assume "(k, c) = (name, cls)"
        with e(2) show ?thesis by (intro new) simp
      next
        assume "(k, c) \<in> set (ld_applications_cls ld)"
        with e(2) inv show ?thesis unfolding load_inv_def by (intro old) blast
      qed
    qed
  qed
qed

lemma load_one_rank:
  assumes rank: "ranked load_app sn ra rank"
    and one: "load_one load_app sn ra name rest ld = Inr (ld', todo)"
  shows "(mset (map rank todo), mset (map rank (name # rest))) \<in> mult less_than"
  using one
proof (cases rule: load_one_cases)
  case skip
  have "(mset (map rank rest) + {#}, mset (map rank rest) + {#rank name#}) \<in> mult less_than"
    by (rule one_step_implies_mult) simp_all
  with skip(2) show ?thesis by simp
next
  case (load cls cm sv)
  from load(5) obtain new where new: "todo = rest @ new" "set new \<subseteq> set sv \<union> set (get_dependent_services sn ra cls)"
    by blast
  have "rank s < rank name" if "s \<in> set new" for s
    using rank load(1) that new(2) load_contexts_services [OF load(2)]
    unfolding ranked_def by (auto simp: asked_services_def)
  then have "(mset (map rank rest) + mset (map rank new), mset (map rank rest) + {#rank name#}) \<in> mult less_than"
    by (intro one_step_implies_mult) auto
  with new(1) show ?thesis by simp
qed

lemma load_loop_ends:
  assumes rank: "ranked load_app sn ra rank"
    and "load_inv load_app sn ra names todo ld"
  shows "\<exists>r. load_loop load_app sn ra todo ld = Some r \<and>
    (\<forall>ld'. r = Inr ld' \<longrightarrow> load_inv load_app sn ra names [] ld')"
  using assms(2)
proof (induction "mset (map rank todo)" arbitrary: todo ld rule: wf_induct_rule [OF wf_mult [OF wf_less_than]])
  case (1 todo ld)
  show ?case
  proof (cases todo)
    case Nil
    with 1(2) show ?thesis by (simp add: load_loop.simps)
  next
    case (Cons name rest)
    show ?thesis
    proof (cases "load_one load_app sn ra name rest ld")
      case (Inl e)
      with Cons show ?thesis by (simp add: load_loop.simps)
    next
      case (Inr r)
      obtain ld1 todo1 where r: "r = (ld1, todo1)" by fastforce
      have o: "load_one load_app sn ra name rest ld = Inr (ld1, todo1)" using Inr r by simp
      have "\<exists>r. load_loop load_app sn ra todo1 ld1 = Some r \<and>
          (\<forall>ld'. r = Inr ld' \<longrightarrow> load_inv load_app sn ra names [] ld')"
      proof (rule 1(1))
        show "(mset (map rank todo1), mset (map rank todo)) \<in> mult less_than"
          unfolding Cons by (rule load_one_rank [OF rank o])
        show "load_inv load_app sn ra names todo1 ld1"
          by (rule load_inv_step [OF 1(2) [unfolded Cons] o])
      qed
      with o Cons show ?thesis by (subst load_loop.simps) simp
    qed
  qed
qed

section \<open>Applications that ask for each other\<close>

lemma load_one_asks:
  assumes "asks_only load_app sn ra a b" and "ld_contexts_cls ld = []"
  shows "\<exists>ld'. load_one load_app sn ra a [] ld = Inr (ld', [b]) \<and> ld_contexts_cls ld' = []"
proof -
  from assms(1) obtain cls where "load_app a = Inr (Some cls)" "ac_contexts cls = []" "get_dependent_services sn ra cls = [b]"
    by (auto simp: asks_only_def split: sum.splits option.splits)
  with assms(2) show ?thesis by (simp add: load_one_def dict_vals_def)
qed

lemma load_loop_cycle:
  assumes "load_loop load_app sn ra todo ld = Some r"
  shows "\<not> (asks_only load_app sn ra a b \<and> asks_only load_app sn ra b a \<and> todo \<in> {[a], [b]} \<and> ld_contexts_cls ld = [])"
  apply (rule load_loop.raw_induct [where P = "\<lambda>load_app sn ra todo ld r.
      \<not> (asks_only load_app sn ra a b \<and> asks_only load_app sn ra b a \<and> todo \<in> {[a], [b]} \<and> ld_contexts_cls ld = [])",
      OF _ assms])
  subgoal premises prems for f load_app sn ra todo ld r
  proof
    assume c: "asks_only load_app sn ra a b \<and> asks_only load_app sn ra b a \<and> todo \<in> {[a], [b]} \<and> ld_contexts_cls ld = []"
    then obtain x y where xy: "todo = [x]" "asks_only load_app sn ra x y" "[y] \<in> {[a], [b]}" by auto
    obtain ld' where "load_one load_app sn ra x [] ld = Inr (ld', [y])" "ld_contexts_cls ld' = []"
      using load_one_asks [OF xy(2)] c by blast
    with prems xy c show False by fastforce
  qed
  done

section \<open>Samples\<close>

section \<open>Properties\<close>

text \<open>
  C13. Loading a list of applications ends when the applications do not ask for
  each other in a circle, and if no import fails then every name that was requested, and every
  service that a loaded application asks for itself or through its contexts, is loaded, is
  provided by a context, or names a module without an application.
\<close>

theorem load_apps_ends:
  assumes "ranked load_app sn ra rank"
  shows "\<exists>r. load_apps load_app sn ra names \<lparr>ld_contexts_cls = [], ld_applications_cls = []\<rparr> = Some r \<and>
    (\<forall>ld. r = Inr ld \<longrightarrow>
       (\<forall>s \<in> set (concat (map (split_on (CHR '','')) names)). settled load_app ld s) \<and>
       (\<forall>n cls s. (n, cls) \<in> set (ld_applications_cls ld) \<longrightarrow> s \<in> asked_services sn ra cls \<longrightarrow> settled load_app ld s))"
proof -
  let ?todo = "concat (map (split_on (CHR '','')) names)"
  let ?ld = "\<lparr>ld_contexts_cls = [], ld_applications_cls = []\<rparr> :: loaded"
  have "load_inv load_app sn ra (set ?todo) ?todo ?ld" by (simp add: load_inv_def)
  from load_loop_ends [OF assms this] obtain r where r: "load_loop load_app sn ra ?todo ?ld = Some r"
    "\<forall>ld'. r = Inr ld' \<longrightarrow> load_inv load_app sn ra (set ?todo) [] ld'" by blast
  have "settled load_app ld s" if "r = Inr ld" "s \<in> set ?todo" for ld s
    using r(2) that unfolding load_inv_def by (metis empty_iff empty_set)
  moreover have "settled load_app ld s"
    if "r = Inr ld" "(n, cls) \<in> set (ld_applications_cls ld)" "s \<in> asked_services sn ra cls" for ld n cls s
    using r(2) that unfolding load_inv_def by (metis empty_iff empty_set)
  ultimately show ?thesis using r(1) unfolding load_apps_def by blast
qed

theorem load_apps_ends_witness:
  "\<exists>ld. load_apps sample_load (\<lambda>_. None) (\<lambda>m. if m = ''a'' then [''b''] else []) [''a'']
     \<lparr>ld_contexts_cls = [], ld_applications_cls = []\<rparr> = Some (Inr ld) \<and> settled sample_load ld ''b''"
proof -
  let ?ra = "\<lambda>m. if m = ''a'' then [''b''] else []"
  have e: "load_apps sample_load (\<lambda>_. None) ?ra [''a''] \<lparr>ld_contexts_cls = [], ld_applications_cls = []\<rparr>
    = Some (Inr \<lparr>ld_contexts_cls = [],
                ld_applications_cls = [(''a'', sample_class ''a'' ''a''), (''b'', sample_class ''b'' ''b'')]\<rparr>)"
    by (simp add: load_apps_def load_loop.simps load_one_def sample_load_def sample_class_def
        get_dependent_services_def dict_vals_def)
  have a: "''b'' \<in> asked_services (\<lambda>_. None) ?ra (sample_class ''a'' ''a'')"
    by (simp add: asked_services_def get_dependent_services_def sample_class_def)
  have "ranked sample_load (\<lambda>_. None) ?ra (\<lambda>s. if s = ''a'' then 1 else 0)"
    by (auto simp: ranked_def sample_load_def sample_class_def asked_services_def ctx_services_def
        get_dependent_services_def split: if_splits)
  from load_apps_ends [OF this, of "[''a'']"] e a show ?thesis by force
qed

text \<open>
  C38. Loading never ends for two applications that ask for each
  other: a name that has been loaded is put on the list again.
\<close>

theorem load_apps_cycle_never_ends:
  assumes "asks_only load_app sn ra a b" and "asks_only load_app sn ra b a" and "CHR '','' \<notin> set a"
  shows "load_apps load_app sn ra [a] \<lparr>ld_contexts_cls = [], ld_applications_cls = []\<rparr> = None"
proof -
  have "split_on (CHR '','') a = [a]"
    using assms(3) by (induction a) auto
  moreover have "load_loop load_app sn ra [a] \<lparr>ld_contexts_cls = [], ld_applications_cls = []\<rparr> = None"
    using load_loop_cycle [of load_app sn ra "[a]" "\<lparr>ld_contexts_cls = [], ld_applications_cls = []\<rparr>" _ a b] assms(1,2)
    by (cases "load_loop load_app sn ra [a] \<lparr>ld_contexts_cls = [], ld_applications_cls = []\<rparr>") auto
  ultimately show ?thesis by (simp add: load_apps_def)
qed

theorem load_apps_cycle_never_ends_witness:
  "load_apps sample_load (\<lambda>_. None) (\<lambda>m. if m = ''a'' then [''b''] else [''a'']) [''a'']
     \<lparr>ld_contexts_cls = [], ld_applications_cls = []\<rparr> = None"
  by (rule load_apps_cycle_never_ends [where b = "''b''"])
     (simp_all add: asks_only_def sample_load_def sample_class_def get_dependent_services_def)

end
