(* ===== verification/Pkt_Sum.thy ===== *)
theory Pkt_Sum
  imports Oxm_Codec
begin

text \<open>
  The checksums of \<open>ryu/lib/packet/packet_utils.py\<close>. The sum of 16-bit words is taken in the byte
  order of the host, which is an argument (\<open>little\<close>), and the result is brought to network order.
\<close>

section \<open>The Internet checksum\<close>

definition carry_around_add :: "int \<Rightarrow> int \<Rightarrow> int" where
  "carry_around_add a b = (let c = a + b in (c AND 0xffff) + drop_bit 16 c)"

text \<open>\<open>array.array('H', data)\<close> for data of even length, and \<open>socket.ntohs\<close>.\<close>

definition host_word :: "bool \<Rightarrow> byte \<Rightarrow> byte \<Rightarrow> int" where
  "host_word little a b = (if little then uint a + 256 * uint b else 256 * uint a + uint b)"

fun host_words :: "bool \<Rightarrow> bytes \<Rightarrow> int list" where
  "host_words little (a # b # bs) = host_word little a b # host_words little bs"
| "host_words little _ = []"

definition ntohs :: "bool \<Rightarrow> int \<Rightarrow> int" where
  "ntohs little x = (if little then (x mod 256) * 256 + x div 256 else x)"

definition checksum :: "bool \<Rightarrow> bytes \<Rightarrow> int" where
  "checksum little data =
     (let data1 = (if odd (length data) then data @ [0] else data);
          s = sum_list (host_words little data1);
          s1 = (s AND 0xffff) + drop_bit 16 s;
          s2 = s1 + drop_bit 16 s1
      in ntohs little (NOT s2 AND 0xffff))"

section \<open>The Fletcher checksum\<close>

definition MODX :: nat where
  "MODX = 4102"

fun fletcher_inner :: "bytes \<Rightarrow> int \<Rightarrow> int \<Rightarrow> int \<times> int" where
  "fletcher_inner [] c0 c1 = (c0, c1)"
| "fletcher_inner (d # ds) c0 c1 = fletcher_inner ds (c0 + uint d) (c1 + (c0 + uint d))"

function fletcher_loop :: "bytes \<Rightarrow> int \<Rightarrow> int \<Rightarrow> int \<times> int" where
  "fletcher_loop data c0 c1 =
     (if data = [] then (c0, c1)
      else case fletcher_inner (take MODX data) c0 c1 of
             (d0, d1) \<Rightarrow> fletcher_loop (drop MODX data) (d0 mod 255) (d1 mod 255))"
  by pat_completeness auto

termination
  by (relation "measure (\<lambda>(data, _). length data)") (auto simp: MODX_def)

declare fletcher_loop.simps [simp del]

text \<open>
  The checksum field is cleared first; a field that starts behind the end of the data makes the
  final stores raise \<open>IndexError\<close>.
\<close>

definition fletcher_checksum :: "bytes \<Rightarrow> nat \<Rightarrow> int res" where
  "fletcher_checksum data offset =
     (let n = length data;
          data1 = take offset data @ [0, 0] @ drop (offset + 2) data
      in case fletcher_loop (take n data1) 0 0 of
           (c0, c1) \<Rightarrow>
             (let x0 = ((int n - int offset - 1) * c0 - c1) mod 255;
                  x = (if x0 \<le> 0 then x0 + 255 else x0);
                  y0 = 510 - c0 - x;
                  y = (if y0 > 255 then y0 - 255 else y0)
              in if offset \<le> n then Inr (push_bit 8 x OR (y AND 0xff)) else Inl IndexError))"

end
