(* ===== verification/Pkt_Sum_Codec.thy ===== *)
theory Pkt_Sum_Codec
  imports Pkt_Sum
begin

text \<open>
  The checksums: the code against RFC 1071 on hosts of either byte order, and what a receiver
  finds in data that carries a checksum.
\<close>

section \<open>Vocabulary\<close>

text \<open>The sum of RFC 1071: big-endian words, padded with zero, added with end-around carry.\<close>

fun word_sum :: "bytes \<Rightarrow> int" where
  "word_sum (a # b # bs) = 256 * uint a + uint b + word_sum bs"
| "word_sum [a] = 256 * uint a"
| "word_sum [] = 0"

definition ones_sum :: "int \<Rightarrow> int" where
  "ones_sum s = (if s = 0 then 0 else (s - 1) mod 65535 + 1)"

definition rfc1071 :: "bytes \<Rightarrow> int" where
  "rfc1071 data = 65535 - ones_sum (word_sum data)"

text \<open>The two sums a receiver checks, over the plain integers.\<close>

fun fsum :: "bytes \<Rightarrow> int" where
  "fsum [] = 0"
| "fsum (d # ds) = uint d + fsum ds"

fun wsum :: "bytes \<Rightarrow> int" where
  "wsum [] = 0"
| "wsum (d # ds) = int (length (d # ds)) * uint d + wsum ds"

section \<open>One's complement sums\<close>

lemma word_sum_nonneg [simp]: "0 \<le> word_sum bs"
  by (induction bs rule: word_sum.induct) auto

lemma word_sum_append: "even (length xs) \<Longrightarrow> word_sum (xs @ ys) = word_sum xs + word_sum ys"
  by (induction xs rule: word_sum.induct) auto

lemma ones_sum_range: "0 \<le> s \<Longrightarrow> 0 \<le> ones_sum s \<and> ones_sum s \<le> 65535"
  using pos_mod_bound [of 65535 "s - 1"] by (auto simp: ones_sum_def)

lemma ones_sum_mod: "ones_sum s mod 65535 = s mod 65535"
  by (simp add: ones_sum_def mod_simps)

text \<open>The representative is determined by its range, its residue and whether the sum is zero.\<close>

lemma ones_sum_unique:
  assumes "0 \<le> x" and "x \<le> 65535" and "x mod 65535 = s mod 65535" and "x = 0 \<longleftrightarrow> s = 0" and "0 \<le> s"
  shows "ones_sum s = x"
proof (cases "s = 0")
  case False
  have r: "0 < ones_sum s" "ones_sum s \<le> 65535"
    using False pos_mod_sign [of 65535 "s - 1"] pos_mod_bound [of 65535 "s - 1"] by (auto simp: ones_sum_def)
  have x: "0 < x" "x \<le> 65535" using assms False by auto
  have "(ones_sum s - 1) mod 65535 = (x - 1) mod 65535"
    using assms(3) ones_sum_mod [of s] by (intro mod_diff_cong) simp_all
  with r x show ?thesis by simp
qed (use assms in \<open>simp add: ones_sum_def\<close>)

lemma fold_carry:
  fixes q r :: int
  assumes "0 \<le> r" and "r \<le> 65535" and "0 \<le> q" and "q \<le> 65535"
  shows "(r + q + (r + q) div 65536) mod 65536 = ones_sum (65536 * q + r)"
proof (cases "r + q < 65536")
  case True
  have "(r + q) div 65536 = 0" using assms True by (intro div_pos_pos_trivial) simp_all
  moreover have "(r + q) mod 65536 = r + q" using assms True by (intro mod_pos_pos_trivial) simp_all
  moreover have "ones_sum (65536 * q + r) = r + q"
  proof (rule ones_sum_unique)
    show "(r + q) mod 65535 = (65536 * q + r) mod 65535"
      using mod_mult_self2 [of "r + q" 65535 q] by (simp add: algebra_simps)
  qed (use assms True in auto)
  ultimately show ?thesis by simp
next
  case False
  have d: "(r + q) div 65536 = 1"
    by (rule int_div_pos_eq [of _ _ _ "r + q - 65536"]) (use assms False in simp_all)
  have "(r + q + 1) mod 65536 = r + q - 65535"
    by (rule int_mod_pos_eq [of _ _ 1]) (use assms False in simp_all)
  moreover have "ones_sum (65536 * q + r) = r + q - 65535"
  proof (rule ones_sum_unique)
    show "(r + q - 65535) mod 65535 = (65536 * q + r) mod 65535"
      using mod_mult_self2 [of "r + q - 65535" 65535 "q + 1"] by (simp add: algebra_simps)
  qed (use assms False in auto)
  ultimately show ?thesis by (simp only: d)
qed

lemma fold_ones_sum:
  fixes s :: int
  assumes "0 \<le> s" and "s < 2 ^ 32"
  shows "(s mod 65536 + s div 65536 + (s mod 65536 + s div 65536) div 65536) mod 65536 = ones_sum s"
proof -
  define q r where d: "q = s div 65536" "r = s mod 65536"
  have "0 \<le> r" "r \<le> 65535" "0 \<le> q" "q \<le> 65535" using assms by (simp_all add: d)
  from fold_carry [OF this] show ?thesis by (simp add: d)
qed

lemma and_ffff: "x AND 0xffff = x mod 65536" for x :: int
  using take_bit_eq_mask [of 16 x] by (simp add: take_bit_eq_mod mask_eq_exp_minus_1)

lemma not_and_ffff: "NOT x AND 0xffff = 65535 - x mod 65536" for x :: int
proof -
  have "NOT x = (65535 - x mod 65536) + 65536 * (- (x div 65536) - 1)"
  proof -
    have "x = 65536 * (x div 65536) + x mod 65536" by simp
    then show ?thesis unfolding not_int_def by (simp add: algebra_simps)
  qed
  then have "NOT x mod 65536 = (65535 - x mod 65536) mod 65536" by (metis mod_mult_self2)
  also have "\<dots> = 65535 - x mod 65536"
    using pos_mod_bound [of 65536 x] pos_mod_sign [of 65536 x] by (intro mod_pos_pos_trivial) simp_all
  finally show ?thesis by (simp only: and_ffff)
qed

section \<open>The checksum of the code\<close>

lemma sum_host_words_big: "even (length bs) \<Longrightarrow> sum_list (host_words False bs) = word_sum bs"
  by (induction bs rule: word_sum.induct) (auto simp: host_word_def)

lemma sum_host_words_little:
  "even (length bs) \<Longrightarrow> sum_list (host_words True bs) mod 65535 = (256 * word_sum bs) mod 65535 \<and>
     (sum_list (host_words True bs) = 0 \<longleftrightarrow> word_sum bs = 0) \<and> 0 \<le> sum_list (host_words True bs)"
proof (induction bs rule: word_sum.induct)
  case (1 a b bs)
  let ?s = "sum_list (host_words True bs)"
  have ih: "?s mod 65535 = (256 * word_sum bs) mod 65535" "?s = 0 \<longleftrightarrow> word_sum bs = 0" "0 \<le> ?s"
    using 1 by simp_all
  have "(uint a + 256 * uint b + ?s) mod 65535 = (uint a + 256 * uint b + 256 * word_sum bs) mod 65535"
    by (rule mod_add_cong) (simp_all add: ih(1))
  also have "\<dots> = (uint a + 256 * uint b + 256 * word_sum bs + 65535 * uint a) mod 65535"
    by (rule mod_mult_self2 [symmetric])
  also have "uint a + 256 * uint b + 256 * word_sum bs + 65535 * uint a = 256 * word_sum (a # b # bs)"
    by simp
  finally have m: "(uint a + 256 * uint b + ?s) mod 65535 = (256 * word_sum (a # b # bs)) mod 65535" .
  have n: "0 \<le> uint a" "0 \<le> uint b" "0 \<le> word_sum bs" by simp_all
  have "uint a + 256 * uint b + ?s = 0 \<longleftrightarrow> 256 * uint a + uint b + word_sum bs = 0"
    using n ih(2,3) by linarith
  with m ih(3) show ?case by (simp add: host_word_def)
qed simp_all

lemma host_words_bound: "sum_list (host_words little bs) \<le> 65535 * (int (length bs) div 2)"
proof (induction little bs rule: host_words.induct)
  case (1 little a b bs)
  have "uint a < 256" "uint b < 256" using uint_lt2p [of a] uint_lt2p [of b] by simp_all
  then have u: "host_word little a b \<le> 65535" by (simp add: host_word_def)
  define k where "k = int (length bs) div 2"
  have "int (length (a # b # bs)) div 2 = k + 1" by (simp add: k_def)
  with 1 u show ?case by (simp add: k_def)
qed simp_all

lemma word_sum_pad: "odd (length bs) \<Longrightarrow> word_sum (bs @ [0]) = word_sum bs"
  by (induction bs rule: word_sum.induct) auto

lemma swap_mod: "0 \<le> x \<Longrightarrow> x < 65536 \<Longrightarrow>
    ((x mod 256) * 256 + x div 256) mod 65535 = (256 * x) mod 65535 \<and>
    ((x mod 256) * 256 + x div 256 = 0 \<longleftrightarrow> x = 0) \<and> 0 \<le> (x mod 256) * 256 + x div 256 \<and>
    (x mod 256) * 256 + x div 256 \<le> 65535" for x :: int
proof -
  assume x: "0 \<le> x" "x < 65536"
  define q r where d: "q = x div 256" "r = x mod 256"
  have b: "0 \<le> q" "q < 256" "0 \<le> r" "r < 256" "x = 256 * q + r" using x by (simp_all add: d)
  have "(r * 256 + q) mod 65535 = (r * 256 + q + 65535 * q) mod 65535" by (rule mod_mult_self2 [symmetric])
  also have "r * 256 + q + 65535 * q = 256 * x" using b(5) by simp
  finally have m: "(r * 256 + q) mod 65535 = (256 * x) mod 65535" .
  have "r * 256 + q = 0 \<longleftrightarrow> x = 0" using b by linarith
  moreover have "0 \<le> r * 256 + q" "r * 256 + q \<le> 65535" using b(1-4) by simp_all
  ultimately show ?thesis unfolding d [symmetric] using m by blast
qed

lemma ones_sum_swap:
  assumes "0 \<le> s" and "0 \<le> t" and "s mod 65535 = (256 * t) mod 65535" and "s = 0 \<longleftrightarrow> t = 0"
  shows "(ones_sum s mod 256) * 256 + ones_sum s div 256 = ones_sum t"
proof -
  let ?x = "ones_sum s"
  have r: "0 \<le> ?x" "?x < 65536" using ones_sum_range [OF assms(1)] by auto
  note sw = swap_mod [OF r]
  have "(256 * ?x) mod 65535 = (256 * s) mod 65535"
    by (rule mod_mult_cong) (simp_all add: ones_sum_mod)
  also have "\<dots> = (256 * (256 * t)) mod 65535" by (rule mod_mult_cong) (simp_all add: assms(3))
  also have "256 * (256 * t) = t + 65535 * t" by simp
  also have "(t + 65535 * t) mod 65535 = t mod 65535" by (rule mod_mult_self2)
  finally have "((?x mod 256) * 256 + ?x div 256) mod 65535 = t mod 65535" using sw by simp
  moreover have "?x = 0 \<longleftrightarrow> s = 0" using pos_mod_sign [of 65535 "s - 1"] by (auto simp: ones_sum_def)
  ultimately show ?thesis using sw assms by (intro ones_sum_unique [symmetric]) auto
qed

lemma ntohs_complement:
  "0 \<le> x \<Longrightarrow> x \<le> 65535 \<Longrightarrow> ntohs True (65535 - x) = 65535 - ((x mod 256) * 256 + x div 256)" for x :: int
proof -
  assume x: "0 \<le> x" "x \<le> 65535"
  define q r where d: "q = x div 256" "r = x mod 256"
  have b: "0 \<le> q" "q < 256" "0 \<le> r" "r < 256" "x = 256 * q + r" using x by (simp_all add: d)
  have e: "65535 - x = (255 - r) + (255 - q) * 256" using b(5) by simp
  have 1: "(65535 - x) mod 256 = 255 - r"
    unfolding e by (simp only: mod_mult_self1) (use b in simp)
  have 2: "(65535 - x) div 256 = 255 - q"
    unfolding e using div_mult_self1 [of 256 "255 - r" "255 - q"] b by simp
  show ?thesis unfolding ntohs_def if_True 1 2 d [symmetric] by simp
qed

lemma checksum_rfc:
  assumes "length data \<le> 131072"
  shows "checksum little data = rfc1071 data"
proof -
  define d where "d = (if odd (length data) then data @ [0] else data)"
  define s where "s = sum_list (host_words little d)"
  have ev: "even (length d)" by (simp add: d_def)
  have ws: "word_sum d = word_sum data" by (simp add: d_def word_sum_pad)
  have l: "length d \<le> 131072" using assms by (auto simp: d_def elim: oddE)
  have nonneg: "0 \<le> s" using sum_host_words_little [OF ev] sum_host_words_big [OF ev] by (cases little) (simp_all add: s_def)
  have "s \<le> 65535 * (int (length d) div 2)" unfolding s_def by (rule host_words_bound)
  also have "\<dots> \<le> 65535 * 65536" using l by simp
  finally have bound: "s < 2 ^ 32" by simp
  have c: "checksum little data = ntohs little (65535 - ones_sum s)"
    using fold_ones_sum [OF nonneg bound]
    by (simp add: checksum_def Let_def d_def [symmetric] s_def [symmetric] not_and_ffff [unfolded and_ffff]
        and_ffff drop_bit_eq_div)
  show ?thesis
  proof (cases little)
    case False
    then have "s = word_sum data" using sum_host_words_big [OF ev] ws by (simp add: s_def)
    with c False show ?thesis by (simp add: ntohs_def rfc1071_def)
  next
    case True
    have "(ones_sum s mod 256) * 256 + ones_sum s div 256 = ones_sum (word_sum data)"
      using sum_host_words_little [OF ev] True ws nonneg by (intro ones_sum_swap) (simp_all add: s_def)
    with c True ntohs_complement ones_sum_range [OF nonneg] show ?thesis by (simp add: rfc1071_def)
  qed
qed

section \<open>A receiver accepts what was sent\<close>

lemma word_sum_be_bytes: "fits 2 c \<Longrightarrow> word_sum (be_bytes 2 c) = c"
proof -
  assume "fits 2 c"
  then have "be_int (be_bytes 2 c) = c" by simp
  moreover have "be_bytes 2 c = [word_of_int (c div 256), word_of_int c]" by (simp add: numeral_2_eq_2)
  ultimately show ?thesis by (simp add: be_int_def mult.commute)
qed

lemma rfc1071_fits: "fits 2 (rfc1071 data)"
  using ones_sum_range [OF word_sum_nonneg, of data] by (simp add: rfc1071_def fits_def)

lemma ones_sum_complement: "0 \<le> s \<Longrightarrow> ones_sum (s + (65535 - ones_sum s)) = 65535"
proof -
  assume s: "0 \<le> s"
  have o: "0 \<le> ones_sum s" "ones_sum s \<le> 65535" using ones_sum_range [OF s] by auto
  have "ones_sum s \<le> s"
  proof (cases "s = 0")
    case False
    then have "(s - 1) mod 65535 \<le> s - 1" using s by (intro zmod_le_nonneg_dividend) simp
    with False show ?thesis by (simp add: ones_sum_def)
  qed (simp add: ones_sum_def)
  then have p: "0 < s + (65535 - ones_sum s)" by simp
  have "(s + (65535 - ones_sum s)) mod 65535 = (s - ones_sum s + 65535 * 1) mod 65535" by (simp add: algebra_simps)
  also have "\<dots> = (s - ones_sum s) mod 65535" by (rule mod_mult_self2)
  also have "\<dots> = (s - s) mod 65535" by (rule mod_diff_cong) (simp_all add: ones_sum_mod)
  also have "\<dots> = 0" by simp
  finally show ?thesis using p by (intro ones_sum_unique) auto
qed

text \<open>Writing the checksum of a buffer into its zeroed field makes the checksum of the buffer zero.\<close>

lemma rfc1071_insert:
  assumes "even (length pre)"
  shows "rfc1071 (pre @ be_bytes 2 (rfc1071 (pre @ [0, 0] @ post)) @ post) = 0"
proof -
  let ?c = "rfc1071 (pre @ [0, 0] @ post)"
  let ?s = "word_sum pre + word_sum post"
  have e: "even (length (be_bytes 2 ?c))" by simp
  have "word_sum (pre @ [0, 0] @ post) = ?s"
    using assms by (simp add: word_sum_append)
  then have c: "?c = 65535 - ones_sum ?s" by (simp only: rfc1071_def)
  have "word_sum (pre @ be_bytes 2 ?c @ post) = ?s + ?c"
    using word_sum_append [OF assms] word_sum_append [OF e] word_sum_be_bytes [OF rfc1071_fits] by simp
  then have "rfc1071 (pre @ be_bytes 2 ?c @ post) = 65535 - ones_sum (?s + (65535 - ones_sum ?s))"
    unfolding rfc1071_def [of "pre @ be_bytes 2 ?c @ post"] by (simp only: c)
  then show ?thesis using ones_sum_complement [of ?s] by simp
qed

section \<open>Fletcher\<close>

lemma fletcher_inner_eq:
  "fletcher_inner ds c0 c1 = (c0 + fsum ds, c1 + int (length ds) * c0 + wsum ds)"
  by (induction ds arbitrary: c0 c1) (simp_all add: algebra_simps)

lemma fsum_append: "fsum (xs @ ys) = fsum xs + fsum ys"
  by (induction xs) simp_all

lemma wsum_append: "wsum (xs @ ys) = wsum xs + int (length ys) * fsum xs + wsum ys"
  by (induction xs) (simp_all add: algebra_simps)

lemma fletcher_loop_eq:
  assumes "fletcher_loop data c0 c1 = (d0, d1)"
  shows "d0 mod 255 = (c0 + fsum data) mod 255 \<and>
    d1 mod 255 = (c1 + int (length data) * c0 + wsum data) mod 255 \<and>
    (data \<noteq> [] \<longrightarrow> 0 \<le> d0 \<and> d0 < 255)"
  using assms
proof (induction data c0 c1 rule: fletcher_loop.induct)
  case (1 data c0 c1)
  show ?case
  proof (cases "data = []")
    case True
    with 1(2) show ?thesis by (simp add: fletcher_loop.simps)
  next
    case False
    let ?t = "take MODX data" and ?r = "drop MODX data"
    define e0 e1 where e: "e0 = c0 + fsum ?t" "e1 = c1 + int (length ?t) * c0 + wsum ?t"
    have r: "fletcher_loop ?r (e0 mod 255) (e1 mod 255) = (d0, d1)"
      using 1(2) False by (subst (asm) fletcher_loop.simps) (simp add: fletcher_inner_eq e)
    have ih: "d0 mod 255 = (e0 mod 255 + fsum ?r) mod 255 \<and>
        d1 mod 255 = (e1 mod 255 + int (length ?r) * (e0 mod 255) + wsum ?r) mod 255 \<and>
        (?r \<noteq> [] \<longrightarrow> 0 \<le> d0 \<and> d0 < 255)"
      using 1(1) [OF False, of e0 e1] r by (simp add: fletcher_inner_eq e)
    have d: "data = ?t @ ?r" by simp
    have 1: "d0 mod 255 = (c0 + fsum data) mod 255"
      using ih by (subst d, simp only: fsum_append) (simp add: mod_simps e(1) add.assoc)
    have l: "int (length data) = int (length ?t) + int (length ?r)" by (subst d) (simp only: length_append of_nat_add)
    have "(e1 mod 255 + int (length ?r) * (e0 mod 255) + wsum ?r) mod 255
        = (e1 + int (length ?r) * e0 + wsum ?r) mod 255"
      by (intro mod_add_cong mod_mult_cong refl mod_mod_trivial)
    also have "e1 + int (length ?r) * e0 + wsum ?r = c1 + int (length data) * c0 + wsum data"
      by (subst (3) d, simp only: wsum_append l e) (simp add: algebra_simps)
    finally have 2: "d1 mod 255 = (c1 + int (length data) * c0 + wsum data) mod 255" using ih by simp
    have "0 \<le> d0 \<and> d0 < 255"
    proof (cases "?r = []")
      case True
      with r show ?thesis by (auto simp: fletcher_loop.simps)
    next
      case False
      with ih show ?thesis by blast
    qed
    with 1 2 show ?thesis by blast
  qed
qed

lemma fletcher_values:
  fixes c0 z :: int
  assumes "0 \<le> c0" and "c0 < 255"
  defines "x \<equiv> (if z mod 255 \<le> 0 then z mod 255 + 255 else z mod 255)"
  defines "y \<equiv> (if 510 - c0 - x > 255 then 510 - c0 - x - 255 else 510 - c0 - x)"
  shows "0 < x" "x \<le> 255" "0 < y" "y \<le> 255" "x mod 255 = z mod 255" "(c0 + x + y) mod 255 = 0"
proof -
  have z: "0 \<le> z mod 255" "z mod 255 < 255" by simp_all
  show x: "0 < x" "x \<le> 255" using z by (auto simp: x_def)
  show "x mod 255 = z mod 255" by (simp add: x_def)
  show "0 < y" "y \<le> 255" using x assms(1,2) by (auto simp: y_def)
  show "(c0 + x + y) mod 255 = 0" by (simp add: y_def)
qed

lemma and_ff_id: "0 \<le> y \<Longrightarrow> y \<le> 255 \<Longrightarrow> y AND 0xff = y" for y :: int
  using take_bit_eq_mask [of 8 y] take_bit_int_eq_self [of y 8] by (simp add: mask_eq_exp_minus_1)

section \<open>Properties\<close>

text \<open>
  C39. The Internet checksum as the code computes it, by adding words in the
  byte order of the host, folding the carries twice and swapping the result, is the checksum of
  RFC 1071 (the complement of the one's complement sum of the big-endian words) on hosts of
  either byte order, for data of up to 131072 bytes.
\<close>

theorem checksum_rfc1071: "length data \<le> 131072 \<Longrightarrow> checksum little data = rfc1071 data"
  by (rule checksum_rfc)

theorem checksum_rfc1071_witness: "checksum True [0x45, 0x00, 0x01] = 0xb9ff \<and> rfc1071 [0x45, 0x00, 0x01] = 0xb9ff"
proof -
  have "rfc1071 [0x45, 0x00, 0x01] = 0xb9ff" by code_simp
  with checksum_rfc1071 [of "[0x45, 0x00, 0x01]" True] show ?thesis by simp
qed

text \<open>
  C40. Data with the Fletcher checksum of the code written into its checksum
  field has both sums a receiver checks, the plain one and the weighted one, divisible by 255,
  for data of any length and any position of the field.
\<close>

theorem fletcher_verifies:
  assumes "offset + 2 \<le> length data" and "fletcher_checksum data offset = Inr v"
  shows "fits 2 v \<and> fsum (overwrite offset (be_bytes 2 v) data) mod 255 = 0 \<and>
    wsum (overwrite offset (be_bytes 2 v) data) mod 255 = 0"
proof -
  let ?pre = "take offset data" and ?post = "drop (offset + 2) data"
  let ?d = "?pre @ [0, 0] @ ?post"
  have ld: "length ?d = length data" using assms(1) by simp
  obtain c0 c1 where c: "fletcher_loop ?d 0 0 = (c0, c1)" by fastforce
  have ne: "?d \<noteq> []" by simp
  from fletcher_loop_eq [OF c] ne have c0: "c0 mod 255 = fsum ?d mod 255" "0 \<le> c0" "c0 < 255"
    and c1: "c1 mod 255 = wsum ?d mod 255" by auto
  define m where "m = int (length ?post)"
  have m: "int (length data) - int offset - 1 = m + 1" using assms(1) by (simp add: m_def)
  define z x y where d: "z = (m + 1) * c0 - c1" "x = (if z mod 255 \<le> 0 then z mod 255 + 255 else z mod 255)"
    "y = (if 510 - c0 - x > 255 then 510 - c0 - x - 255 else 510 - c0 - x)"
  note xy = fletcher_values [OF c0(2,3), of z, folded d(2), folded d(3)]
  have td: "take (length data) ?d = ?d" by (rule take_all) (simp only: ld)
  have "offset \<le> length data" using assms(1) by simp
  then have "fletcher_checksum data offset = Inr (push_bit 8 x OR (y AND 0xff))"
    unfolding fletcher_checksum_def Let_def td c prod.case m d(1) [symmetric] d(2) [symmetric] d(3) [symmetric]
    by (simp only: if_True)
  then have "v = push_bit 8 x OR (y AND 0xff)" using assms(2) by (simp only: sum.inject)
  moreover have "y AND 0xff = y" using and_ff_id xy(3,4) by simp
  moreover have "push_bit 8 x OR y = x * 2 ^ 8 + y" using int_shift_or [of y 8 x] xy(3,4) by simp
  ultimately have v: "v = x * 256 + y" by simp
  have bb: "be_bytes 2 v = [word_of_int x, word_of_int y]"
  proof -
    have "(x * 256 + y) div 256 = x" by (rule int_div_pos_eq [of _ _ _ y]) (use xy(3,4) in simp_all)
    moreover have "(word_of_int (x * 256 + y) :: byte) = word_of_int y"
    proof -
      have "(256 :: byte) = 0" by code_simp
      then have "word_of_int x * (256 :: byte) = 0" by (simp only: mult_zero_right)
      then show ?thesis by simp
    qed
    ultimately show ?thesis by (simp add: v numeral_2_eq_2)
  qed
  let ?e = "?pre @ [word_of_int x, word_of_int y] @ ?post"
  have ov: "overwrite offset (be_bytes 2 v) data = ?e" by (simp add: overwrite_def bb)
  have u: "uint (word_of_int x :: byte) = x" "uint (word_of_int y :: byte) = y"
    using xy by (simp_all add: uint_word_of_int)
  have f: "fsum ?e = fsum ?d + x + y" by (simp add: fsum_append u)
  have w: "wsum ?e = wsum ?d + (m + 2) * x + (m + 1) * y" by (simp add: wsum_append u m_def fsum_append algebra_simps)
  have "255 dvd (wsum ?d - c1)" unfolding mod_eq_dvd_iff [symmetric] by (rule c1 [symmetric])
  moreover have "255 dvd (x - z)" unfolding mod_eq_dvd_iff [symmetric] by (rule xy(5))
  moreover have "255 dvd (c0 + x + y)" using xy(6) by (rule mod_0_imp_dvd)
  moreover have "255 dvd (fsum ?d - c0)" unfolding mod_eq_dvd_iff [symmetric] by (rule c0(1) [symmetric])
  moreover have "fsum ?e = (fsum ?d - c0) + (c0 + x + y)" unfolding f by simp
  moreover have "wsum ?e = (wsum ?d - c1) + (x - z) + (m + 1) * (c0 + x + y)"
    unfolding w d(1) by (simp add: algebra_simps)
  ultimately have dv: "255 dvd fsum ?e" "255 dvd wsum ?e" by (simp_all only: dvd_add dvd_mult)
  have "fits 2 v" using v xy(1-4) by (simp add: fits_def)
  with dv show ?thesis unfolding ov by (simp only: mod_eq_0_iff_dvd simp_thms)
qed

theorem fletcher_verifies_witness:
  "fsum (overwrite 1 (be_bytes 2 0xfffc) [1, 9, 9, 2]) mod 255 = 0 \<and>
   wsum (overwrite 1 (be_bytes 2 0xfffc) [1, 9, 9, 2]) mod 255 = 0"
proof -
  have "fletcher_checksum [1, 9, 9, 2] 1 = Inr 0xfffc" by code_simp
  from fletcher_verifies [OF _ this] show ?thesis by simp
qed

end
