(* ===== verification/Spec2Isabelle.thy ===== *)
theory Spec2Isabelle
  imports Beba_Proto OF13_Match_Old_Codec OF13_Msg_Codec Beba_Msg_Codec Beba_Stats_Codec Beba_OVS_Load Beba_OVS_Inv Ofp_Wire App_Loading Pkt_Sum_Codec
begin

end
